(* ===== verification/Prelude.thy ===== *)
theory Prelude
  imports Main "HOL-Library.AList" "HOL-Library.Sublist"
begin

text \<open>
  Shared vocabulary of the development: the fact collections the component theories fill and
  use, names for the basic types of the modelled Go program, Go maps as association lists
  (a list of key/value pairs with distinct keys is a map together with the order in which one
  \<^verbatim>\<open>range\<close> statement visits it), and generic facts on lists and maps.
\<close>

named_theorems emits_intros \<open>rules for the events a computation may emit\<close>
named_theorems keeps_intros \<open>rules for the state predicates a computation keeps\<close>
named_theorems run_simps \<open>equations that run a computation on a state\<close>

type_synonym smap = "(string \<times> string) list"

abbreviation lf :: char where
  "lf \<equiv> CHR 0x0A"

abbreviation cr :: char where
  "cr \<equiv> CHR 0x0D"

text \<open>A Go map read \<^verbatim>\<open>m[k]\<close>: the zero value (the empty string) for a missing key.\<close>

definition mget :: "smap \<Rightarrow> string \<Rightarrow> string" where
  "mget m k = (case map_of m k of None \<Rightarrow> [] | Some v \<Rightarrow> v)"

text \<open>A Go map write \<^verbatim>\<open>m[k] = v\<close>.\<close>

definition mput :: "smap \<Rightarrow> string \<Rightarrow> string \<Rightarrow> smap" where
  "mput m k v = AList.update k v m"

lemma mget_mput [simp]: "mget (mput m k v) k' = (if k' = k then v else mget m k')"
  by (simp add: mget_def mput_def update_conv')

lemma distinct_mput: "distinct (map fst m) \<Longrightarrow> distinct (map fst (mput m k v))"
  by (simp add: mput_def distinct_update)

lemma mget_Nil [simp]: "mget [] k = []"
  by (simp add: mget_def)

lemma find_append_case:
  "find P (xs @ ys) = (case find P xs of Some x \<Rightarrow> Some x | None \<Rightarrow> find P ys)"
  by (induction xs) auto

lemma find_Some_mem: "find P xs = Some x \<Longrightarrow> x \<in> set xs \<and> P x"
  by (induction xs) (auto split: if_splits)

lemma find_unique:
  assumes "x \<in> set xs" and "P x" and "\<And>y. y \<in> set xs \<Longrightarrow> P y \<Longrightarrow> y = x"
  shows "find P xs = Some x"
proof (cases "find P xs")
  case None
  then show ?thesis using assms(1,2) by (simp add: find_None_iff)
next
  case (Some y)
  then show ?thesis using assms(3) find_Some_mem [OF Some] by simp
qed

lemma concat_map_singleton_len:
  "(\<And>x. x \<in> set xs \<Longrightarrow> length (f x) = n) \<Longrightarrow> length (concat (map f xs)) = n * length xs"
  by (induction xs) auto

end
