(* ===== verification/Go_Lib.thy ===== *)
theory Go_Lib
  imports Prelude "HOL-Library.Multiset" "HOL-Library.List_Lexorder" "HOL-Library.Char_ord"
    "HOL-Library.Product_Lexorder"
begin

text \<open>
  The parts of Go and its standard library that the operator's code computes with: error
  values, \<^verbatim>\<open>strings.Contains\<close>, the insertion sort that \<^verbatim>\<open>sort.Slice\<close> and
  \<^verbatim>\<open>sort.Sort\<close> run on at most twelve elements, \<^verbatim>\<open>strconv.Itoa\<close> and
  \<^verbatim>\<open>strconv.Atoi\<close> on a 64-bit \<^verbatim>\<open>int\<close>, the line splitting of
  \<^verbatim>\<open>bufio.Scanner\<close> with its token limit, and \<^verbatim>\<open>base64.StdEncoding\<close>.
  A Go string is a byte string, here a \<^typ>\<open>string\<close> (a list of 8-bit characters).
\<close>

section \<open>Errors\<close>

datatype errno = ENOENT | EEXIST | ENOTEMPTY | EOther string

datatype gerr =
    ErrorString string
  | StatusError string int string
  | PathError errno string
  | ServiceError string
  | JoinError gerr gerr

text \<open>The \<^verbatim>\<open>Error()\<close> method; \<^verbatim>\<open>errors.Join\<close> separates the texts by a newline.\<close>

fun errText :: "gerr \<Rightarrow> string" where
  "errText (ErrorString m) = m"
| "errText (StatusError _ _ m) = m"
| "errText (PathError _ m) = m"
| "errText (ServiceError m) = m"
| "errText (JoinError a b) = errText a @ [lf] @ errText b"

text \<open>\<^verbatim>\<open>errors.As\<close> for an API status: the first one in the tree, left to right.\<close>

fun asStatus :: "gerr \<Rightarrow> (string \<times> int) option" where
  "asStatus (StatusError r c _) = Some (r, c)"
| "asStatus (JoinError a b) = (case asStatus a of Some x \<Rightarrow> Some x | None \<Rightarrow> asStatus b)"
| "asStatus _ = None"

fun os_IsNotExist :: "gerr \<Rightarrow> bool" where
  "os_IsNotExist (PathError ENOENT _) = True"
| "os_IsNotExist _ = False"

fun os_IsExist :: "gerr \<Rightarrow> bool" where
  "os_IsExist (PathError EEXIST _) = True"
| "os_IsExist (PathError ENOTEMPTY _) = True"
| "os_IsExist _ = False"

section \<open>Strings\<close>

fun strings_Contains :: "string \<Rightarrow> string \<Rightarrow> bool" where
  "strings_Contains [] sub = (sub = [])"
| "strings_Contains (c # s) sub = (take (length sub) (c # s) = sub \<or> strings_Contains s sub)"

section \<open>Sorting\<close>

text \<open>
  Go's insertion sort moves each element leftwards while it is less than its left neighbour.
  The sorted prefix is kept reversed, so the neighbour is the head.
\<close>

fun sift :: "('a \<Rightarrow> 'a \<Rightarrow> bool) \<Rightarrow> 'a \<Rightarrow> 'a list \<Rightarrow> 'a list" where
  "sift lt x [] = [x]"
| "sift lt x (y # rs) = (if lt x y then y # sift lt x rs else x # y # rs)"

definition go_sort :: "('a \<Rightarrow> 'a \<Rightarrow> bool) \<Rightarrow> 'a list \<Rightarrow> 'a list" where
  "go_sort lt xs = rev (fold (sift lt) xs [])"

section \<open>Numbers\<close>

fun digitsOf :: "nat \<Rightarrow> string" where
  "digitsOf n = (if n < 10 then [char_of (48 + n)]
     else digitsOf (n div 10) @ [char_of (48 + n mod 10)])"

definition strconv_Itoa :: "int \<Rightarrow> string" where
  "strconv_Itoa i = (if i < 0 then CHR ''-'' # digitsOf (nat (- i)) else digitsOf (nat i))"

definition digitVal :: "char \<Rightarrow> nat option" where
  "digitVal c = (let n = of_char c :: nat in if 48 \<le> n \<and> n \<le> 57 then Some (n - 48) else None)"

fun parseDigits :: "nat \<Rightarrow> string \<Rightarrow> nat option" where
  "parseDigits acc [] = Some acc"
| "parseDigits acc (c # s) =
     (case digitVal c of None \<Rightarrow> None | Some d \<Rightarrow> parseDigits (acc * 10 + d) s)"

text \<open>
  \<^verbatim>\<open>strconv.Atoi\<close>: an optional sign, at least one digit, only digits, and the value
  within a 64-bit \<^verbatim>\<open>int\<close>; every other input is an error (\<^const>\<open>None\<close>).
\<close>

definition strconv_Atoi :: "string \<Rightarrow> int option" where
  "strconv_Atoi s =
     (let neg = (s \<noteq> [] \<and> hd s = CHR ''-'');
          signed = (s \<noteq> [] \<and> (hd s = CHR ''-'' \<or> hd s = CHR ''+''));
          body = (if signed then tl s else s)
      in if body = [] then None
         else case parseDigits 0 body of
             None \<Rightarrow> None
           | Some n \<Rightarrow>
               (let v = (if neg then - int n else int n)
                in if - (2 ^ 63) \<le> v \<and> v < 2 ^ 63 then Some v else None))"

section \<open>Line scanning\<close>

definition maxScanTokenSize :: nat where
  "maxScanTokenSize = 64 * 1024"

definition dropCR :: "string \<Rightarrow> string" where
  "dropCR s = (if s \<noteq> [] \<and> last s = cr then butlast s else s)"

text \<open>
  The tokens \<^verbatim>\<open>Scan\<close> delivers from a file's content. A line that does not fit the
  scanner's buffer ends the scan, as does the end of the data; a last line without a
  newline is delivered.
\<close>

function scanLines :: "string \<Rightarrow> string list" where
  "scanLines s =
     (if s = [] then []
      else let line = takeWhile (\<lambda>c. c \<noteq> lf) s; rest = dropWhile (\<lambda>c. c \<noteq> lf) s
           in if maxScanTokenSize \<le> length line then []
              else dropCR line # scanLines (tl rest))"
  by pat_completeness auto
termination
proof (relation "measure length", simp)
  fix s line rest
  assume "s \<noteq> []" and r: "rest = dropWhile (\<lambda>c. c \<noteq> lf) (s :: string)"
  have "length rest \<le> length s"
    unfolding r by (rule length_dropWhile_le)
  with \<open>s \<noteq> []\<close> show "(tl rest, s) \<in> measure length"
    by (cases rest) auto
qed

declare scanLines.simps [simp del]

section \<open>Base64\<close>

definition b64alphabet :: string where
  "b64alphabet = ''ABCDEFGHIJKLMNOPQRSTUVWXYZabcdefghijklmnopqrstuvwxyz0123456789+/''"

definition b64char :: "nat \<Rightarrow> char" where
  "b64char n = b64alphabet ! (n mod 64)"

fun base64_EncodeToString :: "string \<Rightarrow> string" where
  "base64_EncodeToString (a # b # c # rest) =
     (let v = of_char a * 65536 + of_char b * 256 + of_char c :: nat
      in [b64char (v div 262144), b64char (v div 4096), b64char (v div 64), b64char v]
         @ base64_EncodeToString rest)"
| "base64_EncodeToString [a, b] =
     (let v = of_char a * 65536 + of_char b * 256 :: nat
      in [b64char (v div 262144), b64char (v div 4096), b64char (v div 64), CHR ''='' ])"
| "base64_EncodeToString [a] =
     (let v = of_char a * 65536 :: nat
      in [b64char (v div 262144), b64char (v div 4096), CHR ''='', CHR ''='' ])"
| "base64_EncodeToString [] = []"

text \<open>A reference decoder, used only to state that the encoding loses nothing.\<close>

fun b64index :: "char \<Rightarrow> string \<Rightarrow> nat" where
  "b64index c [] = 0"
| "b64index c (x # xs) = (if x = c then 0 else Suc (b64index c xs))"

definition b64val :: "char \<Rightarrow> nat" where
  "b64val c = b64index c b64alphabet"

fun base64_decode :: "string \<Rightarrow> string" where
  "base64_decode (p # q # r # s # rest) =
     (let v = b64val p * 262144 + b64val q * 4096
              + (if r = CHR ''='' then 0 else b64val r * 64)
              + (if s = CHR ''='' then 0 else b64val s)
      in (if r = CHR ''='' then [char_of (v div 65536)]
          else if s = CHR ''='' then [char_of (v div 65536), char_of (v div 256)]
          else [char_of (v div 65536), char_of (v div 256), char_of v])
         @ base64_decode rest)"
| "base64_decode _ = []"

section \<open>Facts: strings and sorting\<close>

lemma take_eq_prefix: "take (length sub) s = sub \<longleftrightarrow> prefix sub s"
  by (metis append_eq_conv_conj append_take_drop_id prefix_def)

lemma strings_Contains_iff: "strings_Contains s sub \<longleftrightarrow> sublist sub s"
  by (induction s) (auto simp: sublist_Cons_right take_eq_prefix simp del: take_Suc_Cons)

lemma mset_sift [simp]: "mset (sift lt x rs) = add_mset x (mset rs)"
  by (induction rs) (auto simp: add_mset_commute)

lemma mset_fold_sift [simp]: "mset (fold (sift lt) xs rs) = mset xs + mset rs"
  by (induction xs arbitrary: rs) auto

lemma mset_go_sort [simp]: "mset (go_sort lt xs) = mset xs"
  by (simp add: go_sort_def)

lemma set_go_sort [simp]: "set (go_sort lt xs) = set xs"
  by (metis mset_go_sort set_mset_mset)

lemma length_go_sort [simp]: "length (go_sort lt xs) = length xs"
  by (metis mset_go_sort size_mset)

lemma go_sort_Nil [simp]: "go_sort lt [] = []"
  by (simp add: go_sort_def)

lemma go_sort_Nil_iff [simp]: "go_sort lt xs = [] \<longleftrightarrow> xs = []"
  by (metis set_empty set_go_sort)

lemma set_sift [simp]: "set (sift lt x rs) = insert x (set rs)"
  by (metis mset_sift set_mset_add_mset_insert set_mset_mset)

lemma sorted_sift:
  fixes key :: "'a \<Rightarrow> 'k :: linorder"
  shows "sorted (map key (rev rs)) \<Longrightarrow> sorted (map key (rev (sift (\<lambda>a b. key a < key b) x rs)))"
  by (induction rs) (auto simp: sorted_append not_less intro: order.trans)

lemma filter_sift:
  fixes key :: "'a \<Rightarrow> 'k :: linorder"
  shows "sorted (map key (rev rs)) \<Longrightarrow>
    filter (\<lambda>z. k = key z) (sift (\<lambda>a b. key a < key b) x rs) =
    (if k = key x then x # filter (\<lambda>z. k = key z) rs else filter (\<lambda>z. k = key z) rs)"
  by (induction rs) (auto simp: sorted_append)

lemma fold_sift_sorted_stable:
  fixes key :: "'a \<Rightarrow> 'k :: linorder"
  shows "sorted (map key (rev rs)) \<Longrightarrow>
    sorted (map key (rev (fold (sift (\<lambda>a b. key a < key b)) xs rs))) \<and>
    filter (\<lambda>z. k = key z) (rev (fold (sift (\<lambda>a b. key a < key b)) xs rs)) =
      filter (\<lambda>z. k = key z) (rev rs) @ filter (\<lambda>z. k = key z) xs"
proof (induction xs arbitrary: rs)
  case (Cons x xs)
  have "filter (\<lambda>z. k = key z) (rev (sift (\<lambda>a b. key a < key b) x rs)) =
      filter (\<lambda>z. k = key z) (rev rs) @ filter (\<lambda>z. k = key z) [x]"
    using filter_sift [OF Cons.prems] by (simp flip: rev_filter)
  then show ?case using Cons.IH [OF sorted_sift [OF Cons.prems, of x]] by simp
qed simp

lemma go_sort_eq_sort_key:
  fixes key :: "'a \<Rightarrow> 'k :: linorder"
  shows "go_sort (\<lambda>a b. key a < key b) xs = sort_key key xs"
  by (rule properties_for_sort_key [symmetric])
    (simp_all add: go_sort_def fold_sift_sorted_stable [where rs = "[]", simplified])

section \<open>Facts: numbers and lines\<close>

declare digitsOf.simps [simp del]

lemma digitsOf_snoc: "n \<ge> 10 \<Longrightarrow> digitsOf n = digitsOf (n div 10) @ [char_of (48 + n mod 10)]"
  by (subst digitsOf.simps) simp

lemma digitVal_char_of: "d < 10 \<Longrightarrow> digitVal (char_of (48 + d)) = Some d"
  by (simp add: digitVal_def Let_def)

lemma parseDigits_append:
  "parseDigits acc (s @ t) = (case parseDigits acc s of None \<Rightarrow> None | Some a \<Rightarrow> parseDigits a t)"
  by (induction s arbitrary: acc) (auto split: option.splits)

lemma parseDigits_digitsOf: "parseDigits 0 (digitsOf n) = Some n"
proof (induction n rule: less_induct)
  case (less n)
  show ?case
  proof (cases "n < 10")
    case True
    then show ?thesis by (subst digitsOf.simps) (simp add: digitVal_char_of)
  next
    case False
    then have "parseDigits 0 (digitsOf (n div 10)) = Some (n div 10)" by (simp add: less.IH)
    then show ?thesis using False
      by (simp add: digitsOf_snoc parseDigits_append digitVal_char_of)
  qed
qed

lemma hd_digitsOf: "digitsOf n \<noteq> [] \<and> hd (digitsOf n) \<noteq> CHR ''-'' \<and> hd (digitsOf n) \<noteq> CHR ''+''"
proof -
  have "digitsOf n \<noteq> []" by (subst digitsOf.simps) simp
  then obtain c s where cs: "digitsOf n = c # s" by (cases "digitsOf n") auto
  then have "digitVal c \<noteq> None"
    using parseDigits_digitsOf [of n] by (auto split: option.splits)
  then show ?thesis using cs by (auto simp: digitVal_def Let_def)
qed

lemma strconv_Atoi_Itoa: "- (2 ^ 63) \<le> i \<Longrightarrow> i < 2 ^ 63 \<Longrightarrow> strconv_Atoi (strconv_Itoa i) = Some i"
  using hd_digitsOf [of "nat i"] hd_digitsOf [of "nat (- i)"]
  by (auto simp: strconv_Atoi_def strconv_Itoa_def parseDigits_digitsOf)

lemma scanLines_Nil [simp]: "scanLines [] = []"
  by (simp add: scanLines.simps)

lemma scanLines_line:
  assumes "lf \<notin> set l" and "length l < maxScanTokenSize"
  shows "scanLines (l @ lf # rest) = dropCR l # scanLines rest"
proof -
  have l: "\<And>x. x \<in> set l \<Longrightarrow> x \<noteq> lf" using assms(1) by auto
  show ?thesis using assms(2) l
    by (simp add: scanLines.simps [of "l @ lf # rest"] takeWhile_append dropWhile_append Let_def)
qed

lemma scanLines_last:
  assumes "lf \<notin> set l" and "length l < maxScanTokenSize" and "l \<noteq> []"
  shows "scanLines l = [dropCR l]"
proof -
  have "takeWhile (\<lambda>c. c \<noteq> lf) l = l" and "dropWhile (\<lambda>c. c \<noteq> lf) l = []"
    using assms(1) by (auto simp: takeWhile_eq_all_conv dropWhile_eq_Nil_conv)
  then show ?thesis using assms(2,3) by (simp only: scanLines.simps [of l] Let_def) simp
qed

lemma scanLines_unlines:
  "(\<And>l. l \<in> set ls \<Longrightarrow> lf \<notin> set l \<and> length l < maxScanTokenSize) \<Longrightarrow>
   scanLines (concat (map (\<lambda>l. l @ [lf]) ls)) = map dropCR ls"
  by (induction ls) (simp_all add: scanLines_line)

section \<open>Facts: base64 loses nothing\<close>

lemma b64alphabet_facts: "length b64alphabet = 64" "distinct b64alphabet" "CHR ''='' \<notin> set b64alphabet"
  by (simp_all add: b64alphabet_def)

lemma b64index_nth: "distinct xs \<Longrightarrow> n < length xs \<Longrightarrow> b64index (xs ! n) xs = n"
proof (induction xs arbitrary: n)
  case (Cons x xs)
  then show ?case by (cases n) (auto simp: in_set_conv_nth)
qed simp

lemma b64val_b64char [simp]: "b64val (b64char n) = n mod 64"
  by (simp add: b64val_def b64char_def b64index_nth b64alphabet_facts)

lemma b64char_not_pad [simp]: "b64char n \<noteq> CHR ''=''"
proof -
  have "b64char n \<in> set b64alphabet"
    unfolding b64char_def by (rule nth_mem) (simp add: b64alphabet_facts)
  then show ?thesis using b64alphabet_facts(3) by metis
qed

lemma byte_less [simp]: "(of_char c :: nat) < 256"
  by (metis of_char_mod_256 mod_less_divisor zero_less_numeral)

lemma sextets_24:
  assumes "(v :: nat) < 16777216"
  shows "v div 262144 mod 64 * 262144 + v div 4096 mod 64 * 4096 + v div 64 mod 64 * 64 + v mod 64 = v"
proof -
  have "v mod 4096 = 64 * (v div 64 mod 64) + v mod 64"
    using mod_mult2_eq [of v 64 64] by simp
  moreover have "v mod 262144 = 4096 * (v div 4096 mod 64) + v mod 4096"
    using mod_mult2_eq [of v 4096 64] by simp
  moreover have "v mod 16777216 = 262144 * (v div 262144 mod 64) + v mod 262144"
    using mod_mult2_eq [of v 262144 64] by simp
  ultimately show ?thesis using assms by simp
qed

lemma sextets_18: "(v :: nat) < 16777216 \<Longrightarrow> v mod 64 = 0 \<Longrightarrow>
  v div 262144 mod 64 * 262144 + v div 4096 mod 64 * 4096 + v div 64 mod 64 * 64 = v"
  using sextets_24 [of v] by linarith

lemma sextets_12: "(v :: nat) < 16777216 \<Longrightarrow> v mod 4096 = 0 \<Longrightarrow>
  v div 262144 mod 64 * 262144 + v div 4096 mod 64 * 4096 = v"
  using sextets_24 [of v] mod_mult2_eq [of v 64 64] by simp

lemma base64_decode_quad:
  "v < 16777216 \<Longrightarrow> base64_decode ([b64char (v div 262144), b64char (v div 4096), b64char (v div 64), b64char v] @ rest)
     = [char_of (v div 65536), char_of (v div 256), char_of v] @ base64_decode rest"
  "v < 16777216 \<Longrightarrow> v mod 64 = 0 \<Longrightarrow>
     base64_decode [b64char (v div 262144), b64char (v div 4096), b64char (v div 64), CHR ''='']
     = [char_of (v div 65536), char_of (v div 256)]"
  "v < 16777216 \<Longrightarrow> v mod 4096 = 0 \<Longrightarrow>
     base64_decode [b64char (v div 262144), b64char (v div 4096), CHR ''='', CHR ''='']
     = [char_of (v div 65536)]"
  using sextets_24 [of v] sextets_18 [of v] sextets_12 [of v] by (simp_all add: Let_def)

lemma char_of_bytes:
  fixes a b c :: char
  defines "v \<equiv> of_char a * 65536 + of_char b * 256 + of_char c :: nat"
  shows "char_of v = c" and "char_of (v div 256) = b" and "char_of (v div 65536) = a"
    and "v < 16777216"
proof -
  define w :: nat where "w = of_char a * 256 + of_char b"
  have "v = w * 256 + of_char c" by (simp add: v_def w_def)
  then have w: "v div 256 = w" and "v mod 256 = of_char c" by simp_all
  then show "char_of v = c" by (metis char_of_mod_256 char_of_char)
  have "v div 256 mod 256 = of_char b" by (simp add: w w_def)
  then show "char_of (v div 256) = b" by (metis char_of_mod_256 char_of_char)
  have "v div 65536 = v div 256 div 256" by (simp add: div_mult2_eq [symmetric])
  then have "v div 65536 = of_char a" by (simp add: w w_def)
  then show "char_of (v div 65536) = a" by simp
  show "v < 16777216"
    using byte_less [of a] byte_less [of b] byte_less [of c] unfolding v_def by linarith
qed

lemma base64_decode_encode: "base64_decode (base64_EncodeToString s) = s"
proof (induction s rule: base64_EncodeToString.induct)
  case (1 a b c rest)
  note q = base64_decode_quad(1) [OF char_of_bytes(4) [of a b c], of "base64_EncodeToString rest"]
  show ?case
    by (simp only: base64_EncodeToString.simps Let_def q char_of_bytes "1") simp
next
  case (2 a b)
  have z: "(of_char a * 65536 + of_char b * 256 :: nat) mod 64 = 0"
    by (simp add: mod_eq_0_iff_dvd)
  have "(of_char a * 65536 + of_char b * 256 :: nat) < 16777216"
    using char_of_bytes(4) [of a b "CHR 0x00"] by simp
  note q = base64_decode_quad(2) [OF this z]
  show ?case
    using char_of_bytes(2,3) [of a b "CHR 0x00"]
    by (simp only: base64_EncodeToString.simps Let_def q) simp
next
  case (3 a)
  have z: "(of_char a * 65536 :: nat) mod 4096 = 0" by (simp add: mod_eq_0_iff_dvd)
  have "(of_char a * 65536 :: nat) < 16777216"
    using char_of_bytes(4) [of a "CHR 0x00" "CHR 0x00"] by simp
  note q = base64_decode_quad(3) [OF this z]
  show ?case
    using char_of_bytes(3) [of a "CHR 0x00" "CHR 0x00"]
    by (simp only: base64_EncodeToString.simps Let_def q) simp
qed simp

lemma base64_EncodeToString_Nil_iff [simp]: "base64_EncodeToString s = [] \<longleftrightarrow> s = []"
  by (cases s rule: base64_EncodeToString.cases) (simp_all add: Let_def)

text \<open>A number printed on a line of its own is read back by the scanner and \<^const>\<open>strconv_Atoi\<close>.\<close>

lemma digitsOf_chars: "c \<in> set (digitsOf n) \<Longrightarrow> digitVal c \<noteq> None"
proof (induction n rule: less_induct)
  case (less n)
  show ?case
  proof (cases "n < 10")
    case True
    then have "c = char_of (48 + n)" using less.prems by (subst (asm) digitsOf.simps) simp
    then show ?thesis using True digitVal_char_of [of n] by simp
  next
    case False
    then consider "c \<in> set (digitsOf (n div 10))" | "c = char_of (48 + n mod 10)"
      using less.prems by (subst (asm) digitsOf_snoc) auto
    then show ?thesis using False less.IH [of "n div 10"] digitVal_char_of [of "n mod 10"] by cases auto
  qed
qed

lemma length_digitsOf: "n < 10 ^ Suc k \<Longrightarrow> length (digitsOf n) \<le> Suc k"
proof (induction k arbitrary: n)
  case 0
  then show ?case by (subst digitsOf.simps) simp
next
  case (Suc k)
  show ?case
  proof (cases "n < 10")
    case True
    then show ?thesis by (subst digitsOf.simps) simp
  next
    case False
    have "n div 10 < 10 ^ Suc k" using Suc.prems by (simp add: div_less_iff_less_mult mult.commute)
    then show ?thesis using Suc.IH [of "n div 10"] False by (simp add: digitsOf_snoc)
  qed
qed

lemma Itoa_chars: "c \<in> set (strconv_Itoa i) \<Longrightarrow> c = CHR ''-'' \<or> digitVal c \<noteq> None"
  using digitsOf_chars by (auto simp: strconv_Itoa_def split: if_splits)

lemma Itoa_no_breaks: "lf \<notin> set (strconv_Itoa i)" "cr \<notin> set (strconv_Itoa i)"
  using Itoa_chars [of lf i] Itoa_chars [of cr i] by (auto simp: digitVal_def Let_def)

lemma length_Itoa:
  assumes "- (2 ^ 63) \<le> i" and "i < 2 ^ 63"
  shows "length (strconv_Itoa i) < maxScanTokenSize"
proof -
  have "nat \<bar>i\<bar> < 10 ^ Suc 19" using assms by simp
  then have "length (digitsOf (nat \<bar>i\<bar>)) \<le> 20" using length_digitsOf [of "nat \<bar>i\<bar>" 19] by simp
  then show ?thesis by (auto simp: strconv_Itoa_def maxScanTokenSize_def)
qed

lemma scanLines_Itoa:
  assumes "- (2 ^ 63) \<le> i" and "i < 2 ^ 63"
  shows "scanLines (strconv_Itoa i @ [lf]) = [strconv_Itoa i]"
proof -
  have "dropCR (strconv_Itoa i) = strconv_Itoa i"
    using Itoa_no_breaks(2) [of i] unfolding dropCR_def by (metis last_in_set)
  then show ?thesis
    using scanLines_line [OF Itoa_no_breaks(1) length_Itoa [OF assms], of "[]"] by simp
qed

end
