(* ===== verification/Conditions.thy ===== *)
theory Conditions
  imports Go_Lib
begin

text \<open>
  The condition library the operator keeps a machine's status with
  (\<^verbatim>\<open>kmodules.xyz/client-go/conditions\<close>, vendored): conditions, their setter, the
  queries, and the merge of all conditions of an object into its \<^verbatim>\<open>Ready\<close>
  summary. The clock is an argument: \<^verbatim>\<open>time.Now()\<close> truncated to seconds. A time is
  a number of seconds, 0 being Go's zero time.
\<close>

section \<open>Data\<close>

type_synonym gotime = int
type_synonym condition_type = string

definition ReadyCondition :: condition_type where "ReadyCondition = ''Ready''"
definition ConditionTrue :: string where "ConditionTrue = ''True''"
definition ConditionFalse :: string where "ConditionFalse = ''False''"
definition ConditionUnknown :: string where "ConditionUnknown = ''Unknown''"
definition ConditionSeverityError :: string where "ConditionSeverityError = ''Error''"
definition ConditionSeverityWarning :: string where "ConditionSeverityWarning = ''Warning''"
definition ConditionSeverityInfo :: string where "ConditionSeverityInfo = ''Info''"
definition ConditionSeverityNone :: string where "ConditionSeverityNone = ''''"

record condition =
  cType :: condition_type
  cStatus :: string
  cObservedGeneration :: int
  cSeverity :: string
  cLastTransitionTime :: gotime
  cReason :: string
  cMessage :: string

text \<open>What the library reads of the object that carries the conditions.\<close>

record getter =
  gName :: string
  gKind :: string
  gGeneration :: int
  gConditions :: "condition list"

section \<open>Queries\<close>

definition cond_Get :: "condition list \<Rightarrow> condition_type \<Rightarrow> condition option" where
  "cond_Get cs t = find (\<lambda>c. cType c = t) cs"

fun IsConditionTrue :: "condition list \<Rightarrow> string \<Rightarrow> bool" where
  "IsConditionTrue [] t = False"
| "IsConditionTrue (c # cs) t =
     (if cType c = t \<and> cStatus c = ConditionTrue then True else IsConditionTrue cs t)"

definition hasSameState :: "condition \<Rightarrow> condition \<Rightarrow> bool" where
  "hasSameState i j \<longleftrightarrow>
     cType i = cType j \<and> cStatus i = cStatus j \<and> cReason i = cReason j \<and>
     cSeverity i = cSeverity j \<and> cMessage i = cMessage j"

definition lexicographicLess :: "condition \<Rightarrow> condition \<Rightarrow> bool" where
  "lexicographicLess i j \<longleftrightarrow>
     (cType i = ReadyCondition \<or> cType i < cType j) \<and> cType j \<noteq> ReadyCondition"

section \<open>Setting conditions\<close>

definition TrueCondition :: "condition_type \<Rightarrow> condition" where
  "TrueCondition t = \<lparr>cType = t, cStatus = ConditionTrue, cObservedGeneration = 0,
     cSeverity = '''', cLastTransitionTime = 0, cReason = '''', cMessage = ''''\<rparr>"

definition FalseCondition :: "condition_type \<Rightarrow> string \<Rightarrow> string \<Rightarrow> string \<Rightarrow> condition" where
  "FalseCondition t reason severity message =
     \<lparr>cType = t, cStatus = ConditionFalse, cObservedGeneration = 0,
      cSeverity = severity, cLastTransitionTime = 0, cReason = reason, cMessage = message\<rparr>"

definition UnknownCondition :: "condition_type \<Rightarrow> string \<Rightarrow> string \<Rightarrow> condition" where
  "UnknownCondition t reason message =
     \<lparr>cType = t, cStatus = ConditionUnknown, cObservedGeneration = 0,
      cSeverity = '''', cLastTransitionTime = 0, cReason = reason, cMessage = message\<rparr>"

text \<open>The loop of \<^verbatim>\<open>Set\<close> over the existing conditions: \<^const>\<open>None\<close> when the type is not there.\<close>

fun setExisting :: "gotime \<Rightarrow> condition \<Rightarrow> condition list \<Rightarrow> condition list option" where
  "setExisting now c [] = None"
| "setExisting now c (e # es) =
     (if cType e = cType c
      then Some (if \<not> hasSameState e c then c\<lparr>cLastTransitionTime := now\<rparr> # es else e # es)
      else map_option (Cons e) (setExisting now c es))"

definition cond_Set :: "gotime \<Rightarrow> getter \<Rightarrow> condition option \<Rightarrow> condition list" where
  "cond_Set now obj condition =
     (case condition of
        None \<Rightarrow> gConditions obj
      | Some c0 \<Rightarrow>
          (let c = c0\<lparr>cObservedGeneration := gGeneration obj\<rparr>;
               conditions =
                 (case setExisting now c (gConditions obj) of
                    Some cs \<Rightarrow> cs
                  | None \<Rightarrow> gConditions obj @
                      [if cLastTransitionTime c = 0 then c\<lparr>cLastTransitionTime := now\<rparr> else c])
           in go_sort lexicographicLess conditions))"

section \<open>Merging conditions\<close>

record mergeOptions =
  conditionTypes :: "condition_type list option"
  addSourceRef :: bool
  addStepCounter :: bool
  addStepCounterIfOnlyConditionTypes :: "condition_type list option"
  stepCounter :: int

type_synonym mergeOption = "mergeOptions \<Rightarrow> mergeOptions"

text \<open>A variadic argument list is a nil slice when it is empty.\<close>

definition variadic :: "'a list \<Rightarrow> 'a list option" where
  "variadic xs = (if xs = [] then None else Some xs)"

definition WithConditions :: "condition_type list \<Rightarrow> mergeOption" where
  "WithConditions t = (\<lambda>c. c\<lparr>conditionTypes := variadic t\<rparr>)"

definition WithStepCounter :: mergeOption where
  "WithStepCounter = (\<lambda>c. c\<lparr>addStepCounter := True\<rparr>)"

definition WithStepCounterIf :: "bool \<Rightarrow> mergeOption" where
  "WithStepCounterIf v = (\<lambda>c. c\<lparr>addStepCounter := v\<rparr>)"

definition WithStepCounterIfOnly :: "condition_type list \<Rightarrow> mergeOption" where
  "WithStepCounterIfOnly t = (\<lambda>c. c\<lparr>addStepCounterIfOnlyConditionTypes := variadic t\<rparr>)"

definition AddSourceRef :: mergeOption where
  "AddSourceRef = (\<lambda>c. c\<lparr>addSourceRef := True\<rparr>)"

record localizedCondition =
  lcCondition :: condition
  lcGetter :: getter

record conditionGroup =
  grpStatus :: string
  grpSeverity :: string
  grpConditions :: "localizedCondition list"

definition mergePriority :: "conditionGroup \<Rightarrow> int" where
  "mergePriority g =
     (if grpStatus g = ConditionFalse \<and> grpSeverity g = ConditionSeverityError then 0
      else if grpStatus g = ConditionFalse \<and> grpSeverity g = ConditionSeverityWarning then 1
      else if grpStatus g = ConditionFalse \<and> grpSeverity g = ConditionSeverityInfo then 2
      else if grpStatus g = ConditionTrue then 3
      else if grpStatus g = ConditionUnknown then 4
      else 99)"

fun addToGroups :: "localizedCondition \<Rightarrow> conditionGroup list \<Rightarrow> conditionGroup list" where
  "addToGroups c [] =
     [\<lparr>grpStatus = cStatus (lcCondition c), grpSeverity = cSeverity (lcCondition c),
       grpConditions = [c]\<rparr>]"
| "addToGroups c (g # gs) =
     (if grpStatus g = cStatus (lcCondition c) \<and> grpSeverity g = cSeverity (lcCondition c)
      then g\<lparr>grpConditions := grpConditions g @ [c]\<rparr> # gs
      else g # addToGroups c gs)"

definition topGroupLess :: "localizedCondition \<Rightarrow> localizedCondition \<Rightarrow> bool" where
  "topGroupLess a b \<longleftrightarrow>
     (if cType (lcCondition a) \<noteq> cType (lcCondition b)
      then lexicographicLess (lcCondition a) (lcCondition b)
      else gName (lcGetter a) < gName (lcGetter b))"

definition getConditionGroups :: "localizedCondition list \<Rightarrow> conditionGroup list" where
  "getConditionGroups conditions =
     (case go_sort (\<lambda>a b. mergePriority a < mergePriority b) (fold addToGroups conditions []) of
        [] \<Rightarrow> []
      | topg # rest \<Rightarrow> topg\<lparr>grpConditions := go_sort topGroupLess (grpConditions topg)\<rparr> # rest)"

definition TopGroup :: "conditionGroup list \<Rightarrow> conditionGroup option" where
  "TopGroup g = (case g of [] \<Rightarrow> None | topg # _ \<Rightarrow> Some topg)"

definition getByStatusAndSeverity ::
  "conditionGroup list \<Rightarrow> string \<Rightarrow> string \<Rightarrow> conditionGroup option" where
  "getByStatusAndSeverity g status severity =
     find (\<lambda>grp. grpStatus grp = status \<and> grpSeverity grp = severity) g"

definition TrueGroup :: "conditionGroup list \<Rightarrow> conditionGroup option" where
  "TrueGroup g = getByStatusAndSeverity g ConditionTrue ConditionSeverityNone"

text \<open>The nested loops over the priority list and the group, the outer one over the priorities.\<close>

fun firstByPriority ::
  "condition_type list \<Rightarrow> localizedCondition list \<Rightarrow> localizedCondition option" where
  "firstByPriority [] cs = None"
| "firstByPriority (p # ps) cs =
     (case find (\<lambda>c. cType (lcCondition c) = p) cs of
        Some c \<Rightarrow> Some c
      | None \<Rightarrow> firstByPriority ps cs)"

definition getFirstCondition ::
  "conditionGroup list \<Rightarrow> condition_type list option \<Rightarrow> localizedCondition option" where
  "getFirstCondition g priority =
     (case TopGroup g of
        None \<Rightarrow> None
      | Some topGroup \<Rightarrow>
          (case grpConditions topGroup of
             [] \<Rightarrow> None
           | [c] \<Rightarrow> Some c
           | c # cs \<Rightarrow>
               (case firstByPriority (case priority of None \<Rightarrow> [] | Some p \<Rightarrow> p) (c # cs) of
                  Some d \<Rightarrow> Some d
                | None \<Rightarrow> Some c)))"

definition localizeReason :: "string \<Rightarrow> getter \<Rightarrow> string" where
  "localizeReason reason from =
     (if strings_Contains reason ''@'' then reason
      else reason @ '' @ '' @ gKind from @ ''/'' @ gName from)"

definition getFirstReason ::
  "conditionGroup list \<Rightarrow> condition_type list option \<Rightarrow> bool \<Rightarrow> string" where
  "getFirstReason g order addSrc =
     (case getFirstCondition g order of
        Some c \<Rightarrow> (if addSrc then localizeReason (cReason (lcCondition c)) (lcGetter c)
                   else cReason (lcCondition c))
      | None \<Rightarrow> [])"

definition getReason :: "conditionGroup list \<Rightarrow> mergeOptions \<Rightarrow> string" where
  "getReason groups options = getFirstReason groups (conditionTypes options) (addSourceRef options)"

definition getStepCounterMessage :: "conditionGroup list \<Rightarrow> int \<Rightarrow> string" where
  "getStepCounterMessage groups to =
     (let ct = (case TrueGroup groups of None \<Rightarrow> 0 | Some g \<Rightarrow> int (length (grpConditions g)))
      in strconv_Itoa ct @ '' of '' @ strconv_Itoa to @ '' completed'')"

definition getFirstMessage :: "conditionGroup list \<Rightarrow> condition_type list option \<Rightarrow> string" where
  "getFirstMessage groups order =
     (case getFirstCondition groups order of
        Some c \<Rightarrow> cMessage (lcCondition c)
      | None \<Rightarrow> [])"

definition getMessage :: "conditionGroup list \<Rightarrow> mergeOptions \<Rightarrow> string" where
  "getMessage groups options =
     (if addStepCounter options then getStepCounterMessage groups (stepCounter options)
      else getFirstMessage groups (conditionTypes options))"

definition cond_merge ::
  "localizedCondition list \<Rightarrow> condition_type \<Rightarrow> mergeOptions \<Rightarrow> condition option" where
  "cond_merge conditions targetCondition options =
     (let g = getConditionGroups conditions
      in case TopGroup g of
           None \<Rightarrow> None
         | Some topg \<Rightarrow>
             if grpStatus topg = ConditionTrue then Some (TrueCondition targetCondition)
             else let targetReason = getReason g options; targetMessage = getMessage g options
               in if grpStatus topg = ConditionFalse
                  then Some (FalseCondition targetCondition targetReason (grpSeverity topg) targetMessage)
                  else Some (UnknownCondition targetCondition targetReason targetMessage))"

definition inScope :: "condition_type list option \<Rightarrow> condition \<Rightarrow> bool" where
  "inScope types c \<longleftrightarrow>
     cType c \<noteq> ReadyCondition \<and> (case types of None \<Rightarrow> True | Some ts \<Rightarrow> cType c \<in> set ts)"

definition cond_summary :: "getter \<Rightarrow> mergeOption list \<Rightarrow> condition option" where
  "cond_summary from options =
     (let opt0 = fold (\<lambda>opt acc. opt acc) options
            \<lparr>conditionTypes = None, addSourceRef = False, addStepCounter = False,
             addStepCounterIfOnlyConditionTypes = None, stepCounter = 0\<rparr>;
          conditionsInScope =
            map (\<lambda>c. \<lparr>lcCondition = c, lcGetter = from\<rparr>)
              (filter (inScope (conditionTypes opt0)) (gConditions from));
          opt1 =
            (case addStepCounterIfOnlyConditionTypes opt0 of
               None \<Rightarrow> opt0
             | Some ts \<Rightarrow>
                 if \<exists>c \<in> set conditionsInScope. cType (lcCondition c) \<notin> set ts
                 then opt0\<lparr>addStepCounter := False\<rparr> else opt0);
          opt2 =
            (if addStepCounter opt1
             then opt1\<lparr>stepCounter :=
               (case addStepCounterIfOnlyConditionTypes opt1 of
                  Some ts \<Rightarrow> int (length ts)
                | None \<Rightarrow> (case conditionTypes opt1 of
                    Some ts \<Rightarrow> int (length ts)
                  | None \<Rightarrow> int (length conditionsInScope)))\<rparr>
             else opt1)
      in cond_merge conditionsInScope ReadyCondition opt2)"

definition cond_SetSummary :: "gotime \<Rightarrow> getter \<Rightarrow> mergeOption list \<Rightarrow> condition list" where
  "cond_SetSummary now obj options = cond_Set now obj (cond_summary obj options)"

section \<open>Specification vocabulary\<close>

definition cond_key :: "condition \<Rightarrow> bool \<times> string" where
  "cond_key c = (cType c \<noteq> ReadyCondition, cType c)"

definition wf_conditions :: "condition list \<Rightarrow> bool" where
  "wf_conditions cs \<longleftrightarrow> distinct (map cType cs) \<and> sorted (map cond_key cs)"

text \<open>What a condition becomes when it is set.\<close>

definition stored :: "gotime \<Rightarrow> getter \<Rightarrow> condition \<Rightarrow> condition" where
  "stored now obj c =
     (case cond_Get (gConditions obj) (cType c) of
        Some e \<Rightarrow> if hasSameState e c then e
          else c\<lparr>cObservedGeneration := gGeneration obj, cLastTransitionTime := now\<rparr>
      | None \<Rightarrow> c\<lparr>cObservedGeneration := gGeneration obj,
          cLastTransitionTime := (if cLastTransitionTime c = 0 then now else cLastTransitionTime c)\<rparr>)"

definition put_condition :: "gotime \<Rightarrow> condition \<Rightarrow> getter \<Rightarrow> getter" where
  "put_condition now c g = g\<lparr>gConditions := cond_Set now g (Some c)\<rparr>"

definition lc_key :: "localizedCondition \<Rightarrow> string \<times> string" where
  "lc_key c = (cStatus (lcCondition c), cSeverity (lcCondition c))"

definition grp_key :: "conditionGroup \<Rightarrow> string \<times> string" where
  "grp_key g = (grpStatus g, grpSeverity g)"

definition groups_of :: "localizedCondition list \<Rightarrow> conditionGroup list \<Rightarrow> bool" where
  "groups_of cs gs \<longleftrightarrow>
     grp_key ` set gs = lc_key ` set cs \<and> distinct (map grp_key gs) \<and>
     (\<forall>g \<in> set gs. grpConditions g = filter (\<lambda>c. lc_key c = grp_key g) cs)"

text \<open>
  The conditions the operator writes are True without a severity or False with severity
  Error. For those the summary is described without groups and sorting: nothing when no
  condition is in scope, True when all in scope are True, and otherwise the False condition
  whose type comes first in the given order.
\<close>

definition operator_condition :: "condition \<Rightarrow> bool" where
  "operator_condition c \<longleftrightarrow>
     (cStatus c = ConditionTrue \<and> cSeverity c = ConditionSeverityNone) \<or>
     (cStatus c = ConditionFalse \<and> cSeverity c = ConditionSeverityError)"

definition first_false :: "condition_type list \<Rightarrow> condition list \<Rightarrow> condition option" where
  "first_false order cs =
     (case find (\<lambda>t. \<exists>c \<in> set cs. cType c = t \<and> cStatus c = ConditionFalse) order of
        None \<Rightarrow> None | Some t \<Rightarrow> cond_Get cs t)"

definition ready_spec :: "condition_type list \<Rightarrow> condition list \<Rightarrow> condition option" where
  "ready_spec order cs =
     (if \<forall>c \<in> set cs. cType c \<notin> set order then None
      else case first_false order cs of
          None \<Rightarrow> Some (TrueCondition ReadyCondition)
        | Some c \<Rightarrow> Some (FalseCondition ReadyCondition (cReason c) ConditionSeverityError (cMessage c)))"

definition localize :: "getter \<Rightarrow> condition_type list \<Rightarrow> localizedCondition list" where
  "localize g order = map (\<lambda>c. \<lparr>lcCondition = c, lcGetter = g\<rparr>)
     (filter (inScope (Some order)) (gConditions g))"

definition order_options :: "condition_type list \<Rightarrow> mergeOptions" where
  "order_options order = \<lparr>conditionTypes = Some order, addSourceRef = False, addStepCounter = False,
     addStepCounterIfOnlyConditionTypes = None, stepCounter = 0\<rparr>"

section \<open>Facts: the setter and the queries\<close>

lemmas cond_consts = ReadyCondition_def ConditionTrue_def ConditionFalse_def ConditionUnknown_def
  ConditionSeverityError_def ConditionSeverityWarning_def ConditionSeverityInfo_def
  ConditionSeverityNone_def

lemma lexicographicLess_key: "lexicographicLess = (\<lambda>i j. cond_key i < cond_key j)"
  by (auto simp: lexicographicLess_def cond_key_def less_prod_def' fun_eq_iff)

lemma setExisting_types: "setExisting now c cs = Some ds \<Longrightarrow> map cType ds = map cType cs"
  by (induction cs arbitrary: ds) (auto simp: hasSameState_def split: if_splits)

lemma setExisting_None_iff: "setExisting now c cs = None \<longleftrightarrow> cType c \<notin> cType ` set cs"
  by (induction cs) auto

lemma find_type_Some_iff:
  "distinct (map cType cs) \<Longrightarrow> find (\<lambda>c. cType c = t) cs = Some c \<longleftrightarrow> c \<in> set cs \<and> cType c = t"
proof (induction cs)
  case (Cons d ds)
  then show ?case by (auto simp: image_iff)
qed simp

lemma cond_Get_Some_iff:
  "distinct (map cType cs) \<Longrightarrow> cond_Get cs t = Some c \<longleftrightarrow> c \<in> set cs \<and> cType c = t"
  by (simp add: cond_Get_def find_type_Some_iff)

lemma cond_Get_None_iff: "cond_Get cs t = None \<longleftrightarrow> t \<notin> cType ` set cs"
  by (auto simp: cond_Get_def find_None_iff)

lemma cond_Get_mset:
  assumes "distinct (map cType cs)" and "mset cs = mset ds"
  shows "cond_Get cs t = cond_Get ds t"
proof -
  have "distinct (map cType ds)" and "set cs = set ds"
    using assms by (metis mset_map mset_eq_imp_distinct_iff, metis set_mset_mset)
  then have "cond_Get cs t = Some c \<longleftrightarrow> cond_Get ds t = Some c" for c
    by (simp add: assms(1) cond_Get_Some_iff)
  then show ?thesis by (metis not_None_eq)
qed

lemma cond_Get_go_sort: "distinct (map cType cs) \<Longrightarrow> cond_Get (go_sort lt cs) t = cond_Get cs t"
  by (rule cond_Get_mset [symmetric]) simp_all

lemma cond_Get_setExisting:
  "setExisting now c cs = Some ds \<Longrightarrow> cond_Get ds t =
     (if t = cType c then map_option (\<lambda>e. if hasSameState e c then e else c\<lparr>cLastTransitionTime := now\<rparr>)
        (cond_Get cs t)
      else cond_Get cs t)"
  by (induction cs arbitrary: ds)
    (auto simp: cond_Get_def hasSameState_def split: if_splits)

lemma stored_hasSameState: "hasSameState (stored now obj c) c"
  by (auto simp: stored_def hasSameState_def split: option.splits)

lemma wf_go_sort:
  assumes "distinct (map cType cs)"
  shows "wf_conditions (go_sort lexicographicLess cs)"
proof -
  have "mset (map cType (go_sort lexicographicLess cs)) = mset (map cType cs)"
    by (simp only: mset_map mset_go_sort)
  then have "distinct (map cType (go_sort lexicographicLess cs))"
    using assms by (metis mset_eq_imp_distinct_iff)
  then show ?thesis
    by (simp add: wf_conditions_def lexicographicLess_key go_sort_eq_sort_key)
qed

lemma cond_Set_wf:
  assumes "wf_conditions (gConditions obj)"
  shows "wf_conditions (cond_Set now obj c)"
proof (cases c)
  case None
  then show ?thesis using assms by (simp add: cond_Set_def)
next
  case (Some c0)
  let ?c = "c0\<lparr>cObservedGeneration := gGeneration obj\<rparr>"
  have d: "distinct (map cType (gConditions obj))" using assms by (simp add: wf_conditions_def)
  show ?thesis
  proof (cases "setExisting now ?c (gConditions obj)")
    case None
    then have "cType c0 \<notin> cType ` set (gConditions obj)" by (simp add: setExisting_None_iff)
    with d None Some show ?thesis by (auto simp: cond_Set_def Let_def intro!: wf_go_sort)
  next
    case (Some ds)
    with d \<open>c = Some c0\<close> show ?thesis
      by (auto simp: cond_Set_def Let_def setExisting_types intro!: wf_go_sort)
  qed
qed

lemma cond_Get_Set:
  assumes "wf_conditions (gConditions obj)"
  shows "cond_Get (cond_Set now obj (Some c)) t =
    (if t = cType c then Some (stored now obj c) else cond_Get (gConditions obj) t)"
proof -
  let ?c = "c\<lparr>cObservedGeneration := gGeneration obj\<rparr>" and ?cs = "gConditions obj"
  have d: "distinct (map cType ?cs)" using assms by (simp add: wf_conditions_def)
  show ?thesis
  proof (cases "setExisting now ?c ?cs")
    case None
    define new where "new = (if cLastTransitionTime ?c = 0 then ?c\<lparr>cLastTransitionTime := now\<rparr> else ?c)"
    from None have n: "cType c \<notin> cType ` set ?cs" by (simp add: setExisting_None_iff)
    have "cType new = cType c" by (simp add: new_def)
    with n have "distinct (map cType (?cs @ [new]))" using d by auto
    then have "cond_Get (cond_Set now obj (Some c)) t = cond_Get (?cs @ [new]) t"
      using None by (simp only: cond_Set_def Let_def option.case new_def cond_Get_go_sort)
    also have "\<dots> = (case cond_Get ?cs t of None \<Rightarrow> if cType new = t then Some new else None | d \<Rightarrow> d)"
      by (auto simp: cond_Get_def find_append_case split: option.splits)
    finally show ?thesis
      using n \<open>cType new = cType c\<close> cond_Get_None_iff [of ?cs "cType c"]
      by (auto simp: stored_def new_def split: option.splits)
  next
    case (Some ds)
    then have "distinct (map cType ds)" using d by (simp add: setExisting_types)
    then have "cond_Get (cond_Set now obj (Some c)) t = cond_Get ds t"
      using Some by (simp add: cond_Set_def Let_def cond_Get_go_sort)
    moreover have "cType c \<in> cType ` set ?cs"
      using setExisting_None_iff [of now ?c ?cs] Some by simp
    then obtain e where "cond_Get ?cs (cType c) = Some e"
      using cond_Get_None_iff [of ?cs "cType c"] by auto
    ultimately show ?thesis
      using cond_Get_setExisting [OF Some, of t] by (auto simp: stored_def hasSameState_def)
  qed
qed

lemma IsConditionTrue_iff: "IsConditionTrue cs t \<longleftrightarrow> (\<exists>c \<in> set cs. cType c = t \<and> cStatus c = ConditionTrue)"
  by (induction cs) auto

lemma IsConditionTrue_Get:
  "wf_conditions cs \<Longrightarrow>
   IsConditionTrue cs t \<longleftrightarrow> (\<exists>c. cond_Get cs t = Some c \<and> cStatus c = ConditionTrue)"
  by (auto simp: IsConditionTrue_iff wf_conditions_def cond_Get_Some_iff)


section \<open>The condition store as an interface\<close>

locale condition_store =
  fixes inv :: "'s \<Rightarrow> bool"
    and get :: "'s \<Rightarrow> condition_type \<Rightarrow> condition option"
    and put :: "gotime \<Rightarrow> condition \<Rightarrow> 's \<Rightarrow> 's"
  assumes inv_put: "inv s \<Longrightarrow> inv (put now c s)"
    and get_put_same: "inv s \<Longrightarrow> \<exists>d. get (put now c s) (cType c) = Some d \<and> hasSameState d c"
    and get_put_other: "inv s \<Longrightarrow> t \<noteq> cType c \<Longrightarrow> get (put now c s) t = get s t"
begin

lemma inv_puts: "inv s \<Longrightarrow> inv (fold (\<lambda>(now, c). put now c) ncs s)"
  by (induction ncs arbitrary: s) (auto intro: inv_put)

lemma get_puts_other:
  "inv s \<Longrightarrow> t \<notin> (cType \<circ> snd) ` set ncs \<Longrightarrow> get (fold (\<lambda>(now, c). put now c) ncs s) t = get s t"
  by (induction ncs arbitrary: s) (auto simp: get_put_other inv_put)

lemma get_puts_last:
  assumes "inv s" and "cType c \<notin> (cType \<circ> snd) ` set after"
  shows "\<exists>d. get (fold (\<lambda>(now, c). put now c) (before @ (now, c) # after) s) (cType c) = Some d
    \<and> hasSameState d c"
proof -
  let ?s = "fold (\<lambda>(now, c). put now c) before s"
  have "inv ?s" using assms(1) by (rule inv_puts)
  then show ?thesis
    using get_put_same [of ?s now c] get_puts_other [OF inv_put assms(2), of ?s now c] by auto
qed

end

interpretation cstore: condition_store
  "\<lambda>g. wf_conditions (gConditions g)" "\<lambda>g. cond_Get (gConditions g)" put_condition
  by unfold_locales
    (auto simp: put_condition_def cond_Set_wf cond_Get_Set stored_hasSameState)

section \<open>Grouping\<close>

lemma grp_key_update [simp]: "grp_key (g\<lparr>grpConditions := cs\<rparr>) = grp_key g"
  by (simp add: grp_key_def)

lemma grp_key_new [simp]: "grp_key \<lparr>grpStatus = cStatus (lcCondition c),
    grpSeverity = cSeverity (lcCondition c), grpConditions = cs\<rparr> = lc_key c"
  by (simp add: grp_key_def lc_key_def)

lemma group_match_iff: "grpStatus g = cStatus (lcCondition c) \<and> grpSeverity g = cSeverity (lcCondition c)
    \<longleftrightarrow> grp_key g = lc_key c"
  by (simp add: grp_key_def lc_key_def)

lemma mergePriority_key: "grp_key g = grp_key h \<Longrightarrow> mergePriority g = mergePriority h"
  unfolding grp_key_def mergePriority_def by (elim Pair_inject) (simp only:)

lemma addToGroups_new:
  "lc_key c \<notin> grp_key ` set gs \<Longrightarrow> addToGroups c gs =
     gs @ [\<lparr>grpStatus = cStatus (lcCondition c), grpSeverity = cSeverity (lcCondition c), grpConditions = [c]\<rparr>]"
  by (induction gs) (auto simp: group_match_iff)

lemma addToGroups_old:
  "distinct (map grp_key gs) \<Longrightarrow> lc_key c \<in> grp_key ` set gs \<Longrightarrow> addToGroups c gs =
     map (\<lambda>g. if grp_key g = lc_key c then g\<lparr>grpConditions := grpConditions g @ [c]\<rparr> else g) gs"
proof (induction gs)
  case (Cons g gs)
  show ?case
  proof (cases "grp_key g = lc_key c")
    case True
    then have "\<forall>h \<in> set gs. grp_key h \<noteq> lc_key c" using Cons.prems by (auto simp: image_iff)
    then have "map (\<lambda>g. if grp_key g = lc_key c then g\<lparr>grpConditions := grpConditions g @ [c]\<rparr> else g) gs = gs"
      by (intro map_idI) auto
    with True show ?thesis by (simp add: group_match_iff)
  next
    case False
    with Cons show ?thesis by (auto simp: group_match_iff)
  qed
qed simp

lemma groups_of_add:
  assumes "groups_of cs gs"
  shows "groups_of (cs @ [c]) (addToGroups c gs)"
proof (cases "lc_key c \<in> grp_key ` set gs")
  case True
  define upd where "upd g = (if grp_key g = lc_key c then g\<lparr>grpConditions := grpConditions g @ [c]\<rparr> else g)"
    for g
  have m: "addToGroups c gs = map upd gs"
    using assms True by (simp add: groups_of_def upd_def addToGroups_old cong: map_cong)
  have k: "grp_key \<circ> upd = grp_key" by (auto simp: upd_def)
  have "lc_key c \<in> lc_key ` set cs" using assms True by (simp add: groups_of_def)
  then have "grp_key ` set (map upd gs) = lc_key ` set (cs @ [c])"
    using assms by (simp add: groups_of_def image_comp k insert_absorb)
  moreover have "distinct (map grp_key (map upd gs))"
    using assms by (simp add: groups_of_def k)
  moreover have "\<forall>g \<in> set (map upd gs). grpConditions g = filter (\<lambda>d. lc_key d = grp_key g) (cs @ [c])"
    using assms by (auto simp: groups_of_def upd_def)
  ultimately show ?thesis unfolding m groups_of_def by blast
next
  case False
  then have "filter (\<lambda>d. lc_key d = lc_key c) cs = []"
    using assms by (auto simp: groups_of_def filter_empty_conv) (metis imageI)
  then show ?thesis
    using assms False by (auto simp: groups_of_def addToGroups_new image_iff)
qed

lemma groups_of_fold: "groups_of cs gs \<Longrightarrow> groups_of (cs @ ds) (fold addToGroups ds gs)"
proof (induction ds arbitrary: cs gs)
  case (Cons d ds)
  then show ?case using Cons.IH [OF groups_of_add [OF Cons.prems, of d]] by simp
qed simp

lemma groups_of_grouped: "groups_of cs (fold addToGroups cs [])"
  using groups_of_fold [of "[]" "[]" cs] by (simp add: groups_of_def)

text \<open>The top group: the conditions of the best status and severity present, in the source's order.\<close>

lemma TopGroup_cases:
  assumes "TopGroup (getConditionGroups cs) = Some tg"
  shows "grp_key tg \<in> lc_key ` set cs"
    and "\<And>c g. c \<in> set cs \<Longrightarrow> grp_key g = lc_key c \<Longrightarrow> mergePriority tg \<le> mergePriority g"
    and "set (grpConditions tg) = {c \<in> set cs. lc_key c = grp_key tg}"
proof -
  let ?gs = "fold addToGroups cs []"
  obtain h rest where s: "sort_key mergePriority ?gs = h # rest"
    and t: "tg = h\<lparr>grpConditions := go_sort topGroupLess (grpConditions h)\<rparr>"
    using assms by (auto simp: getConditionGroups_def TopGroup_def go_sort_eq_sort_key split: list.splits)
  have set_eq: "set ?gs = set (h # rest)" using s by (metis set_sort)
  then have h: "h \<in> set ?gs" by simp
  note g = groups_of_grouped [of cs, unfolded groups_of_def]
  have k: "grp_key tg = grp_key h" "set (grpConditions tg) = set (grpConditions h)"
    by (simp_all add: t)
  have "grp_key h \<in> grp_key ` set ?gs" using h by (rule imageI)
  then show "grp_key tg \<in> lc_key ` set cs" using k(1) g by simp
  have "set (grpConditions h) = {c \<in> set cs. lc_key c = grp_key h}" using g h by simp
  then show "set (grpConditions tg) = {c \<in> set cs. lc_key c = grp_key tg}" using k by simp
  fix c g' assume "c \<in> set cs" and g': "grp_key g' = lc_key c"
  then have "lc_key c \<in> grp_key ` set ?gs" using g by simp
  then obtain k' where k': "k' \<in> set ?gs" "grp_key k' = lc_key c" by force
  have "sorted (map mergePriority (h # rest))" using s by (metis sorted_sort_key)
  then have "mergePriority h \<le> mergePriority k'" using k'(1) set_eq by auto
  then show "mergePriority tg \<le> mergePriority g'"
    using k(1) k'(2) g' mergePriority_key by metis
qed

lemma TopGroup_None_iff: "TopGroup (getConditionGroups cs) = None \<longleftrightarrow> cs = []"
proof -
  have "getConditionGroups cs = [] \<longleftrightarrow> fold addToGroups cs [] = []"
    using go_sort_Nil_iff [of "\<lambda>a b. mergePriority a < mergePriority b" "fold addToGroups cs []"]
    by (cases "go_sort (\<lambda>a b. mergePriority a < mergePriority b) (fold addToGroups cs [])")
      (simp_all add: getConditionGroups_def)
  also have "\<dots> \<longleftrightarrow> cs = []"
    using groups_of_grouped [of cs] by (auto simp: groups_of_def)
  finally show ?thesis by (cases "getConditionGroups cs") (simp_all add: TopGroup_def)
qed

section \<open>The summary, specified\<close>

lemma operator_False: "operator_condition c \<Longrightarrow> cStatus c = ConditionFalse \<Longrightarrow> cSeverity c = ConditionSeverityError"
  by (auto simp: operator_condition_def cond_consts)

lemma operator_not_False: "operator_condition c \<Longrightarrow> cStatus c \<noteq> ConditionFalse \<Longrightarrow>
   cStatus c = ConditionTrue \<and> cSeverity c = ConditionSeverityNone"
  by (auto simp: operator_condition_def)

lemma TopGroup_operator:
  assumes "\<forall>c \<in> set cs. operator_condition (lcCondition c)"
    and "TopGroup (getConditionGroups cs) = Some tg"
  shows "grp_key tg = (if \<exists>c \<in> set cs. cStatus (lcCondition c) = ConditionFalse
           then (ConditionFalse, ConditionSeverityError) else (ConditionTrue, ConditionSeverityNone))"
proof -
  obtain d where d: "d \<in> set cs" "grp_key tg = lc_key d"
    using TopGroup_cases(1) [OF assms(2)] by auto
  have "cStatus (lcCondition d) = ConditionFalse"
    if c: "c \<in> set cs" "cStatus (lcCondition c) = ConditionFalse" for c
  proof -
    let ?g = "\<lparr>grpStatus = cStatus (lcCondition c), grpSeverity = cSeverity (lcCondition c),
      grpConditions = [] :: localizedCondition list\<rparr>"
    have "mergePriority ?g = 0"
      using assms(1) c by (auto simp: operator_condition_def mergePriority_def cond_consts)
    then have "mergePriority tg \<le> 0"
      using TopGroup_cases(2) [OF assms(2) c(1), of ?g] by simp
    then show ?thesis
      using assms(1) d by (auto simp: grp_key_def lc_key_def mergePriority_def split: if_splits)
  qed
  moreover have "operator_condition (lcCondition d)" using assms(1) d(1) by simp
  ultimately show ?thesis
    using d operator_False operator_not_False by (auto simp: lc_key_def)
qed

lemma firstByPriority_eq:
  "firstByPriority ps cs = (case find (\<lambda>p. \<exists>c \<in> set cs. cType (lcCondition c) = p) ps of
     None \<Rightarrow> None | Some p \<Rightarrow> find (\<lambda>c. cType (lcCondition c) = p) cs)"
proof (induction ps)
  case (Cons p ps)
  show ?case
  proof (cases "find (\<lambda>c. cType (lcCondition c) = p) cs")
    case None
    then have "\<not> (\<exists>c \<in> set cs. cType (lcCondition c) = p)" by (auto simp: find_None_iff)
    then show ?thesis using None Cons.IH by simp
  next
    case (Some c)
    then have "\<exists>c \<in> set cs. cType (lcCondition c) = p" using find_Some_mem [OF Some] by auto
    then show ?thesis using Some by simp
  qed
qed simp

lemma getFirstCondition_eq:
  assumes tg: "TopGroup g = Some tg" and c: "c \<in> set (grpConditions tg)"
    and uniq: "\<And>d. d \<in> set (grpConditions tg) \<Longrightarrow> cType (lcCondition d) = cType (lcCondition c) \<Longrightarrow> d = c"
    and first: "find (\<lambda>p. \<exists>d \<in> set (grpConditions tg). cType (lcCondition d) = p) order
      = Some (cType (lcCondition c))"
    and all: "\<And>d. d \<in> set (grpConditions tg) \<Longrightarrow> cType (lcCondition d) \<in> set order"
  shows "getFirstCondition g (Some order) = Some c"
proof -
  have f: "find (\<lambda>d. cType (lcCondition d) = cType (lcCondition c)) (grpConditions tg) = Some c"
    using c uniq by (intro find_unique) simp_all
  then have "firstByPriority order (grpConditions tg) = Some c"
    by (simp add: firstByPriority_eq first)
  then show ?thesis
    using tg c by (auto simp: getFirstCondition_def split: list.splits)
qed

lemma cond_summary_order:
  "order \<noteq> [] \<Longrightarrow> cond_summary g [WithConditions order] =
     cond_merge (localize g order) ReadyCondition (order_options order)"
  by (simp add: cond_summary_def WithConditions_def variadic_def Let_def localize_def order_options_def)

lemma set_localize:
  "ReadyCondition \<notin> set order \<Longrightarrow> set (localize g order) =
     (\<lambda>c. \<lparr>lcCondition = c, lcGetter = g\<rparr>) ` {c \<in> set (gConditions g). cType c \<in> set order}"
  by (auto simp: localize_def inScope_def)

lemma first_false_Some:
  assumes "distinct (map cType cs)" and "first_false order cs = Some c"
  shows "c \<in> set cs" "cStatus c = ConditionFalse" "cType c \<in> set order"
    and "find (\<lambda>t. \<exists>c \<in> set cs. cType c = t \<and> cStatus c = ConditionFalse) order = Some (cType c)"
proof -
  obtain t where t: "find (\<lambda>t. \<exists>c \<in> set cs. cType c = t \<and> cStatus c = ConditionFalse) order = Some t"
    and "cond_Get cs t = Some c"
    using assms(2) by (auto simp: first_false_def split: option.splits)
  then have c: "c \<in> set cs" "cType c = t" using assms(1) by (simp_all add: cond_Get_Some_iff)
  obtain d where "d \<in> set cs" "cType d = t" "cStatus d = ConditionFalse" "t \<in> set order"
    using find_Some_mem [OF t] by auto
  moreover from this c have "d = c"
    using assms(1) by (metis cond_Get_Some_iff option.inject)
  ultimately show "c \<in> set cs" "cStatus c = ConditionFalse" "cType c \<in> set order"
    and "find (\<lambda>t. \<exists>c \<in> set cs. cType c = t \<and> cStatus c = ConditionFalse) order = Some (cType c)"
    using c t by simp_all
qed

lemma first_false_None_iff:
  "distinct (map cType cs) \<Longrightarrow> first_false order cs = None \<longleftrightarrow>
     (\<forall>c \<in> set cs. cType c \<in> set order \<longrightarrow> cStatus c \<noteq> ConditionFalse)"
  by (auto simp: first_false_def find_None_iff cond_Get_None_iff split: option.splits dest!: find_Some_mem)

text \<open>The group that decides a summary with a False condition, and the condition it shows.\<close>

lemma getFirstCondition_localize:
  assumes wf: "distinct (map cType (gConditions g))"
    and op: "\<forall>c \<in> set (gConditions g). cType c \<in> set order \<longrightarrow> operator_condition c"
    and order: "ReadyCondition \<notin> set order"
    and ff: "first_false order (gConditions g) = Some c"
    and tg: "TopGroup (getConditionGroups (localize g order)) = Some tg"
  shows "grp_key tg = (ConditionFalse, ConditionSeverityError)"
    and "getFirstCondition (getConditionGroups (localize g order)) (Some order)
      = Some \<lparr>lcCondition = c, lcGetter = g\<rparr>"
proof -
  note c = first_false_Some [OF wf ff]
  have "\<forall>d \<in> set (localize g order). operator_condition (lcCondition d)"
    using op by (auto simp: set_localize order)
  note TopGroup_operator [OF this tg]
  moreover have "\<exists>d \<in> set (localize g order). cStatus (lcCondition d) = ConditionFalse"
    using c(1-3) by (force simp: set_localize order)
  ultimately show key: "grp_key tg = (ConditionFalse, ConditionSeverityError)" by simp
  have grp: "set (grpConditions tg) = (\<lambda>c. \<lparr>lcCondition = c, lcGetter = g\<rparr>) `
      {c \<in> set (gConditions g). cType c \<in> set order \<and> cStatus c = ConditionFalse}"
    using TopGroup_cases(3) [OF tg] op operator_False
    by (auto simp: key lc_key_def set_localize [OF order])
  have "find (\<lambda>p. \<exists>d \<in> set (grpConditions tg). cType (lcCondition d) = p) order = Some (cType c)"
    unfolding c(4) [symmetric] by (rule find_cong) (auto simp: grp)
  moreover have "d = c" if "d \<in> set (gConditions g)" "cType d = cType c" for d
    using wf that c(1) by (metis cond_Get_Some_iff option.inject)
  ultimately show "getFirstCondition (getConditionGroups (localize g order)) (Some order)
      = Some \<lparr>lcCondition = c, lcGetter = g\<rparr>"
    by (intro getFirstCondition_eq [OF tg]) (use c(1-3) in \<open>auto simp: grp\<close>)
qed

lemma cond_summary_eq_ready_spec:
  assumes wf: "wf_conditions (gConditions g)"
    and op: "\<forall>c \<in> set (gConditions g). cType c \<in> set order \<longrightarrow> operator_condition c"
    and order: "order \<noteq> []" "ReadyCondition \<notin> set order"
  shows "cond_summary g [WithConditions order] = ready_spec order (gConditions g)"
proof (cases "TopGroup (getConditionGroups (localize g order))")
  case None
  then have "localize g order = []" by (simp add: TopGroup_None_iff)
  then have "\<forall>c \<in> set (gConditions g). cType c \<notin> set order"
    using set_localize [OF order(2), of g] by auto
  then show ?thesis
    using None by (simp add: cond_summary_order order cond_merge_def ready_spec_def)
next
  case (Some tg)
  have d: "distinct (map cType (gConditions g))" using wf by (simp add: wf_conditions_def)
  have "set (localize g order) \<noteq> {}" using Some TopGroup_None_iff [of "localize g order"] by auto
  then have ne: "\<not> (\<forall>c \<in> set (gConditions g). cType c \<notin> set order)"
    by (auto simp: set_localize order)
  show ?thesis
  proof (cases "first_false order (gConditions g)")
    case None
    have "\<forall>c \<in> set (localize g order). operator_condition (lcCondition c)"
      using op by (auto simp: set_localize order)
    note TopGroup_operator [OF this Some]
    moreover have "\<not> (\<exists>c \<in> set (localize g order). cStatus (lcCondition c) = ConditionFalse)"
      using None by (auto simp: first_false_None_iff d set_localize order)
    ultimately show ?thesis using Some None ne
      by (simp add: cond_summary_order order cond_merge_def ready_spec_def grp_key_def)
  next
    case ff: (Some c)
    note first = getFirstCondition_localize [OF d op order(2) ff Some]
    show ?thesis using Some ff ne first
      by (simp add: cond_summary_order order cond_merge_def ready_spec_def getReason_def getFirstReason_def
          getMessage_def getFirstMessage_def order_options_def grp_key_def cond_consts)
  qed
qed

end
