(* ===== verification/Api.thy ===== *)
theory Api
  imports Conditions
begin

text \<open>
  The API types of the operator (\<^verbatim>\<open>api/v1alpha1\<close>): the \<^verbatim>\<open>Machine\<close> and
  \<^verbatim>\<open>Driver\<close> resources, the names of conditions, reasons and phases, the phase of a
  machine (\<^verbatim>\<open>GetPhase\<close>), the finalizer's name, and the finalizer list operations of
  the vendored libraries. Pointers are options; maps are association lists.
\<close>

section \<open>Resources\<close>

record ObjectReference =
  refNamespace :: string
  refName :: string

record NamespacedName =
  nnNamespace :: string
  nnName :: string

record ObjectMeta =
  Name :: string
  Namespace :: string
  Generation :: int
  ResourceVersion :: string
  DeletionTimestamp :: "gotime option"
  Finalizers :: "string list"
  Annotations :: smap

record MachineSpec =
  Driver :: "string option"
  ScriptRef :: "ObjectReference option"
  AuthSecret :: "ObjectReference option"
  Parameters :: smap

record MachineStatus =
  Conditions :: "condition list"
  Phase :: string

record Machine =
  Kind :: string
  Meta :: ObjectMeta
  Spec :: MachineSpec
  Status :: MachineStatus

record DriverSpec =
  Builtin :: bool
  DownloadURL :: string

text \<open>The status of a driver has no fields yet.\<close>

datatype DriverStatus = DriverStatus

record DriverResource =
  DriverKind :: string
  DriverMeta :: ObjectMeta
  DriverSpecOf :: DriverSpec
  DriverStatusOf :: DriverStatus

record ListMeta =
  ListResourceVersion :: string
  Continue :: string
  RemainingItemCount :: "int option"

record MachineList =
  MachineListKind :: string
  MachineListMeta :: ListMeta
  MachineItems :: "Machine list"

record DriverList =
  DriverListKind :: string
  DriverListMeta :: ListMeta
  DriverItems :: "DriverResource list"

definition ObjectKey :: "ObjectReference \<Rightarrow> NamespacedName" where
  "ObjectKey r = \<lparr>nnNamespace = refNamespace r, nnName = refName r\<rparr>"

section \<open>Names\<close>

definition MachineConditionTypeMachineReady :: condition_type where
  "MachineConditionTypeMachineReady = ''MachineReady''"
definition MachineConditionTypeScriptReady :: condition_type where
  "MachineConditionTypeScriptReady = ''ScriptReady''"
definition MachineConditionTypeAuthDataReady :: condition_type where
  "MachineConditionTypeAuthDataReady = ''AuthDataReady''"
definition MachineConditionTypeClusterOperationComplete :: condition_type where
  "MachineConditionTypeClusterOperationComplete = ''ClusterOperationComplete''"
definition MachineConditionTypeMachineCreating :: condition_type where
  "MachineConditionTypeMachineCreating = ''MachineCreating''"

definition ReasonClusterOperationFailed :: string where
  "ReasonClusterOperationFailed = ''ClusterOperationFailed''"
definition ReasonMachineCreationFailed :: string where
  "ReasonMachineCreationFailed = ''MachineCreationFailed''"
definition ReasonWaitingForScriptCompletion :: string where
  "ReasonWaitingForScriptCompletion = ''WaitingForScriptCompletion''"
definition ReasonWaitingForScriptRun :: string where
  "ReasonWaitingForScriptRun = ''WaitingForScriptRun''"
definition ReasonAuthDataNotFound :: string where
  "ReasonAuthDataNotFound = ''AuthDataNotFound''"
definition ReasonScriptDataNotFound :: string where
  "ReasonScriptDataNotFound = ''ScriptDataNotFound''"
definition ReasonMachineCreating :: string where
  "ReasonMachineCreating = ''MachineCreating''"

definition MachinePhasePending :: string where
  "MachinePhasePending = ''Pending''"
definition MachinePhaseInProgress :: string where
  "MachinePhaseInProgress = ''InProgress''"
definition MachinePhaseWaitingForScriptCompletion :: string where
  "MachinePhaseWaitingForScriptCompletion = ''WaitingForScriptCompletion''"
definition MachinePhaseClusterOperationFailed :: string where
  "MachinePhaseClusterOperationFailed = ''ClusterOperationFailed''"
definition MachinePhaseSuccess :: string where
  "MachinePhaseSuccess = ''Success''"
definition MachinePhaseTerminating :: string where
  "MachinePhaseTerminating = ''Terminating''"
definition MachinePhaseFailed :: string where
  "MachinePhaseFailed = ''Failed''"

definition GroupVersionGroup :: string where
  "GroupVersionGroup = ''docker-machine.klusters.dev''"

definition GetFinalizer :: string where
  "GetFinalizer = GroupVersionGroup"

definition ConditionsOrder :: "condition_type list" where
  "ConditionsOrder =
     [MachineConditionTypeMachineReady, MachineConditionTypeClusterOperationComplete,
      MachineConditionTypeAuthDataReady, MachineConditionTypeScriptReady]"

section \<open>Accessors\<close>

definition GetConditions :: "Machine \<Rightarrow> condition list" where
  "GetConditions m = Conditions (Status m)"

definition SetConditions :: "Machine \<Rightarrow> condition list \<Rightarrow> Machine" where
  "SetConditions m cs = m\<lparr>Status := (Status m)\<lparr>Conditions := cs\<rparr>\<rparr>"

definition SetPhase :: "Machine \<Rightarrow> string \<Rightarrow> Machine" where
  "SetPhase m p = m\<lparr>Status := (Status m)\<lparr>Phase := p\<rparr>\<rparr>"

definition SetMeta :: "Machine \<Rightarrow> ObjectMeta \<Rightarrow> Machine" where
  "SetMeta m om = m\<lparr>Meta := om\<rparr>"

definition getter_of :: "Machine \<Rightarrow> getter" where
  "getter_of m = \<lparr>gName = Name (Meta m), gKind = Kind m, gGeneration = Generation (Meta m),
     gConditions = GetConditions m\<rparr>"

definition key_of :: "Machine \<Rightarrow> NamespacedName" where
  "key_of m = \<lparr>nnNamespace = Namespace (Meta m), nnName = Name (Meta m)\<rparr>"

text \<open>\<^verbatim>\<open>!obj.GetDeletionTimestamp().IsZero()\<close>: a nil pointer and the zero time are zero.\<close>

definition isDeleting :: "Machine \<Rightarrow> bool" where
  "isDeleting m = (case DeletionTimestamp (Meta m) of None \<Rightarrow> False | Some t \<Rightarrow> t \<noteq> 0)"

section \<open>The phase of a machine\<close>

definition GetPhase :: "Machine \<Rightarrow> string" where
  "GetPhase obj =
     (if isDeleting obj then MachinePhaseTerminating
      else if GetConditions obj = [] then MachinePhaseInProgress
      else case find (\<lambda>c. cType c = ReadyCondition) (GetConditions obj) of
          None \<Rightarrow> MachinePhasePending
        | Some cond \<Rightarrow>
            if cStatus cond = ConditionTrue then MachinePhaseSuccess
            else if cReason cond = ReasonWaitingForScriptCompletion
              then MachinePhaseWaitingForScriptCompletion
            else if cReason cond = ReasonClusterOperationFailed
              then MachinePhaseClusterOperationFailed
            else if cReason cond = ReasonMachineCreationFailed then MachinePhaseFailed
            else MachinePhaseInProgress)"

section \<open>Finalizers\<close>

fun ContainsFinalizerList :: "string list \<Rightarrow> string \<Rightarrow> bool" where
  "ContainsFinalizerList [] f = False"
| "ContainsFinalizerList (e # es) f = (if e = f then True else ContainsFinalizerList es f)"

definition ContainsFinalizer :: "Machine \<Rightarrow> string \<Rightarrow> bool" where
  "ContainsFinalizer m f = ContainsFinalizerList (Finalizers (Meta m)) f"

definition AddFinalizer :: "ObjectMeta \<Rightarrow> string \<Rightarrow> ObjectMeta" where
  "AddFinalizer m f =
     (if f \<in> set (Finalizers m) then m else m\<lparr>Finalizers := Finalizers m @ [f]\<rparr>)"

definition RemoveFinalizer :: "ObjectMeta \<Rightarrow> string \<Rightarrow> ObjectMeta" where
  "RemoveFinalizer m f = m\<lparr>Finalizers := filter (\<lambda>n. n \<noteq> f) (Finalizers m)\<rparr>"

section \<open>API errors\<close>

definition knownReasons :: "string list" where
  "knownReasons =
     [''Unauthorized'', ''Forbidden'', ''NotFound'', ''AlreadyExists'', ''Conflict'', ''Gone'',
      ''Invalid'', ''ServerTimeout'', ''StorageReadError'', ''Timeout'', ''TooManyRequests'',
      ''BadRequest'', ''MethodNotAllowed'', ''NotAcceptable'', ''RequestEntityTooLarge'',
      ''UnsupportedMediaType'', ''InternalError'', ''Expired'', ''ServiceUnavailable'']"

definition IsNotFound :: "gerr \<Rightarrow> bool" where
  "IsNotFound err =
     (case asStatus err of
        None \<Rightarrow> False
      | Some (reason, code) \<Rightarrow>
          reason = ''NotFound'' \<or> (reason \<notin> set knownReasons \<and> code = 404))"

definition IgnoreNotFound :: "gerr option \<Rightarrow> gerr option" where
  "IgnoreNotFound err =
     (case err of None \<Rightarrow> None | Some e \<Rightarrow> if IsNotFound e then None else Some e)"

section \<open>Specification vocabulary\<close>

text \<open>The phase a status shows, from what its conditions say (for a machine not being deleted).\<close>

definition phase_spec :: "condition_type list \<Rightarrow> condition list \<Rightarrow> string" where
  "phase_spec order cs =
     (case first_false order cs of
        None \<Rightarrow> MachinePhaseSuccess
      | Some c \<Rightarrow>
          if cReason c = ReasonWaitingForScriptCompletion then MachinePhaseWaitingForScriptCompletion
          else if cReason c = ReasonClusterOperationFailed then MachinePhaseClusterOperationFailed
          else if cReason c = ReasonMachineCreationFailed then MachinePhaseFailed
          else MachinePhaseInProgress)"

text \<open>What one \<^verbatim>\<open>SetSummary\<close> and \<^verbatim>\<open>GetPhase\<close> make of a machine.\<close>

definition summarized :: "gotime \<Rightarrow> Machine \<Rightarrow> Machine" where
  "summarized now m =
     (let m' = SetConditions m (cond_SetSummary now (getter_of m) [WithConditions ConditionsOrder])
      in SetPhase m' (GetPhase m'))"

definition wf_machine :: "Machine \<Rightarrow> bool" where
  "wf_machine m \<longleftrightarrow> wf_conditions (GetConditions m) \<and>
     (\<forall>c \<in> set (GetConditions m). cType c \<in> set ConditionsOrder \<longrightarrow> operator_condition c)"

section \<open>Facts\<close>

lemmas type_consts =
  MachineConditionTypeMachineReady_def MachineConditionTypeScriptReady_def
  MachineConditionTypeAuthDataReady_def MachineConditionTypeClusterOperationComplete_def
  MachineConditionTypeMachineCreating_def ReadyCondition_def

lemmas reason_consts =
  ReasonClusterOperationFailed_def ReasonMachineCreationFailed_def
  ReasonWaitingForScriptCompletion_def ReasonWaitingForScriptRun_def ReasonAuthDataNotFound_def
  ReasonScriptDataNotFound_def ReasonMachineCreating_def

lemmas phase_consts =
  MachinePhasePending_def MachinePhaseInProgress_def MachinePhaseWaitingForScriptCompletion_def
  MachinePhaseClusterOperationFailed_def MachinePhaseSuccess_def MachinePhaseTerminating_def
  MachinePhaseFailed_def

lemma GetConditions_update [simp]:
  "GetConditions (SetConditions m cs) = cs" "GetConditions (SetPhase m p) = GetConditions m"
  "GetConditions (SetMeta m om) = GetConditions m"
  by (simp_all add: GetConditions_def SetConditions_def SetPhase_def SetMeta_def)

lemma machine_update_simps [simp]:
  "Meta (SetConditions m cs) = Meta m" "Spec (SetConditions m cs) = Spec m"
  "Meta (SetPhase m p) = Meta m" "Spec (SetPhase m p) = Spec m"
  "Phase (Status (SetPhase m p)) = p" "Spec (SetMeta m om) = Spec m"
  "Meta (SetMeta m om) = om" "Status (SetMeta m om) = Status m"
  by (simp_all add: SetConditions_def SetPhase_def SetMeta_def)

lemma getter_of_simps [simp]:
  "gConditions (getter_of m) = GetConditions m" "gName (getter_of m) = Name (Meta m)"
  "gGeneration (getter_of m) = Generation (Meta m)"
  by (simp_all add: getter_of_def)

lemma isDeleting_update [simp]:
  "isDeleting (SetConditions m cs) = isDeleting m" "isDeleting (SetPhase m p) = isDeleting m"
  by (simp_all add: isDeleting_def)

lemma ContainsFinalizerList_iff [simp]: "ContainsFinalizerList fs f \<longleftrightarrow> f \<in> set fs"
  by (induction fs) auto

lemma ConditionsOrder_facts: "ConditionsOrder \<noteq> []" "ReadyCondition \<notin> set ConditionsOrder"
  "distinct ConditionsOrder"
  by (simp_all add: ConditionsOrder_def type_consts)

lemma GetPhase_nonempty: "GetPhase m \<noteq> ''''"
  by (auto simp: GetPhase_def phase_consts split: option.splits)

lemma GetPhase_Terminating_iff: "GetPhase m = MachinePhaseTerminating \<longleftrightarrow> isDeleting m"
  by (auto simp: GetPhase_def phase_consts split: option.splits)

lemma GetPhase_Ready:
  "\<not> isDeleting m \<Longrightarrow> cond_Get (GetConditions m) ReadyCondition = Some c \<Longrightarrow>
   GetPhase m = (if cStatus c = ConditionTrue then MachinePhaseSuccess
     else if cReason c = ReasonWaitingForScriptCompletion then MachinePhaseWaitingForScriptCompletion
     else if cReason c = ReasonClusterOperationFailed then MachinePhaseClusterOperationFailed
     else if cReason c = ReasonMachineCreationFailed then MachinePhaseFailed
     else MachinePhaseInProgress)"
  by (auto simp: GetPhase_def cond_Get_def)

text \<open>The setter keeps a machine's conditions well formed; the summary writes \<^verbatim>\<open>Ready\<close> only.\<close>

lemma wf_machine_Set:
  assumes "wf_machine m" and "cType c \<in> set ConditionsOrder \<longrightarrow> operator_condition c"
  shows "wf_machine (SetConditions m (cond_Set now (getter_of m) (Some c)))"
proof -
  have wf: "wf_conditions (GetConditions m)" using assms(1) by (simp add: wf_machine_def)
  then have wf': "wf_conditions (cond_Set now (getter_of m) (Some c))" by (simp add: cond_Set_wf)
  have "operator_condition d"
    if d: "d \<in> set (cond_Set now (getter_of m) (Some c))" "cType d \<in> set ConditionsOrder" for d
  proof -
    have "cond_Get (cond_Set now (getter_of m) (Some c)) (cType d) = Some d"
      using wf' d(1) by (simp add: wf_conditions_def cond_Get_Some_iff)
    then consider "cType d = cType c" "hasSameState d c"
      | "d \<in> set (GetConditions m)"
      using wf stored_hasSameState [of now "getter_of m" c]
      by (auto simp: cond_Get_Set wf_conditions_def cond_Get_Some_iff split: if_splits)
    then show ?thesis
      using assms d(2) by cases (auto simp: wf_machine_def operator_condition_def hasSameState_def)
  qed
  then show ?thesis using wf' by (simp add: wf_machine_def)
qed

lemma wf_machine_update [simp]:
  "wf_machine (SetPhase m p) = wf_machine m" "wf_machine (SetMeta m om) = wf_machine m"
  by (simp_all add: wf_machine_def)

lemma summary_of_machine:
  assumes "wf_machine m"
  shows "cond_summary (getter_of m) [WithConditions ConditionsOrder] =
    ready_spec ConditionsOrder (GetConditions m)"
  using assms cond_summary_eq_ready_spec [of "getter_of m" ConditionsOrder]
  by (auto simp: wf_machine_def ConditionsOrder_facts)

lemma ready_spec_cType: "ready_spec order cs = Some c \<Longrightarrow> cType c = ReadyCondition"
  by (auto simp: ready_spec_def TrueCondition_def FalseCondition_def split: if_splits option.splits)

lemma wf_machine_summarized: "wf_machine m \<Longrightarrow> wf_machine (summarized now m)"
proof -
  assume wf: "wf_machine m"
  show ?thesis
  proof (cases "ready_spec ConditionsOrder (GetConditions m)")
    case None
    then show ?thesis using wf
      by (simp add: summarized_def Let_def cond_SetSummary_def summary_of_machine cond_Set_def wf_machine_def)
  next
    case (Some c)
    then have "cType c \<notin> set ConditionsOrder"
      using ready_spec_cType [OF Some] ConditionsOrder_facts(2) by simp
    then show ?thesis using wf Some wf_machine_Set [OF wf, of c now]
      by (simp add: summarized_def Let_def cond_SetSummary_def summary_of_machine)
  qed
qed

lemma summarized_phase:
  assumes wf: "wf_machine m" and alive: "\<not> isDeleting m"
    and some: "\<exists>c \<in> set (GetConditions m). cType c \<in> set ConditionsOrder"
  shows "Phase (Status (summarized now m)) = phase_spec ConditionsOrder (GetConditions m)"
proof -
  let ?cs = "GetConditions m"
  have "ready_spec ConditionsOrder ?cs \<noteq> None"
    using some by (auto simp: ready_spec_def split: option.splits if_splits)
  then obtain r where r: "ready_spec ConditionsOrder ?cs = Some r" by blast
  have "cond_Get (cond_Set now (getter_of m) (Some r)) ReadyCondition = Some (stored now (getter_of m) r)"
    using wf ready_spec_cType [OF r] by (simp add: cond_Get_Set wf_machine_def)
  moreover have "hasSameState (stored now (getter_of m) r) r" by (rule stored_hasSameState)
  ultimately show ?thesis
    using alive r some wf
    by (auto simp: summarized_def Let_def cond_SetSummary_def summary_of_machine GetPhase_Ready
        phase_spec_def hasSameState_def ready_spec_def TrueCondition_def FalseCondition_def
        ConditionTrue_def ConditionFalse_def split: option.splits if_splits)
qed

lemma phase_spec_Success_iff:
  "distinct (map cType cs) \<Longrightarrow> phase_spec order cs = MachinePhaseSuccess \<longleftrightarrow>
     (\<forall>c \<in> set cs. cType c \<in> set order \<longrightarrow> cStatus c \<noteq> ConditionFalse)"
  using first_false_None_iff [of cs order]
  by (auto simp: phase_spec_def phase_consts split: option.splits)

section \<open>Finalizer sets as an interface\<close>

locale finalizer_list =
  fixes has :: "'m \<Rightarrow> string \<Rightarrow> bool"
    and add :: "'m \<Rightarrow> string \<Rightarrow> 'm"
    and remove :: "'m \<Rightarrow> string \<Rightarrow> 'm"
  assumes has_add: "has (add m f) g \<longleftrightarrow> g = f \<or> has m g"
    and has_remove: "has (remove m f) g \<longleftrightarrow> g \<noteq> f \<and> has m g"
    and add_present: "has m f \<Longrightarrow> add m f = m"
    and remove_absent: "\<not> has m f \<Longrightarrow> remove m f = m"
begin

lemma add_idem: "add (add m f) f = add m f"
  by (simp add: add_present has_add)

lemma remove_idem: "remove (remove m f) f = remove m f"
  by (simp add: remove_absent has_remove)

lemma has_remove_add: "has (remove (add m f) f) g \<longleftrightarrow> g \<noteq> f \<and> has m g"
  by (auto simp: has_add has_remove)

end

interpretation finalizers: finalizer_list
  "\<lambda>m f. f \<in> set (Finalizers m)" AddFinalizer RemoveFinalizer
  by unfold_locales
    (auto simp: AddFinalizer_def RemoveFinalizer_def filter_id_conv intro!: ObjectMeta.equality)

end
