(* ===== verification/World.thy ===== *)
theory World
  imports Api
begin

text \<open>
  The reconciler and the world around it. The state of a run is the reconciler's
  \<^verbatim>\<open>machineObj\<close> field, the trace of all calls that left the process with their
  replies (newest first), and a counter of clock readings. Everything outside the process
  (the API server, the \<^verbatim>\<open>docker-machine\<close> binary, the file system, the AWS and Azure
  services, the clock) is one argument \<^verbatim>\<open>env\<close> of every definition: functions of the
  whole history and the call, so that no answer is fixed in advance and equal calls may be
  answered differently. A computation returns a value or an error, panics (a nil
  dereference) or does not return. The second half of the theory is the logic the components
  are verified with: which events a computation may emit, how often, which predicates on the
  state it keeps, and Hoare triples.
\<close>

section \<open>Calls and replies\<close>

type_synonym secret = smap

record awsAuthCredential =
  accessKey :: string
  secretKey :: string
  region :: string

record AzureCredential =
  ClientID :: string
  ClientSecret :: string
  TenantID :: string
  SubscriptionID :: string

record RouteTable =
  rtVpcId :: "string option"
  rtRouteTableId :: "string option"

record Vpc =
  VpcId :: "string option"
  VpcState :: "string option"

record SecurityGroup =
  GroupId :: "string option"

datatype ec2call =
    DescribeRouteTables
  | CreateRoute string string "string option"
  | DeleteRoute string "string option"
  | AttachInternetGateway string string
  | DetachInternetGateway string string
  | CreateInternetGateway
  | DeleteInternetGateway string
  | CreateSubnet string string string
  | DeleteSubnet string
  | DescribeVpcs "string option list"
  | CreateVpc string
  | DeleteVpc string
  | DescribeSecurityGroups "(string \<times> string option list) list"
  | DeleteSecurityGroup "string option"

datatype call =
    GetMachine NamespacedName
  | GetSecret NamespacedName
  | CreateMachine Machine
  | PatchMachine Machine Machine
  | PatchStatus Machine Machine
  | RunCmd "int option" "string list"
  | StatFile string
  | WriteFile string string
  | RemoveFile string
  | OpenFile string
  | NewSession awsAuthCredential
  | EC2 awsAuthCredential ec2call
  | NewClientSecretCredential string string string
  | NewResourceGroupsClient string
  | BeginDelete AzureCredential string
  | PollUntilDone AzureCredential string
  | Sleep int

datatype reply =
    RUnit
  | RMachine Machine
  | RSecret secret
  | RText string
  | RId "string option option"
  | RRouteTables "RouteTable list"
  | RVpcs "Vpc list"
  | RVpc "Vpc option"
  | RSecurityGroups "SecurityGroup list"

datatype event = Ev (evCall: call) (evReply: "gerr + reply")

type_synonym history = "event list"

record env =
  env_now :: "nat \<Rightarrow> history \<Rightarrow> gotime"
  env_machine :: "history \<Rightarrow> call \<Rightarrow> gerr + Machine"
  env_secret :: "history \<Rightarrow> call \<Rightarrow> gerr + secret"
  env_unit :: "history \<Rightarrow> call \<Rightarrow> gerr + unit"
  env_text :: "history \<Rightarrow> call \<Rightarrow> gerr + string"
  env_cmd :: "history \<Rightarrow> call \<Rightarrow> gerr option \<times> string"
  env_id :: "history \<Rightarrow> call \<Rightarrow> gerr + string option option"
  env_routeTables :: "history \<Rightarrow> call \<Rightarrow> gerr + RouteTable list"
  env_vpcs :: "history \<Rightarrow> call \<Rightarrow> gerr + Vpc list"
  env_vpc :: "history \<Rightarrow> call \<Rightarrow> gerr + Vpc option"
  env_securityGroups :: "history \<Rightarrow> call \<Rightarrow> gerr + SecurityGroup list"

section \<open>Computations\<close>

record st =
  machineObj :: "Machine option"
  trace :: history
  ticks :: nat

datatype 'a res = Ok 'a | Err gerr | Panic | Hang

type_synonym 'a comp = "st \<Rightarrow> 'a res \<times> st"

definition ret :: "'a \<Rightarrow> 'a comp" where
  "ret a = (\<lambda>s. (Ok a, s))"

definition throw :: "gerr \<Rightarrow> 'a comp" where
  "throw e = (\<lambda>s. (Err e, s))"

definition panic :: "'a comp" where
  "panic = (\<lambda>s. (Panic, s))"

definition hang :: "'a comp" where
  "hang = (\<lambda>s. (Hang, s))"

text \<open>Sequencing; an error leaves the function, as \<^verbatim>\<open>if err != nil { return err }\<close> does.\<close>

definition andThen :: "'a comp \<Rightarrow> ('a \<Rightarrow> 'b comp) \<Rightarrow> 'b comp" where
  "andThen m f = (\<lambda>s. case m s of
      (Ok a, s') \<Rightarrow> f a s'
    | (Err e, s') \<Rightarrow> (Err e, s')
    | (Panic, s') \<Rightarrow> (Panic, s')
    | (Hang, s') \<Rightarrow> (Hang, s'))"

text \<open>A call whose error the caller inspects itself.\<close>

definition attempt :: "'a comp \<Rightarrow> (gerr + 'a) comp" where
  "attempt m = (\<lambda>s. case m s of
      (Ok a, s') \<Rightarrow> (Ok (Inr a), s')
    | (Err e, s') \<Rightarrow> (Ok (Inl e), s')
    | (Panic, s') \<Rightarrow> (Panic, s')
    | (Hang, s') \<Rightarrow> (Hang, s'))"

text \<open>Dereferencing a pointer, and the pointer \<^verbatim>\<open>r.machineObj\<close> in particular.\<close>

definition deref :: "'a option \<Rightarrow> 'a comp" where
  "deref p = (case p of None \<Rightarrow> panic | Some a \<Rightarrow> ret a)"

definition theObj :: "Machine comp" where
  "theObj = (\<lambda>s. case machineObj s of None \<Rightarrow> (Panic, s) | Some m \<Rightarrow> (Ok m, s))"

definition putObj :: "Machine \<Rightarrow> unit comp" where
  "putObj m = (\<lambda>s. (Ok (), s\<lparr>machineObj := Some m\<rparr>))"

definition time_Now :: "env \<Rightarrow> gotime comp" where
  "time_Now env = (\<lambda>s. (Ok (env_now env (ticks s) (trace s)), s\<lparr>ticks := Suc (ticks s)\<rparr>))"

definition perform :: "(history \<Rightarrow> call \<Rightarrow> gerr + 'a) \<Rightarrow> ('a \<Rightarrow> reply) \<Rightarrow> call \<Rightarrow> 'a comp" where
  "perform oracle wrap c = (\<lambda>s.
     case oracle (trace s) c of
       Inl e \<Rightarrow> (Err e, s\<lparr>trace := Ev c (Inl e) # trace s\<rparr>)
     | Inr a \<Rightarrow> (Ok a, s\<lparr>trace := Ev c (Inr (wrap a)) # trace s\<rparr>))"

definition call_unit :: "env \<Rightarrow> call \<Rightarrow> unit comp" where
  "call_unit env = perform (env_unit env) (\<lambda>_. RUnit)"

definition call_machine :: "env \<Rightarrow> call \<Rightarrow> Machine comp" where
  "call_machine env = perform (env_machine env) RMachine"

definition call_secret :: "env \<Rightarrow> call \<Rightarrow> secret comp" where
  "call_secret env = perform (env_secret env) RSecret"

definition call_text :: "env \<Rightarrow> call \<Rightarrow> string comp" where
  "call_text env = perform (env_text env) RText"

definition call_id :: "env \<Rightarrow> call \<Rightarrow> string option option comp" where
  "call_id env = perform (env_id env) RId"

text \<open>
  \<^verbatim>\<open>cmd.Run()\<close> of \<^verbatim>\<open>docker-machine\<close> with an optional timeout (nanoseconds): the error
  and what the command wrote to its standard error.
\<close>

definition runDockerMachine :: "env \<Rightarrow> int option \<Rightarrow> string list \<Rightarrow> (gerr option \<times> string) comp" where
  "runDockerMachine env timeout args = (\<lambda>s.
     let c = RunCmd timeout args; (err, stderr) = env_cmd env (trace s) c
     in (Ok (err, stderr), s\<lparr>trace := Ev c (case err of None \<Rightarrow> Inr (RText stderr) | Some e \<Rightarrow> Inl e) # trace s\<rparr>))"

section \<open>Running computations\<close>

lemma run_basic [run_simps]:
  "ret a s = (Ok a, s)" "throw e s = (Err e, s)" "panic s = (Panic, s)" "hang s = (Hang, s)"
  "deref (Some a) = ret a" "deref None = panic"
  "putObj m s = (Ok (), s\<lparr>machineObj := Some m\<rparr>)"
  "machineObj s = Some m \<Longrightarrow> theObj s = (Ok m, s)"
  by (simp_all add: ret_def throw_def panic_def hang_def deref_def putObj_def theObj_def)

lemma st_update_order [run_simps]:
  "s\<lparr>trace := h, machineObj := mo\<rparr> = s\<lparr>machineObj := mo, trace := h\<rparr>"
  "s\<lparr>ticks := n, machineObj := mo\<rparr> = s\<lparr>machineObj := mo, ticks := n\<rparr>"
  "s\<lparr>ticks := n, trace := h\<rparr> = s\<lparr>trace := h, ticks := n\<rparr>"
  by simp_all

lemma run_andThen [run_simps]:
  "m s = (Ok a, s') \<Longrightarrow> andThen m f s = f a s'"
  "m s = (Err e, s') \<Longrightarrow> andThen m f s = (Err e, s')"
  "m s = (Panic, s') \<Longrightarrow> andThen m f s = (Panic, s')"
  "m s = (Hang, s') \<Longrightarrow> andThen m f s = (Hang, s')"
  by (simp_all add: andThen_def)

lemma run_attempt [run_simps]:
  "m s = (Ok a, s') \<Longrightarrow> attempt m s = (Ok (Inr a), s')"
  "m s = (Err e, s') \<Longrightarrow> attempt m s = (Ok (Inl e), s')"
  "m s = (Panic, s') \<Longrightarrow> attempt m s = (Panic, s')"
  "m s = (Hang, s') \<Longrightarrow> attempt m s = (Hang, s')"
  by (simp_all add: attempt_def)

lemma attempt_state: "snd (attempt m s) = snd (m s)"
  by (simp add: attempt_def split: prod.splits res.splits)

lemma attempt_no_Err [simp]: "attempt m s \<noteq> (Err e, t)"
  by (simp add: attempt_def split: prod.splits res.splits)

lemmas call_defs = call_unit_def call_machine_def call_secret_def call_text_def call_id_def

lemma call_unit_total [simp]: "call_unit env c s \<noteq> (Panic, t)" "call_unit env c s \<noteq> (Hang, t)"
  by (auto simp: call_defs perform_def split: sum.splits)

lemma andThen_cases:
  assumes "andThen m f s = (r, t)"
  obtains (ok) a s' where "m s = (Ok a, s')" "f a s' = (r, t)"
    | (err) e where "m s = (Err e, t)" "r = Err e"
    | (panic) "m s = (Panic, t)" "r = Panic"
    | (hang) "m s = (Hang, t)" "r = Hang"
  using assms by (auto simp: andThen_def split: prod.splits res.splits)

section \<open>Emitted events\<close>

definition emits :: "(event \<Rightarrow> bool) \<Rightarrow> 'a comp \<Rightarrow> bool" where
  "emits \<phi> m \<longleftrightarrow> (\<forall>s. \<exists>new. trace (snd (m s)) = new @ trace s \<and> (\<forall>e \<in> set new. \<phi> e))"

abbreviation extends :: "'a comp \<Rightarrow> bool" where
  "extends m \<equiv> emits (\<lambda>_. True) m"

lemma emitsI:
  "(\<And>s. \<exists>new. trace (snd (m s)) = new @ trace s \<and> (\<forall>e \<in> set new. \<phi> e)) \<Longrightarrow> emits \<phi> m"
  by (simp add: emits_def)

lemma emitsD:
  assumes "emits \<phi> m" and "m s = (r, t)"
  obtains new where "trace t = new @ trace s" "\<And>e. e \<in> set new \<Longrightarrow> \<phi> e"
  using assms unfolding emits_def by (metis snd_conv)

lemma emits_mono: "emits \<psi> m \<Longrightarrow> (\<And>e. \<psi> e \<Longrightarrow> \<phi> e) \<Longrightarrow> emits \<phi> m"
  unfolding emits_def by blast

lemma emits_basic [emits_intros]:
  "emits \<phi> (ret a)" "emits \<phi> (throw e)" "emits \<phi> panic" "emits \<phi> hang" "emits \<phi> (deref p)"
  "emits \<phi> theObj" "emits \<phi> (putObj m)" "emits \<phi> (time_Now env)"
  by (auto simp: emits_def ret_def throw_def panic_def hang_def deref_def theObj_def putObj_def
      time_Now_def split: option.splits)

lemma emits_andThen [emits_intros]:
  assumes m: "emits \<phi> m" and f: "\<And>a. emits \<phi> (f a)"
  shows "emits \<phi> (andThen m f)"
proof (rule emitsI)
  fix s
  obtain r t where mt: "m s = (r, t)" by fastforce
  obtain new where new: "trace t = new @ trace s" "\<And>e. e \<in> set new \<Longrightarrow> \<phi> e"
    using emitsD [OF m mt] by blast
  show "\<exists>new. trace (snd (andThen m f s)) = new @ trace s \<and> (\<forall>e \<in> set new. \<phi> e)"
  proof (cases r)
    case (Ok a)
    obtain more where "trace (snd (f a t)) = more @ trace t" "\<forall>e \<in> set more. \<phi> e"
      using f [of a] unfolding emits_def by blast
    then show ?thesis using new mt Ok by (intro exI [of _ "more @ new"]) (auto simp: run_simps)
  qed (use new mt in \<open>auto simp: andThen_def\<close>)
qed

lemma emits_attempt [emits_intros]: "emits \<phi> m \<Longrightarrow> emits \<phi> (attempt m)"
  by (simp add: emits_def attempt_state)

lemma emits_perform: "(\<And>r. \<phi> (Ev c r)) \<Longrightarrow> emits \<phi> (perform oracle wrap c)"
  by (rule emitsI) (auto simp: perform_def split: sum.splits)

lemma emits_calls [emits_intros]:
  "(\<And>r. \<phi> (Ev c r)) \<Longrightarrow> emits \<phi> (call_unit env c)"
  "(\<And>r. \<phi> (Ev c r)) \<Longrightarrow> emits \<phi> (call_machine env c)"
  "(\<And>r. \<phi> (Ev c r)) \<Longrightarrow> emits \<phi> (call_secret env c)"
  "(\<And>r. \<phi> (Ev c r)) \<Longrightarrow> emits \<phi> (call_text env c)"
  "(\<And>r. \<phi> (Ev c r)) \<Longrightarrow> emits \<phi> (call_id env c)"
  "(\<And>r. \<phi> (Ev c r)) \<Longrightarrow> emits \<phi> (perform oracle wrap c)"
  by (simp_all add: call_defs emits_perform)

lemma emits_run [emits_intros]:
  "(\<And>r. \<phi> (Ev (RunCmd timeout args) r)) \<Longrightarrow> emits \<phi> (runDockerMachine env timeout args)"
  by (rule emitsI) (auto simp: runDockerMachine_def Let_def split: prod.splits)

lemma emits_splits [emits_intros]:
  "(b \<Longrightarrow> emits \<phi> m) \<Longrightarrow> (\<not> b \<Longrightarrow> emits \<phi> n) \<Longrightarrow> emits \<phi> (if b then m else n)"
  "(x = None \<Longrightarrow> emits \<phi> m) \<Longrightarrow> (\<And>a. x = Some a \<Longrightarrow> emits \<phi> (f a)) \<Longrightarrow>
     emits \<phi> (case x of None \<Rightarrow> m | Some a \<Rightarrow> f a)"
  "(\<And>e. y = Inl e \<Longrightarrow> emits \<phi> (g e)) \<Longrightarrow> (\<And>a. y = Inr a \<Longrightarrow> emits \<phi> (h a)) \<Longrightarrow>
     emits \<phi> (case y of Inl e \<Rightarrow> g e | Inr a \<Rightarrow> h a)"
  "(\<And>a b. z = (a, b) \<Longrightarrow> emits \<phi> (k a b)) \<Longrightarrow> emits \<phi> (case z of (a, b) \<Rightarrow> k a b)"
  by (auto split: option.splits sum.splits prod.splits)

text \<open>What every value a computation returns satisfies, and its use for what comes after.\<close>

definition returns :: "('a \<Rightarrow> bool) \<Rightarrow> 'a comp \<Rightarrow> bool" where
  "returns R m \<longleftrightarrow> (\<forall>s a t. m s = (Ok a, t) \<longrightarrow> R a)"

lemma emits_returns:
  assumes "returns R m" and m: "emits \<phi> m" and f: "\<And>a. R a \<Longrightarrow> emits \<phi> (f a)"
  shows "emits \<phi> (andThen m f)"
proof -
  define g where "g a = (if R a then f a else panic)" for a
  have "andThen m f = andThen m g"
    using assms(1) by (intro ext) (auto simp: andThen_def g_def returns_def split: prod.splits res.splits)
  moreover have "emits \<phi> (g a)" for a by (auto simp: g_def intro: f emits_intros)
  ultimately show ?thesis using m by (simp add: emits_andThen)
qed

section \<open>Counting events\<close>

definition counts :: "(event \<Rightarrow> bool) \<Rightarrow> nat \<Rightarrow> 'a comp \<Rightarrow> bool" where
  "counts P n m \<longleftrightarrow> (\<forall>s. \<exists>new. trace (snd (m s)) = new @ trace s \<and> length (filter P new) \<le> n)"

lemma counts_none: "emits (\<lambda>e. \<not> P e) m \<Longrightarrow> counts P n m"
  unfolding emits_def counts_def
  by (metis (no_types, lifting) filter_False le0 list.size(3))

lemma counts_mono: "counts P n m \<Longrightarrow> n \<le> k \<Longrightarrow> counts P k m"
  unfolding counts_def by (meson order_trans)

lemma counts_andThen:
  assumes m: "counts P i m" and f: "\<And>a. counts P j (f a)" and k: "i + j \<le> k"
  shows "counts P k (andThen m f)"
  unfolding counts_def
proof
  fix s
  obtain r t where mt: "m s = (r, t)" by fastforce
  obtain new where new: "trace t = new @ trace s" "length (filter P new) \<le> i"
    using m mt unfolding counts_def by (metis snd_conv)
  show "\<exists>new. trace (snd (andThen m f s)) = new @ trace s \<and> length (filter P new) \<le> k"
  proof (cases r)
    case (Ok a)
    obtain more where "trace (snd (f a t)) = more @ trace t" "length (filter P more) \<le> j"
      using f [of a] unfolding counts_def by blast
    then show ?thesis using new mt Ok k by (intro exI [of _ "more @ new"]) (simp add: run_simps)
  qed (use new mt k in \<open>auto simp: andThen_def\<close>)
qed

lemma counts_run: "counts P 1 (runDockerMachine env timeout args)"
  unfolding counts_def by (auto simp: runDockerMachine_def Let_def split: prod.splits)

lemma counts_obj: "(\<And>m. counts P n (f m)) \<Longrightarrow> counts P n (andThen theObj f)"
  by (rule counts_andThen [where i = 0 and j = n]) (auto intro!: counts_none emits_intros)

lemma counts_splits:
  "(b \<Longrightarrow> counts P n m) \<Longrightarrow> (\<not> b \<Longrightarrow> counts P n k) \<Longrightarrow> counts P n (if b then m else k)"
  "(\<And>e. y = Inl e \<Longrightarrow> counts P n (g e)) \<Longrightarrow> (\<And>a. y = Inr a \<Longrightarrow> counts P n (h a)) \<Longrightarrow>
     counts P n (case y of Inl e \<Rightarrow> g e | Inr a \<Rightarrow> h a)"
  by (auto split: sum.splits)

lemma counts_attempt: "counts P n m \<Longrightarrow> counts P n (attempt m)"
  by (simp add: counts_def attempt_state)

section \<open>Order of events by rank\<close>

text \<open>The emitted events come in the order of their ranks, all within the given bounds.\<close>

definition ranked :: "(event \<Rightarrow> nat) \<Rightarrow> nat \<Rightarrow> nat \<Rightarrow> 'a comp \<Rightarrow> bool" where
  "ranked rk lo hi m \<longleftrightarrow> (\<forall>s. \<exists>new. trace (snd (m s)) = new @ trace s \<and> sorted (map rk (rev new)) \<and>
     (\<forall>e \<in> set new. lo \<le> rk e \<and> rk e \<le> hi))"

lemma ranked_single: "emits (\<lambda>e. rk e = k) m \<Longrightarrow> lo \<le> k \<Longrightarrow> k \<le> hi \<Longrightarrow> ranked rk lo hi m"
  unfolding ranked_def
proof
  fix s assume m: "emits (\<lambda>e. rk e = k) m" and k: "lo \<le> k" "k \<le> hi"
  obtain new where new: "trace (snd (m s)) = new @ trace s" "\<forall>e \<in> set new. rk e = k"
    using m unfolding emits_def by blast
  then have "sorted (map rk (rev new))" by (auto simp: sorted_iff_nth_mono rev_nth)
  then show "\<exists>new. trace (snd (m s)) = new @ trace s \<and> sorted (map rk (rev new)) \<and>
      (\<forall>e \<in> set new. lo \<le> rk e \<and> rk e \<le> hi)"
    using new k by (intro exI [of _ new]) simp
qed

lemma ranked_silent: "emits (\<lambda>_. False) m \<Longrightarrow> ranked rk lo hi m"
  unfolding ranked_def emits_def by (auto intro!: exI [of _ "[]"])

lemma ranked_basic: "ranked rk lo hi (ret a)" "ranked rk lo hi (throw e)"
  by (auto intro!: ranked_silent emits_intros)

lemma ranked_splits:
  "(b \<Longrightarrow> ranked rk lo hi m) \<Longrightarrow> (\<not> b \<Longrightarrow> ranked rk lo hi n) \<Longrightarrow> ranked rk lo hi (if b then m else n)"
  "(\<And>e. y = Inl e \<Longrightarrow> ranked rk lo hi (g e)) \<Longrightarrow> (\<And>a. y = Inr a \<Longrightarrow> ranked rk lo hi (h a)) \<Longrightarrow>
     ranked rk lo hi (case y of Inl e \<Rightarrow> g e | Inr a \<Rightarrow> h a)"
  by (auto split: sum.splits)

lemma ranked_andThen:
  assumes m: "ranked rk lo mid m" and f: "\<And>a. ranked rk mid' hi (f a)" and "mid \<le> mid'"
    and "lo \<le> mid'" "mid \<le> hi"
  shows "ranked rk lo hi (andThen m f)"
  unfolding ranked_def
proof
  fix s
  obtain r t where mt: "m s = (r, t)" by fastforce
  obtain new where new: "trace t = new @ trace s" "sorted (map rk (rev new))"
    "\<forall>e \<in> set new. lo \<le> rk e \<and> rk e \<le> mid"
    using m mt unfolding ranked_def by (metis snd_conv)
  show "\<exists>new. trace (snd (andThen m f s)) = new @ trace s \<and> sorted (map rk (rev new)) \<and>
      (\<forall>e \<in> set new. lo \<le> rk e \<and> rk e \<le> hi)"
  proof (cases r)
    case (Ok a)
    obtain more where more: "trace (snd (f a t)) = more @ trace t" "sorted (map rk (rev more))"
      "\<forall>e \<in> set more. mid' \<le> rk e \<and> rk e \<le> hi"
      using f [of a] unfolding ranked_def by blast
    then have "sorted (map rk (rev (more @ new)))"
      using new assms(3) by (fastforce simp: sorted_append)
    then show ?thesis
      using new more mt Ok assms(3-5)
      by (intro exI [of _ "more @ new"]) (auto simp: run_simps intro: order_trans)
  next
    case (Err e)
    then show ?thesis using new mt assms(5) by (intro exI [of _ new]) (auto simp: andThen_def)
  next
    case Panic
    then show ?thesis using new mt assms(5) by (intro exI [of _ new]) (auto simp: andThen_def)
  next
    case Hang
    then show ?thesis using new mt assms(5) by (intro exI [of _ new]) (auto simp: andThen_def)
  qed
qed

lemma ranked_attempt: "ranked rk lo hi m \<Longrightarrow> ranked rk lo hi (attempt m)"
  by (simp add: ranked_def attempt_state)

section \<open>Computations that leave the object alone\<close>

definition same_obj :: "'a comp \<Rightarrow> bool" where
  "same_obj m \<longleftrightarrow> (\<forall>s. machineObj (snd (m s)) = machineObj s)"

named_theorems same_obj_intros \<open>computations that do not touch the object at hand\<close>

lemma same_objD: "same_obj m \<Longrightarrow> m s = (r, t) \<Longrightarrow> machineObj t = machineObj s"
  unfolding same_obj_def by (metis snd_conv)

lemma same_obj_andThen [same_obj_intros]:
  "same_obj m \<Longrightarrow> (\<And>a. same_obj (f a)) \<Longrightarrow> same_obj (andThen m f)"
  unfolding same_obj_def andThen_def by (auto split: prod.splits res.splits) (metis snd_conv)+

lemma same_obj_attempt [same_obj_intros]: "same_obj m \<Longrightarrow> same_obj (attempt m)"
  by (simp add: same_obj_def attempt_state)

lemma same_obj_basic [same_obj_intros]:
  "same_obj (ret a)" "same_obj (throw e)" "same_obj panic" "same_obj hang" "same_obj theObj"
  "same_obj (deref p)" "same_obj (perform oracle wrap c)" "same_obj (call_unit env c)"
  "same_obj (call_machine env c)" "same_obj (call_secret env c)" "same_obj (call_text env c)"
  "same_obj (call_id env c)" "same_obj (time_Now env)" "same_obj (runDockerMachine env timeout args)"
  by (auto simp: same_obj_def run_simps theObj_def deref_def perform_def call_defs time_Now_def
      runDockerMachine_def Let_def split: option.splits sum.splits prod.splits)

lemma same_obj_splits [same_obj_intros]:
  "(b \<Longrightarrow> same_obj m) \<Longrightarrow> (\<not> b \<Longrightarrow> same_obj n) \<Longrightarrow> same_obj (if b then m else n)"
  "(x = None \<Longrightarrow> same_obj m) \<Longrightarrow> (\<And>a. x = Some a \<Longrightarrow> same_obj (f a)) \<Longrightarrow>
     same_obj (case x of None \<Rightarrow> m | Some a \<Rightarrow> f a)"
  "(\<And>e. y = Inl e \<Longrightarrow> same_obj (g e)) \<Longrightarrow> (\<And>a. y = Inr a \<Longrightarrow> same_obj (h a)) \<Longrightarrow>
     same_obj (case y of Inl e \<Rightarrow> g e | Inr a \<Rightarrow> h a)"
  "(\<And>a b. z = (a, b) \<Longrightarrow> same_obj (k a b)) \<Longrightarrow> same_obj (case z of (a, b) \<Rightarrow> k a b)"
  by (auto split: option.splits sum.splits prod.splits)

section \<open>Hoare triples and kept predicates\<close>

definition hoare :: "(st \<Rightarrow> bool) \<Rightarrow> 'a comp \<Rightarrow> ('a res \<Rightarrow> st \<Rightarrow> bool) \<Rightarrow> bool" where
  "hoare P m Q \<longleftrightarrow> (\<forall>s. P s \<longrightarrow> Q (fst (m s)) (snd (m s)))"

text \<open>The assertion with one part for a value and one for every other way out.\<close>

definition post :: "('a \<Rightarrow> st \<Rightarrow> bool) \<Rightarrow> (st \<Rightarrow> bool) \<Rightarrow> 'a res \<Rightarrow> st \<Rightarrow> bool" where
  "post Q E r s = (case r of Ok a \<Rightarrow> Q a s | _ \<Rightarrow> E s)"

abbreviation keeps :: "(st \<Rightarrow> bool) \<Rightarrow> 'a comp \<Rightarrow> bool" where
  "keeps I m \<equiv> hoare I m (post (\<lambda>_. I) I)"

lemma post_simps [simp]: "post Q E (Ok a) = Q a" "post Q E (Err e) = E" "post Q E Panic = E" "post Q E Hang = E"
  by (auto simp: post_def)

lemma hoareI: "(\<And>s. P s \<Longrightarrow> Q (fst (m s)) (snd (m s))) \<Longrightarrow> hoare P m Q"
  by (simp add: hoare_def)

lemma hoareD: "hoare P m Q \<Longrightarrow> P s \<Longrightarrow> m s = (r, t) \<Longrightarrow> Q r t"
  unfolding hoare_def by (metis fst_conv snd_conv)

lemma hoare_post:
  "hoare P m (post Q E) \<Longrightarrow> (\<And>a s. Q a s \<Longrightarrow> Q' a s) \<Longrightarrow> (\<And>s. E s \<Longrightarrow> E' s) \<Longrightarrow> hoare P m (post Q' E')"
  unfolding hoare_def post_def by (fastforce split: res.splits)

lemma hoare_andThen:
  assumes m: "hoare P m (post R E)" and f: "\<And>a. hoare (R a) (f a) (post Q E)"
  shows "hoare P (andThen m f) (post Q E)"
proof (rule hoareI)
  fix s assume "P s"
  obtain r t where mt: "m s = (r, t)" by fastforce
  note hoareD [OF m \<open>P s\<close> mt]
  then show "post Q E (fst (andThen m f s)) (snd (andThen m f s))"
    using f mt by (cases r) (auto simp: run_simps hoare_def)
qed

lemma hoare_attempt:
  "hoare P m (post (\<lambda>a. Q (Inr a)) (\<lambda>s. E s \<and> (\<forall>e. Q (Inl e) s))) \<Longrightarrow> hoare P (attempt m) (post Q E)"
  by (auto simp: hoare_def attempt_def post_def split: prod.splits res.splits)

lemma hoare_basic:
  "hoare (Q a) (ret a) (post Q E)" "hoare E (throw e) (post Q E)" "hoare E panic (post Q E)"
  "hoare E hang (post Q E)"
  by (auto simp: hoare_def run_simps)

lemma hoare_theObj: "hoare P theObj (post (\<lambda>m s. P s \<and> machineObj s = Some m) P)"
  by (auto simp: hoare_def theObj_def split: option.splits)

lemma hoare_case:
  "(b \<Longrightarrow> hoare P m Q) \<Longrightarrow> (\<not> b \<Longrightarrow> hoare P n Q) \<Longrightarrow> hoare P (if b then m else n) Q"
  "(x = None \<Longrightarrow> hoare P m Q) \<Longrightarrow> (\<And>a. x = Some a \<Longrightarrow> hoare P (f a) Q) \<Longrightarrow>
     hoare P (case x of None \<Rightarrow> m | Some a \<Rightarrow> f a) Q"
  "(\<And>e. y = Inl e \<Longrightarrow> hoare P (g e) Q) \<Longrightarrow> (\<And>a. y = Inr a \<Longrightarrow> hoare P (h a) Q) \<Longrightarrow>
     hoare P (case y of Inl e \<Rightarrow> g e | Inr a \<Rightarrow> h a) Q"
  "(\<And>a b. z = (a, b) \<Longrightarrow> hoare P (k a b) Q) \<Longrightarrow> hoare P (case z of (a, b) \<Rightarrow> k a b) Q"
  by (auto split: option.splits sum.splits prod.splits)

lemma keeps_andThen [keeps_intros]: "keeps I m \<Longrightarrow> (\<And>a. keeps I (f a)) \<Longrightarrow> keeps I (andThen m f)"
  by (rule hoare_andThen)

lemma keeps_attempt [keeps_intros]: "keeps I m \<Longrightarrow> keeps I (attempt m)"
  by (rule hoare_attempt) (erule hoare_post, simp_all)

lemma keeps_basic [keeps_intros]:
  "keeps I (ret a)" "keeps I (throw e)" "keeps I panic" "keeps I hang" "keeps I theObj" "keeps I (deref p)"
  by (auto simp: hoare_def run_simps theObj_def deref_def split: option.splits)

lemmas keeps_case [keeps_intros] = hoare_case

text \<open>Predicates on the reconciler's object alone: calls to the outside keep them.\<close>

lemma keeps_obj_calls [keeps_intros]:
  "keeps (\<lambda>s. I (machineObj s)) (perform oracle wrap c)"
  "keeps (\<lambda>s. I (machineObj s)) (call_unit env c)"
  "keeps (\<lambda>s. I (machineObj s)) (call_machine env c)"
  "keeps (\<lambda>s. I (machineObj s)) (call_secret env c)"
  "keeps (\<lambda>s. I (machineObj s)) (call_text env c)"
  "keeps (\<lambda>s. I (machineObj s)) (call_id env c)"
  "keeps (\<lambda>s. I (machineObj s)) (time_Now env)"
  "keeps (\<lambda>s. I (machineObj s)) (runDockerMachine env timeout args)"
  by (auto simp: hoare_def perform_def call_defs time_Now_def runDockerMachine_def Let_def
      split: sum.splits prod.splits)

section \<open>Ordering of events\<close>

text \<open>Every event of a trace stands in the given relation to the events before it.\<close>

fun safe :: "(event \<Rightarrow> history \<Rightarrow> bool) \<Rightarrow> history \<Rightarrow> bool" where
  "safe \<phi> [] = True"
| "safe \<phi> (e # h) = (\<phi> e h \<and> safe \<phi> h)"

lemma safe_iff: "safe \<phi> t \<longleftrightarrow> (\<forall>a e h. t = a @ e # h \<longrightarrow> \<phi> e h)"
proof (induction t)
  case (Cons x t)
  show ?case
    by (auto simp: Cons.IH Cons_eq_append_conv)
qed simp

lemma safe_append: "safe \<phi> h \<Longrightarrow> (\<And>e h'. e \<in> set new \<Longrightarrow> suffix h h' \<Longrightarrow> \<phi> e h') \<Longrightarrow> safe \<phi> (new @ h)"
  by (induction new) (auto simp: suffix_def)

lemma safe_suffix: "suffix h t \<Longrightarrow> safe \<phi> t \<Longrightarrow> safe \<phi> h"
  by (induction t) (auto simp: suffix_Cons)

text \<open>What only depends on the past being there is kept by everything.\<close>

lemma emits_keeps_history:
  assumes "emits \<psi> m" and "\<And>h h'. suffix h h' \<Longrightarrow> H h \<Longrightarrow> H h'"
  shows "keeps (\<lambda>s. H (trace s)) m"
proof (rule hoareI)
  fix s :: st assume s: "H (trace s)"
  obtain r t where mt: "m s = (r, t)" by fastforce
  obtain new where "trace t = new @ trace s" using emitsD [OF assms(1) mt] by blast
  then have "H (trace t)" using s assms(2) by (auto simp: suffix_def)
  then show "post (\<lambda>_ s. H (trace s)) (\<lambda>s. H (trace s)) (fst (m s)) (snd (m s))"
    using mt by (cases r) auto
qed

lemma keeps_conj: "keeps I m \<Longrightarrow> keeps J m \<Longrightarrow> keeps (\<lambda>s. I s \<and> J s) m"
  unfolding hoare_def post_def by (fastforce split: res.splits)

section \<open>Guarded events as an interface\<close>

text \<open>
  Certain events need a certain past. The past is something that stays true as the history
  grows; what the clients get is that computations without such events, and all computations
  from a state with that past, keep every event of the history guarded.
\<close>

locale guard =
  fixes needs :: "event \<Rightarrow> bool" and past :: "history \<Rightarrow> bool"
  assumes past_Cons: "past h \<Longrightarrow> past (e # h)"
begin

abbreviation guarded :: "history \<Rightarrow> bool" where
  "guarded h \<equiv> safe (\<lambda>e h. needs e \<longrightarrow> past h) h"

lemma past_append: "past h \<Longrightarrow> past (new @ h)"
  by (induction new) (auto intro: past_Cons)

lemma safe_grows: "past h \<Longrightarrow> guarded h \<Longrightarrow> guarded (new @ h)"
  by (induction new) (auto intro: past_append)

lemma safe_free: "guarded h \<Longrightarrow> (\<And>e. e \<in> set new \<Longrightarrow> \<not> needs e) \<Longrightarrow> guarded (new @ h)"
  by (induction new) auto

lemma free_run: "emits (\<lambda>e. \<not> needs e) m \<Longrightarrow> guarded (trace s) \<Longrightarrow> guarded (trace (snd (m s)))"
  unfolding emits_def by (metis (no_types, lifting) safe_free)

lemma past_run: "emits \<psi> m \<Longrightarrow> guarded (trace s) \<Longrightarrow> past (trace s) \<Longrightarrow> guarded (trace (snd (m s)))"
  unfolding emits_def by (metis (no_types, lifting) safe_grows)

lemma guardedD: "guarded (a @ e # h) \<Longrightarrow> needs e \<Longrightarrow> past h"
  by (simp add: safe_iff)

end

lemma keepsD: "keeps I m \<Longrightarrow> I s \<Longrightarrow> I (snd (m s))"
  unfolding hoare_def post_def by (cases "fst (m s)") (auto split: res.splits)

lemma keepsI: "(\<And>s. I s \<Longrightarrow> I (snd (m s))) \<Longrightarrow> keeps I m"
  unfolding hoare_def post_def by (auto split: res.splits)

lemma keeps_returns:
  assumes "returns R m" and "keeps I m" and "\<And>a. R a \<Longrightarrow> keeps I (f a)"
  shows "keeps I (andThen m f)"
proof (rule keepsI)
  fix s assume "I s"
  obtain r t where mt: "m s = (r, t)" by fastforce
  then have "I t" using keepsD [OF assms(2) \<open>I s\<close>] by simp
  then show "I (snd (andThen m f s))"
    using mt assms(1,3) by (cases r) (auto simp: run_simps returns_def intro: keepsD)
qed

lemma emits_run_from: "emits \<phi> m \<Longrightarrow> trace s = [] \<Longrightarrow> e \<in> set (trace (snd (m s))) \<Longrightarrow> \<phi> e"
  unfolding emits_def by (metis append_Nil2)

end
