(* ===== verification/Kube.thy ===== *)
theory Kube
  imports World
begin

text \<open>
  The reconciler's dealings with the API server: reading secrets, writing conditions on the
  object at hand, committing the status (\<^verbatim>\<open>updateMachineStatus\<close> over the vendored status
  committer), and the metadata patches (\<^verbatim>\<open>patchFinalizer\<close>, \<^verbatim>\<open>patchAnnotation\<close>
  over the vendored \<^verbatim>\<open>CreateOrPatch\<close>). A successful create or patch replaces the object at
  hand by the server's answer, as the Go client does. The verb \<^verbatim>\<open>CreateOrPatch\<close> reports is
  discarded by both callers and is not modelled.
\<close>

section \<open>Operations\<close>

datatype VerbType = VerbUnchanged | VerbCreated | VerbPatched | VerbUpdated | VerbDeleted

record ctrl_Result =
  RequeueAfter :: int

definition emptyResult :: ctrl_Result where
  "emptyResult = \<lparr>RequeueAfter = 0\<rparr>"

definition getSecret :: "env \<Rightarrow> ObjectReference option \<Rightarrow> secret comp" where
  "getSecret env secretRef = andThen (deref secretRef) (\<lambda>ref. call_secret env (GetSecret (ObjectKey ref)))"

definition setCondition :: "env \<Rightarrow> condition option \<Rightarrow> unit comp" where
  "setCondition env c =
     andThen theObj (\<lambda>m.
     andThen (time_Now env) (\<lambda>now.
     putObj (SetConditions m (cond_Set now (getter_of m) c))))"

definition MarkTrue :: "env \<Rightarrow> condition_type \<Rightarrow> unit comp" where
  "MarkTrue env t = setCondition env (Some (TrueCondition t))"

definition MarkFalse :: "env \<Rightarrow> condition_type \<Rightarrow> string \<Rightarrow> string \<Rightarrow> string \<Rightarrow> unit comp" where
  "MarkFalse env t reason severity message =
     setCondition env (Some (FalseCondition t reason severity message))"

definition SetSummary :: "env \<Rightarrow> mergeOption list \<Rightarrow> unit comp" where
  "SetSummary env options =
     andThen theObj (\<lambda>m. setCondition env (cond_summary (getter_of m) options))"

text \<open>The function \<^verbatim>\<open>NewStatusCommitter\<close> returns, on the object at hand.\<close>

definition committer :: "env \<Rightarrow> Machine \<Rightarrow> unit comp" where
  "committer env old =
     andThen theObj (\<lambda>obj.
     if Status old = Status obj then ret ()
     else andThen (call_machine env (PatchStatus old obj)) putObj)"

definition updateMachineStatus :: "env \<Rightarrow> NamespacedName \<Rightarrow> unit comp" where
  "updateMachineStatus env namespacedName =
     andThen (call_machine env (GetMachine namespacedName)) (\<lambda>machine.
     andThen (SetSummary env [WithConditions ConditionsOrder]) (\<lambda>_.
     andThen theObj (\<lambda>m.
     andThen (putObj (SetPhase m (GetPhase m))) (\<lambda>_.
     committer env machine))))"

definition CreateOrPatchE :: "env \<Rightarrow> (Machine \<Rightarrow> bool \<Rightarrow> Machine) \<Rightarrow> unit comp" where
  "CreateOrPatchE env transform =
     andThen theObj (\<lambda>obj.
     andThen (attempt (call_machine env (GetMachine (key_of obj)))) (\<lambda>got.
     case got of
       Inl err \<Rightarrow>
         if IsNotFound err
         then let modified = transform obj True; modified' = SetMeta modified ((Meta modified)\<lparr>ResourceVersion := ''''\<rparr>)
              in andThen (call_machine env (CreateMachine modified')) putObj
         else throw err
     | Inr cur \<Rightarrow> andThen (call_machine env (PatchMachine cur (transform cur False))) putObj))"

definition finalizerTransform :: "VerbType \<Rightarrow> string \<Rightarrow> Machine \<Rightarrow> bool \<Rightarrow> Machine" where
  "finalizerTransform verbType finalizerName mc createOp =
     (case verbType of
        VerbCreated \<Rightarrow> SetMeta mc (AddFinalizer (Meta mc) finalizerName)
      | VerbDeleted \<Rightarrow> SetMeta mc (RemoveFinalizer (Meta mc) finalizerName)
      | _ \<Rightarrow> mc)"

definition patchFinalizer :: "env \<Rightarrow> VerbType \<Rightarrow> string \<Rightarrow> unit comp" where
  "patchFinalizer env verbType finalizerName =
     CreateOrPatchE env (finalizerTransform verbType finalizerName)"

definition annotationTransform :: "string \<Rightarrow> string \<Rightarrow> Machine \<Rightarrow> bool \<Rightarrow> Machine" where
  "annotationTransform key val mc createOp =
     SetMeta mc ((Meta mc)\<lparr>Annotations := mput (Annotations (Meta mc)) key val\<rparr>)"

definition patchAnnotation :: "env \<Rightarrow> string \<Rightarrow> string \<Rightarrow> unit comp" where
  "patchAnnotation env key val = CreateOrPatchE env (annotationTransform key val)"

definition ensureFinalizer :: "env \<Rightarrow> unit comp" where
  "ensureFinalizer env =
     andThen theObj (\<lambda>m.
     if \<not> ContainsFinalizer m GetFinalizer then patchFinalizer env VerbCreated GetFinalizer
     else ret ())"

definition reconciled :: "(ctrl_Result \<times> gerr option) comp" where
  "reconciled = ret (emptyResult, None)"

definition requeueWithError :: "env \<Rightarrow> string \<Rightarrow> gerr \<Rightarrow> (ctrl_Result \<times> gerr option) comp" where
  "requeueWithError env msg err =
     andThen theObj (\<lambda>m.
     andThen (attempt (updateMachineStatus env (key_of m))) (\<lambda>upd.
     case upd of
       Inl updErr \<Rightarrow> ret (emptyResult, Some updErr)
     | Inr _ \<Rightarrow> ret (emptyResult, Some err)))"

definition setInitialConditions :: "env \<Rightarrow> unit comp" where
  "setInitialConditions env =
     andThen (MarkFalse env MachineConditionTypeMachineReady ReasonMachineCreating
       ConditionSeverityError ''Waiting for Machine to become ready'') (\<lambda>_.
     andThen (MarkFalse env MachineConditionTypeClusterOperationComplete ReasonWaitingForScriptRun
       ConditionSeverityError ''Waiting for Script to run'') (\<lambda>_.
     andThen theObj (\<lambda>m.
     updateMachineStatus env (key_of m))))"

definition isMarkedForDeletion :: "bool comp" where
  "isMarkedForDeletion = andThen theObj (\<lambda>m. ret (isDeleting m))"

section \<open>What the operations emit\<close>

text \<open>
  The events of a status update: reads of a machine, and status patches that change the status
  and carry the phase of the conditions they write. The events of a metadata patch: reads, and
  creates and patches whose object is the given transform of what was read.
\<close>

fun status_event :: "event \<Rightarrow> bool" where
  "status_event (Ev (GetMachine _) _) = True"
| "status_event (Ev (PatchStatus old new) _) =
     (Status old \<noteq> Status new \<and> Phase (Status new) = GetPhase new)"
| "status_event _ = False"

fun meta_event :: "(Machine \<Rightarrow> bool \<Rightarrow> Machine) \<Rightarrow> event \<Rightarrow> bool" where
  "meta_event f (Ev (GetMachine _) _) = True"
| "meta_event f (Ev (PatchMachine cur modified) _) = (modified = f cur False)"
| "meta_event f (Ev (CreateMachine modified) _) =
     (\<exists>obj. modified = SetMeta (f obj True) ((Meta (f obj True))\<lparr>ResourceVersion := ''''\<rparr>))"
| "meta_event f _ = False"

lemma emits_getSecret [emits_intros]:
  "(\<And>nn r. \<phi> (Ev (GetSecret nn) r)) \<Longrightarrow> emits \<phi> (getSecret env ref)"
  unfolding getSecret_def by (intro emits_intros)

lemma emits_setCondition [emits_intros]: "emits \<phi> (setCondition env c)"
  unfolding setCondition_def by (intro emits_intros)

lemma emits_Mark [emits_intros]:
  "emits \<phi> (MarkTrue env t)" "emits \<phi> (MarkFalse env t r sev msg)" "emits \<phi> (SetSummary env opts)"
  unfolding MarkTrue_def MarkFalse_def SetSummary_def by (intro emits_intros)+

lemma emits_isMarkedForDeletion [emits_intros]: "emits \<phi> isMarkedForDeletion"
  unfolding isMarkedForDeletion_def by (intro emits_intros)

lemma GetPhase_SetPhase [simp]: "GetPhase (SetPhase m p) = GetPhase m"
  by (simp add: GetPhase_def)

lemma emits_commit:
  "emits status_event (andThen (putObj (SetPhase m (GetPhase m))) (\<lambda>_. committer env old))"
  by (rule emitsI)
    (auto simp: run_simps committer_def andThen_def theObj_def call_defs perform_def split: sum.splits)

lemma updateMachineStatus_status: "emits status_event (updateMachineStatus env nn)"
  unfolding updateMachineStatus_def by (intro emits_intros emits_commit) simp_all

lemma emits_updateMachineStatus [emits_intros]:
  "(\<And>e. status_event e \<Longrightarrow> \<phi> e) \<Longrightarrow> emits \<phi> (updateMachineStatus env nn)"
  by (rule emits_mono [OF updateMachineStatus_status])

lemma emits_requeueWithError [emits_intros]:
  "(\<And>e. status_event e \<Longrightarrow> \<phi> e) \<Longrightarrow> emits \<phi> (requeueWithError env msg err)"
  unfolding requeueWithError_def by (intro emits_intros)

lemma emits_setInitialConditions [emits_intros]:
  "(\<And>e. status_event e \<Longrightarrow> \<phi> e) \<Longrightarrow> emits \<phi> (setInitialConditions env)"
  unfolding setInitialConditions_def by (intro emits_intros)

lemma emits_CreateOrPatchE:
  "(\<And>e. meta_event f e \<Longrightarrow> \<phi> e) \<Longrightarrow> emits \<phi> (CreateOrPatchE env f)"
  unfolding CreateOrPatchE_def Let_def
  by (intro emits_intros) (assumption | erule meta_allE, erule meta_mp, auto)+

lemma emits_patchFinalizer [emits_intros]:
  "(\<And>e. meta_event (finalizerTransform v f) e \<Longrightarrow> \<phi> e) \<Longrightarrow> emits \<phi> (patchFinalizer env v f)"
  unfolding patchFinalizer_def by (rule emits_CreateOrPatchE)

lemma emits_patchAnnotation [emits_intros]:
  "(\<And>e. meta_event (annotationTransform k v) e \<Longrightarrow> \<phi> e) \<Longrightarrow> emits \<phi> (patchAnnotation env k v)"
  unfolding patchAnnotation_def by (rule emits_CreateOrPatchE)

lemma emits_ensureFinalizer [emits_intros]:
  "(\<And>e. meta_event (finalizerTransform VerbCreated GetFinalizer) e \<Longrightarrow> \<phi> e) \<Longrightarrow>
   emits \<phi> (ensureFinalizer env)"
  unfolding ensureFinalizer_def by (intro emits_intros)

section \<open>Runs\<close>

lemma run_perform [run_simps]:
  "oracle (trace s) c = Inr a \<Longrightarrow>
     perform oracle wrap c s = (Ok a, s\<lparr>trace := Ev c (Inr (wrap a)) # trace s\<rparr>)"
  "oracle (trace s) c = Inl e \<Longrightarrow>
     perform oracle wrap c s = (Err e, s\<lparr>trace := Ev c (Inl e) # trace s\<rparr>)"
  by (simp_all add: perform_def)

lemma run_setCondition [run_simps]:
  "machineObj s = Some m \<Longrightarrow> setCondition env c s =
     (Ok (), s\<lparr>machineObj := Some (SetConditions m (cond_Set (env_now env (ticks s) (trace s)) (getter_of m) c)),
               ticks := Suc (ticks s)\<rparr>)"
  by (simp add: setCondition_def time_Now_def run_simps)

text \<open>A status update in one equation: read, summarize, and patch exactly when the status differs.\<close>

definition after_status :: "env \<Rightarrow> NamespacedName \<Rightarrow> Machine \<Rightarrow> Machine \<Rightarrow> st \<Rightarrow> unit res \<times> st" where
  "after_status env nn cur m s =
     (let h = Ev (GetMachine nn) (Inr (RMachine cur)) # trace s;
          m' = summarized (env_now env (ticks s) h) m
      in if Status cur = Status m' then (Ok (), s\<lparr>machineObj := Some m', trace := h, ticks := Suc (ticks s)\<rparr>)
         else case env_machine env h (PatchStatus cur m') of
             Inr new \<Rightarrow> (Ok (), s\<lparr>machineObj := Some new, trace := Ev (PatchStatus cur m') (Inr (RMachine new)) # h,
                 ticks := Suc (ticks s)\<rparr>)
           | Inl e \<Rightarrow> (Err e, s\<lparr>machineObj := Some m', trace := Ev (PatchStatus cur m') (Inl e) # h,
                 ticks := Suc (ticks s)\<rparr>))"

lemma updateMachineStatus_run:
  assumes m: "machineObj s = Some m"
    and got: "env_machine env (trace s) (GetMachine nn) = Inr cur"
  shows "updateMachineStatus env nn s = after_status env nn cur m s"
proof -
  let ?h = "Ev (GetMachine nn) (Inr (RMachine cur)) # trace s"
  let ?m = "summarized (env_now env (ticks s) ?h) m"
  let ?s = "s\<lparr>machineObj := Some ?m, trace := ?h, ticks := Suc (ticks s)\<rparr>"
  have "updateMachineStatus env nn s = committer env cur ?s"
    using m got
    by (simp add: updateMachineStatus_def SetSummary_def call_defs run_simps summarized_def Let_def
        cond_SetSummary_def)
  also have "\<dots> = after_status env nn cur m s"
    by (cases "env_machine env ?h (PatchStatus cur ?m)")
      (auto simp: committer_def run_simps call_defs after_status_def Let_def)
  finally show ?thesis .
qed

lemma updateMachineStatus_get_error:
  "env_machine env (trace s) (GetMachine nn) = Inl e \<Longrightarrow> updateMachineStatus env nn s =
     (Err e, s\<lparr>trace := Ev (GetMachine nn) (Inl e) # trace s\<rparr>)"
  by (simp add: updateMachineStatus_def call_defs run_simps)

text \<open>\<^verbatim>\<open>CreateOrPatch\<close> in one equation, by what the read answers.\<close>

lemma CreateOrPatchE_run:
  assumes m: "machineObj s = Some m"
  shows "CreateOrPatchE env f s =
    (let s1 = (\<lambda>r. s\<lparr>trace := Ev (GetMachine (key_of m)) r # trace s\<rparr>)
     in case env_machine env (trace s) (GetMachine (key_of m)) of
       Inl e \<Rightarrow> if IsNotFound e
         then andThen (call_machine env (CreateMachine
           (SetMeta (f m True) ((Meta (f m True))\<lparr>ResourceVersion := ''''\<rparr>)))) putObj (s1 (Inl e))
         else (Err e, s1 (Inl e))
     | Inr cur \<Rightarrow> andThen (call_machine env (PatchMachine cur (f cur False))) putObj (s1 (Inr (RMachine cur))))"
  using m by (cases "env_machine env (trace s) (GetMachine (key_of m))")
    (simp_all add: CreateOrPatchE_def run_simps call_machine_def Let_def)

section \<open>What the server is relied on for\<close>

text \<open>
  The machines the API server answers with have a property as long as the ones it is sent have
  it. Well-formed conditions are such a property: conditions are a list-map keyed by type, and
  the server stores what the operator writes.
\<close>

fun sends :: "(Machine \<Rightarrow> bool) \<Rightarrow> call \<Rightarrow> bool" where
  "sends W (PatchStatus old new) = W new"
| "sends W (PatchMachine old new) = W new"
| "sends W (CreateMachine new) = W new"
| "sends W _ = True"

definition server_answers :: "(Machine \<Rightarrow> bool) \<Rightarrow> env \<Rightarrow> bool" where
  "server_answers W env \<longleftrightarrow> (\<forall>h c m. sends W c \<longrightarrow> env_machine env h c = Inr m \<longrightarrow> W m)"

lemma server_answersD: "server_answers W env \<Longrightarrow> env_machine env h c = Inr m \<Longrightarrow> sends W c \<Longrightarrow> W m"
  by (auto simp: server_answers_def)

definition server_wf :: "env \<Rightarrow> bool" where
  "server_wf env \<longleftrightarrow> server_answers wf_machine env"

definition obj_wf :: "st \<Rightarrow> bool" where
  "obj_wf s \<longleftrightarrow> (\<forall>m. machineObj s = Some m \<longrightarrow> wf_machine m)"

section \<open>Soundness: no panic, no divergence\<close>

text \<open>
  A machine is \<^verbatim>\<open>specified\<close> when the pointers the operator follows without a check are set;
  both are required fields of the resource's schema, so every machine the API server stores has
  them. A computation is \<^verbatim>\<open>sound\<close> for \<^term>\<open>R\<close> when, from a state with a specified object, it
  neither panics nor diverges, leaves a specified object, and its value satisfies \<^term>\<open>R\<close>.
\<close>

definition specified :: "Machine \<Rightarrow> bool" where
  "specified m \<longleftrightarrow> Driver (Spec m) \<noteq> None \<and> AuthSecret (Spec m) \<noteq> None"

definition server_specified :: "env \<Rightarrow> bool" where
  "server_specified env \<longleftrightarrow> (\<forall>h c m. env_machine env h c = Inr m \<longrightarrow> specified m)"

definition good_obj :: "st \<Rightarrow> bool" where
  "good_obj s \<longleftrightarrow> (\<exists>m. machineObj s = Some m \<and> specified m)"

definition sound :: "('a \<Rightarrow> bool) \<Rightarrow> 'a comp \<Rightarrow> bool" where
  "sound R c \<longleftrightarrow> hoare good_obj c
     (\<lambda>r s. good_obj s \<and> r \<noteq> Panic \<and> r \<noteq> Hang \<and> (\<forall>a. r = Ok a \<longrightarrow> R a))"

named_theorems sound_intros \<open>computations that neither panic nor diverge\<close>

lemma soundD: "sound R m \<Longrightarrow> good_obj s \<Longrightarrow> m s = (r, t) \<Longrightarrow>
   good_obj t \<and> r \<noteq> Panic \<and> r \<noteq> Hang \<and> (\<forall>a. r = Ok a \<longrightarrow> R a)"
  unfolding sound_def by (rule hoareD)

lemma sound_weak: "sound R m \<Longrightarrow> (\<And>a. R a \<Longrightarrow> Q a) \<Longrightarrow> sound Q m"
  unfolding sound_def hoare_def by blast

lemma sound_andThen [sound_intros]:
  assumes m: "sound R m" and f: "\<And>a. R a \<Longrightarrow> sound Q (f a)"
  shows "sound Q (andThen m f)"
  unfolding sound_def
proof (rule hoareI)
  fix s :: st assume s: "good_obj s"
  obtain r t where mt: "m s = (r, t)" by fastforce
  note t = soundD [OF m s mt]
  show "good_obj (snd (andThen m f s)) \<and> fst (andThen m f s) \<noteq> Panic \<and> fst (andThen m f s) \<noteq> Hang \<and>
      (\<forall>a. fst (andThen m f s) = Ok a \<longrightarrow> Q a)"
  proof (cases r)
    case (Ok a)
    then show ?thesis using f [of a] t mt by (auto simp: run_simps sound_def hoare_def)
  qed (use t mt in \<open>auto simp: run_simps\<close>)
qed

lemma sound_attempt [sound_intros]:
  assumes "sound R m"
  shows "sound (\<lambda>r. \<forall>a. r = Inr a \<longrightarrow> R a) (attempt m)"
  unfolding sound_def
proof (rule hoareI)
  fix s :: st assume s: "good_obj s"
  obtain r t where mt: "m s = (r, t)" by fastforce
  note t = soundD [OF assms s mt]
  then show "good_obj (snd (attempt m s)) \<and> fst (attempt m s) \<noteq> Panic \<and> fst (attempt m s) \<noteq> Hang \<and>
      (\<forall>a. fst (attempt m s) = Ok a \<longrightarrow> (\<forall>b. a = Inr b \<longrightarrow> R b))"
    using mt by (cases r) (auto simp: run_simps)
qed

lemma sound_basic [sound_intros]:
  "R a \<Longrightarrow> sound R (ret a)" "sound R (throw e)" "sound specified theObj"
  "specified m \<Longrightarrow> sound (\<lambda>_. True) (putObj m)" "p \<noteq> None \<Longrightarrow> sound (\<lambda>a. p = Some a) (deref p)"
  "sound (\<lambda>_. True) (call_unit env c)" "sound (\<lambda>_. True) (call_secret env c)"
  "sound (\<lambda>_. True) (call_text env c)" "sound (\<lambda>_. True) (time_Now env)"
  "sound (\<lambda>_. True) (runDockerMachine env timeout args)"
  by (auto simp: sound_def hoare_def good_obj_def run_simps theObj_def perform_def call_defs time_Now_def
      runDockerMachine_def Let_def putObj_def split: sum.splits prod.splits)

lemma sound_perform:
  "(\<And>h a. oracle h c = Inr a \<Longrightarrow> R a) \<Longrightarrow> sound R (perform oracle wrap c)"
  by (auto simp: sound_def hoare_def good_obj_def perform_def split: sum.splits)

lemma sound_call_machine [sound_intros]: "server_specified env \<Longrightarrow> sound specified (call_machine env c)"
  unfolding call_machine_def server_specified_def by (rule sound_perform) blast

lemma sound_splits [sound_intros]:
  "(b \<Longrightarrow> sound R m) \<Longrightarrow> (\<not> b \<Longrightarrow> sound R n) \<Longrightarrow> sound R (if b then m else n)"
  "(\<And>e. y = Inl e \<Longrightarrow> sound R (g e)) \<Longrightarrow> (\<And>a. y = Inr a \<Longrightarrow> sound R (h a)) \<Longrightarrow>
     sound R (case y of Inl e \<Rightarrow> g e | Inr a \<Rightarrow> h a)"
  "(x = None \<Longrightarrow> sound R m) \<Longrightarrow> (\<And>a. x = Some a \<Longrightarrow> sound R (f a)) \<Longrightarrow>
     sound R (case x of None \<Rightarrow> m | Some a \<Rightarrow> f a)"
  "(\<And>a b. z = (a, b) \<Longrightarrow> sound R (k a b)) \<Longrightarrow> sound R (case z of (a, b) \<Rightarrow> k a b)"
  by (auto split: option.splits sum.splits prod.splits)

lemma specified_simps [simp]:
  "specified (SetConditions m cs) = specified m" "specified (SetPhase m p) = specified m"
  "specified (SetMeta m om) = specified m"
  by (simp_all add: specified_def)

lemma sound_conditions [sound_intros]:
  "sound (\<lambda>_. True) (setCondition env c)" "sound (\<lambda>_. True) (MarkTrue env t)"
  "sound (\<lambda>_. True) (MarkFalse env t r sev msg)" "sound (\<lambda>_. True) (SetSummary env opts)"
  "sound (\<lambda>_. True) isMarkedForDeletion"
  unfolding SetSummary_def MarkFalse_def MarkTrue_def setCondition_def isMarkedForDeletion_def
  by (rule sound_intros | simp)+

lemma sound_getSecret [sound_intros]: "ref \<noteq> None \<Longrightarrow> sound (\<lambda>_. True) (getSecret env ref)"
  unfolding getSecret_def by (rule sound_intros | simp)+

lemma sound_committer [sound_intros]: "server_specified env \<Longrightarrow> sound (\<lambda>_. True) (committer env old)"
  unfolding committer_def by (rule sound_intros | simp)+

lemma sound_updateMachineStatus [sound_intros]:
  "server_specified env \<Longrightarrow> sound (\<lambda>_. True) (updateMachineStatus env nn)"
  unfolding updateMachineStatus_def by (rule sound_intros | simp)+

lemma sound_CreateOrPatchE:
  "server_specified env \<Longrightarrow> sound (\<lambda>_. True) (CreateOrPatchE env f)"
  unfolding CreateOrPatchE_def Let_def by (rule sound_intros | simp)+

lemma sound_patches [sound_intros]:
  assumes "server_specified env"
  shows "sound (\<lambda>_. True) (patchFinalizer env v fin)" "sound (\<lambda>_. True) (patchAnnotation env k x)"
    "sound (\<lambda>_. True) (ensureFinalizer env)"
  unfolding ensureFinalizer_def patchAnnotation_def patchFinalizer_def
  by (rule sound_intros sound_CreateOrPatchE assms | simp)+

lemma sound_status_ops [sound_intros]:
  assumes "server_specified env"
  shows "sound (\<lambda>_. True) (requeueWithError env msg err)" "sound (\<lambda>_. True) (setInitialConditions env)"
    "sound (\<lambda>_. True) reconciled"
  unfolding requeueWithError_def setInitialConditions_def reconciled_def
  by (rule sound_intros assms | simp)+

end
