(* ===== verification/Poll.thy ===== *)
theory Poll
  imports Kube
begin

text \<open>
  \<^verbatim>\<open>waitForState\<close>: polling with a pause until a probe says yes, fails, or the time is up.
  Durations are nanoseconds in a 64-bit integer and the loop variable wraps around, so the loop
  of the source need not end; the model runs it with fuel, and running out of fuel is the value
  \<^const>\<open>Hang\<close>. The fuel \<^verbatim>\<open>wait_fuel\<close> is one more than the number of rounds of a loop
  whose counter does not wrap, and \<^verbatim>\<open>wait_ends\<close> shows that such a loop ends.
\<close>

section \<open>The loop\<close>

definition second :: int where "second = 1000000000"

definition minute :: int where "minute = 60 * second"

definition wrap64 :: "int \<Rightarrow> int" where
  "wrap64 x = (x + 2 ^ 63) mod 2 ^ 64 - 2 ^ 63"

definition time_Sleep :: "int \<Rightarrow> unit comp" where
  "time_Sleep d = (\<lambda>s. (Ok (), s\<lparr>trace := Ev (Sleep d) (Inr RUnit) # trace s\<rparr>))"

fun waitLoop :: "nat \<Rightarrow> int \<Rightarrow> int \<Rightarrow> int \<Rightarrow> bool comp \<Rightarrow> unit comp" where
  "waitLoop 0 retry timeout t getStatus = hang"
| "waitLoop (Suc fuel) retry timeout t getStatus =
     (if t \<le> timeout
      then andThen getStatus (\<lambda>res.
        if res then ret ()
        else andThen (time_Sleep retry) (\<lambda>_.
          waitLoop fuel retry timeout (wrap64 (t + retry)) getStatus))
      else throw (ErrorString ''failed to get desired status''))"

definition wait_fuel :: "int \<Rightarrow> int \<Rightarrow> nat" where
  "wait_fuel retry timeout = nat (timeout div retry) + 2"

definition waitForState :: "int \<Rightarrow> int \<Rightarrow> bool comp \<Rightarrow> unit comp" where
  "waitForState retry timeout getStatus =
     waitLoop (wait_fuel retry timeout) retry timeout 0 getStatus"

section \<open>Facts\<close>

lemma wrap64_id: "- (2 ^ 63) \<le> x \<Longrightarrow> x < 2 ^ 63 \<Longrightarrow> wrap64 x = x"
  by (simp add: wrap64_def)

lemma emits_Sleep [emits_intros]: "\<phi> (Ev (Sleep d) (Inr RUnit)) \<Longrightarrow> emits \<phi> (time_Sleep d)"
  by (auto simp: emits_def time_Sleep_def)

lemma sound_Sleep [sound_intros]: "sound (\<lambda>_. True) (time_Sleep d)"
  by (auto simp: sound_def hoare_def time_Sleep_def good_obj_def)

lemma emits_waitLoop:
  "emits \<phi> g \<Longrightarrow> \<phi> (Ev (Sleep retry) (Inr RUnit)) \<Longrightarrow> emits \<phi> (waitLoop n retry timeout t g)"
  by (induction n arbitrary: t) (auto intro!: emits_intros)

lemma emits_waitForState [emits_intros]:
  "emits \<phi> g \<Longrightarrow> \<phi> (Ev (Sleep retry) (Inr RUnit)) \<Longrightarrow> emits \<phi> (waitForState retry timeout g)"
  unfolding waitForState_def by (rule emits_waitLoop)

text \<open>The rounds a loop at time \<^term>\<open>t\<close> still has, and that this much fuel is enough.\<close>

definition rounds :: "int \<Rightarrow> int \<Rightarrow> int \<Rightarrow> nat" where
  "rounds retry timeout t = (if timeout < t then 0 else nat ((timeout - t) div retry) + 1)"

lemma rounds_step:
  assumes "0 < retry" and "t \<le> timeout"
  shows "rounds retry timeout t = Suc (rounds retry timeout (t + retry))"
proof -
  have "(timeout - t) div retry = (timeout - (t + retry)) div retry + 1"
    using assms(1) by (metis add.commute diff_add_eq_diff_diff_swap diff_add_cancel div_add_self2 order_less_irrefl)
  moreover have "(timeout - t) div retry = 0" if "timeout < t + retry"
    using that assms by (simp add: div_pos_pos_trivial)
  ultimately show ?thesis
    using assms by (auto simp: rounds_def pos_imp_zdiv_nonneg_iff nat_add_distrib)
qed

lemma rounds_start: "0 < retry \<Longrightarrow> 0 \<le> timeout \<Longrightarrow> rounds retry timeout 0 + 1 = wait_fuel retry timeout"
  by (simp add: rounds_def wait_fuel_def)

section \<open>Probes as an interface\<close>

text \<open>
  A probe is a computation that emits only certain events, and neither panics nor diverges in
  the states that interest the caller. What \<^const>\<open>waitForState\<close> promises then: it emits no
  other events and pauses, and it ends without a panic.
\<close>

locale prober =
  fixes probe :: "bool comp" and legal :: "event \<Rightarrow> bool" and good :: "st \<Rightarrow> bool"
  assumes probe_emits: "emits legal probe"
    and probe_ends: "good s \<Longrightarrow> probe s = (r, t) \<Longrightarrow> r \<noteq> Hang \<and> r \<noteq> Panic"
    and probe_good: "good s \<Longrightarrow> probe s = (r, t) \<Longrightarrow> good t"
    and sleep_good: "good s \<Longrightarrow> good (snd (time_Sleep d s))"
begin

lemma loop_ends:
  assumes "0 < retry" and "timeout + retry < 2 ^ 63" and "0 \<le> t"
    and "rounds retry timeout t < n" and "good s"
  shows "fst (waitLoop n retry timeout t probe s) \<noteq> Hang \<and> fst (waitLoop n retry timeout t probe s) \<noteq> Panic \<and>
    good (snd (waitLoop n retry timeout t probe s))"
  using assms(3-5)
proof (induction n arbitrary: t s)
  case (Suc n)
  show ?case
  proof (cases "t \<le> timeout")
    case True
    obtain r u where pr: "probe s = (r, u)" by fastforce
    note u = probe_ends [OF Suc.prems(3) pr] probe_good [OF Suc.prems(3) pr]
    have w: "wrap64 (t + retry) = t + retry" using assms True Suc.prems(1) by (intro wrap64_id) auto
    have "rounds retry timeout (t + retry) < n"
      using Suc.prems(2) rounds_step [OF assms(1) True] by simp
    then have "fst (waitLoop n retry timeout (t + retry) probe (snd (time_Sleep retry u))) \<noteq> Hang \<and>
        fst (waitLoop n retry timeout (t + retry) probe (snd (time_Sleep retry u))) \<noteq> Panic \<and>
        good (snd (waitLoop n retry timeout (t + retry) probe (snd (time_Sleep retry u))))"
      using Suc.prems(1) assms(1) u by (intro Suc.IH sleep_good) auto
    then show ?thesis using True pr u w
      by (cases r) (auto simp: run_simps andThen_def time_Sleep_def)
  qed (use Suc.prems in \<open>simp add: run_simps\<close>)
qed simp

lemma wait_ends:
  assumes "0 < retry" and "0 \<le> timeout" and "timeout + retry < 2 ^ 63" and "good s"
  shows "fst (waitForState retry timeout probe s) \<noteq> Hang \<and> fst (waitForState retry timeout probe s) \<noteq> Panic \<and>
    good (snd (waitForState retry timeout probe s))"
  unfolding waitForState_def
  using assms rounds_start [OF assms(1,2)] by (intro loop_ends) auto

end

text \<open>
  What the waiting does when the probe keeps saying no: one probe per round with a pause after
  each, then the error. The probe here is one that answers no without changing the object.
\<close>

lemma waitLoop_yes:
  "t \<le> timeout \<Longrightarrow> g s = (Ok True, s') \<Longrightarrow> waitLoop (Suc n) retry timeout t g s = (Ok (), s')"
  by (simp add: run_simps)

lemma waitLoop_err:
  "t \<le> timeout \<Longrightarrow> g s = (Err e, s') \<Longrightarrow> waitLoop (Suc n) retry timeout t g s = (Err e, s')"
  by (simp add: run_simps)

lemma waitLoop_times_out:
  assumes "0 < retry" and "timeout + retry < 2 ^ 63" and "0 \<le> t"
    and "rounds retry timeout t < n"
    and no: "\<And>s. fst (g s) = Ok False"
  shows "fst (waitLoop n retry timeout t g s) = Err (ErrorString ''failed to get desired status'')"
  using assms(3,4)
proof (induction n arbitrary: t s)
  case (Suc n)
  show ?case
  proof (cases "t \<le> timeout")
    case True
    obtain u where g: "g s = (Ok False, u)" using no [of s] by (metis prod.collapse)
    have w: "wrap64 (t + retry) = t + retry" using assms True Suc.prems(1) by (intro wrap64_id) auto
    have "rounds retry timeout (t + retry) < n"
      using Suc.prems(2) rounds_step [OF assms(1) True] by simp
    then show ?thesis using Suc.IH Suc.prems(1) assms(1) True g w
      by (simp add: run_simps andThen_def time_Sleep_def)
  qed (simp add: run_simps)
qed simp

section \<open>Termination and the number of pauses\<close>

lemma waitLoop_no_hang:
  assumes "0 < retry" and "timeout + retry < 2 ^ 63" and "0 \<le> t" and "rounds retry timeout t < n"
    and probe: "\<And>s. fst (g s) \<noteq> Hang"
  shows "fst (waitLoop n retry timeout t g s) \<noteq> Hang"
  using assms(3,4)
proof (induction n arbitrary: t s)
  case (Suc n)
  show ?case
  proof (cases "t \<le> timeout")
    case True
    obtain r u where g: "g s = (r, u)" by fastforce
    then have r: "r \<noteq> Hang" using probe [of s] by simp
    have w: "wrap64 (t + retry) = t + retry" using assms True Suc.prems(1) by (intro wrap64_id) auto
    have "rounds retry timeout (t + retry) < n"
      using Suc.prems(2) rounds_step [OF assms(1) True] by simp
    then show ?thesis using Suc.IH Suc.prems(1) assms(1) True g w r
      by (cases r) (auto simp: run_simps andThen_def time_Sleep_def)
  qed (simp add: run_simps)
qed simp

fun is_pause :: "event \<Rightarrow> bool" where
  "is_pause (Ev (Sleep _) _) = True"
| "is_pause _ = False"

lemma waitLoop_pauses:
  assumes "0 < retry" and "timeout + retry < 2 ^ 63" and "0 \<le> t"
    and g: "emits (\<lambda>e. \<not> is_pause e) g"
  shows "counts is_pause (rounds retry timeout t) (waitLoop n retry timeout t g)"
  using assms(3)
proof (induction n arbitrary: t)
  case 0
  then show ?case by (auto intro!: counts_none emits_intros)
next
  case (Suc n)
  show ?case
  proof (cases "t \<le> timeout")
    case False
    then show ?thesis by (auto intro!: counts_none emits_intros)
  next
    case True
    have w: "wrap64 (t + retry) = t + retry" using assms True Suc.prems(1) by (intro wrap64_id) auto
    note r = rounds_step [OF assms(1) True]
    have sleep: "counts is_pause 1 (time_Sleep retry)"
      by (auto simp: counts_def time_Sleep_def)
    have "counts is_pause (rounds retry timeout (t + retry)) (waitLoop n retry timeout (t + retry) g)"
      using Suc.IH Suc.prems assms(1) by simp
    then have rest: "counts is_pause (rounds retry timeout t) (andThen (time_Sleep retry) (\<lambda>_.
        waitLoop n retry timeout (wrap64 (t + retry)) g))"
      using r w by (intro counts_andThen [OF sleep]) auto
    have "counts is_pause (rounds retry timeout t) (if res then ret () else andThen (time_Sleep retry) (\<lambda>_.
        waitLoop n retry timeout (wrap64 (t + retry)) g))" for res
      by (intro counts_splits rest counts_none emits_basic)
    then show ?thesis
      using True by (auto intro!: counts_andThen [where i = 0] counts_none [OF g])
  qed
qed

lemma rounds_zero: "0 \<le> timeout \<Longrightarrow> rounds retry timeout 0 = nat (timeout div retry) + 1"
  by (simp add: rounds_def)

end
