(* ===== verification/Aws.thy ===== *)
theory Aws
  imports Poll
begin

text \<open>
  The AWS side of the operator (\<^verbatim>\<open>aws.go\<close>, \<^verbatim>\<open>aws_region.go\<close>): credentials from the
  auth secret, creation of the VPC, its subnet, internet gateway and route with the ids kept in
  annotations of the machine, rollback of a creation that fails half way, and the teardown. An
  EC2 client is identified by the credentials and region its session was opened with; pointer
  fields of the SDK's structures are options.
\<close>

section \<open>Constants\<close>

definition GoogleDriver :: string where "GoogleDriver = ''google''"
definition AWSDriver :: string where "AWSDriver = ''amazonec2''"
definition AzureDriver :: string where "AzureDriver = ''azure''"

definition awsAccessKeyField :: string where "awsAccessKeyField = ''amazonec2-access-key''"
definition awsSecretKeyField :: string where "awsSecretKeyField = ''amazonec2-secret-key''"
definition awsRegionField :: string where "awsRegionField = ''amazonec2-region''"
definition awsVPCIDAnnotation :: string where
  "awsVPCIDAnnotation = ''docker-machine-operator/aws-vpc''"
definition awsSubnetIDAnnotation :: string where
  "awsSubnetIDAnnotation = ''docker-machine-operator/aws-subnet''"
definition awsInternetGatewayIDAnnotation :: string where
  "awsInternetGatewayIDAnnotation = ''docker-machine-operator/aws-gateway''"
definition awsVpcCIDR :: string where "awsVpcCIDR = ''10.1.0.0/16''"
definition allowAllIPs :: string where "allowAllIPs = ''0.0.0.0/0''"
definition defaultZone :: string where "defaultZone = ''a''"
definition regionParameter :: string where "regionParameter = ''amazonec2-region''"

definition amiIDs :: smap where
  "amiIDs =
    [(''ap-south-2'', ''ami-00680cef23a721c2a''),
     (''ap-south-1'', ''ami-0c2af51e265bd5e0e''),
     (''eu-south-1'', ''ami-05dfcfdd4f0f2620f''),
     (''eu-south-2'', ''ami-0549851bafe151f6c''),
     (''me-central-1'', ''ami-0a389865294dadfe2''),
     (''il-central-1'', ''ami-01bbc242f90fb2d97''),
     (''ca-central-1'', ''ami-048ddca51ab3229ab''),
     (''eu-central-1'', ''ami-07652eda1fbad7432''),
     (''eu-central-2'', ''ami-02871ac2c044b004f''),
     (''us-west-1'', ''ami-0ecaad63ed3668fca''),
     (''us-west-2'', ''ami-0075013580f6322a1''),
     (''af-south-1'', ''ami-0e806decb501416d7''),
     (''eu-north-1'', ''ami-07a0715df72e58928''),
     (''eu-west-3'', ''ami-0062b622072515714''),
     (''eu-west-2'', ''ami-07d20571c32ba6cdc''),
     (''eu-west-1'', ''ami-0932dacac40965a65''),
     (''ap-northeast-3'', ''ami-0a70c5266db4a6202''),
     (''ap-northeast-2'', ''ami-056a29f2eddc40520''),
     (''me-south-1'', ''ami-0674e550ebeaf53d0''),
     (''ap-northeast-1'', ''ami-0162fe8bfebb6ea16''),
     (''sa-east-1'', ''ami-01a38093d387a7497''),
     (''ap-east-1'', ''ami-01412724cbc6252ef''),
     (''ca-west-1'', ''ami-08fa6bf45a9f39b9e''),
     (''ap-southeast-1'', ''ami-0497a974f8d5dcef8''),
     (''ap-southeast-2'', ''ami-0375ab65ee943a2a6''),
     (''ap-southeast-3'', ''ami-06a2e6561950f5040''),
     (''ap-southeast-4'', ''ami-0d5de3084c18e52d9''),
     (''us-east-1'', ''ami-0a0e5d9c7acc336f1''),
     (''us-east-2'', ''ami-003932de22c285676'')]"

abbreviation anno :: "Machine \<Rightarrow> string \<Rightarrow> string" where
  "anno m k \<equiv> mget (Annotations (Meta m)) k"

text \<open>The pointers the SDK is given; a slice of strings becomes the slice of their addresses.\<close>

definition stringToP :: "string \<Rightarrow> string option" where
  [simp]: "stringToP st = Some st"

fun stringPSlice :: "string list \<Rightarrow> string option list" where
  "stringPSlice [] = []"
| "stringPSlice (s # sl) = Some s # stringPSlice sl"

abbreviation param :: "Machine \<Rightarrow> string \<Rightarrow> string" where
  "param m k \<equiv> mget (Parameters (Spec m)) k"

section \<open>Arguments for docker-machine\<close>

definition getAMIIDArg :: "string list comp" where
  "getAMIIDArg =
     andThen theObj (\<lambda>m.
     let region = param m awsRegionField
     in ret (if mget amiIDs region \<noteq> '''' then [''--amazonec2-ami'', mget amiIDs region] else []))"

definition getAnnotationsArgsForAWS :: "string list comp" where
  "getAnnotationsArgsForAWS =
     andThen theObj (\<lambda>m.
     andThen (deref (Driver (Spec m))) (\<lambda>driver.
     ret (if driver = AWSDriver
          then (if anno m awsVPCIDAnnotation \<noteq> ''''
                then [''--amazonec2-vpc-id'', anno m awsVPCIDAnnotation] else []) @
               (if anno m awsSubnetIDAnnotation \<noteq> ''''
                then [''--amazonec2-subnet-id'', anno m awsSubnetIDAnnotation] else [])
          else [])))"

section \<open>The client\<close>

definition getAWSCredentials :: "env \<Rightarrow> awsAuthCredential comp" where
  "getAWSCredentials env =
     andThen theObj (\<lambda>m.
     andThen (getSecret env (AuthSecret (Spec m))) (\<lambda>authSecret.
     if mget authSecret awsAccessKeyField = '''' \<or> mget authSecret awsSecretKeyField = ''''
     then throw (ErrorString ''auth secret not found'')
     else
       let awsCreds = \<lparr>accessKey = mget authSecret awsAccessKeyField,
             secretKey = mget authSecret awsSecretKeyField, region = param m awsRegionField\<rparr>
       in if secretKey awsCreds = '''' \<or> accessKey awsCreds = '''' \<or> region awsCreds = ''''
          then throw (ErrorString ''failed to get aws credentials or region'')
          else ret awsCreds))"

definition newAWSClientSession :: "env \<Rightarrow> awsAuthCredential comp" where
  "newAWSClientSession env =
     andThen (getAWSCredentials env) (\<lambda>cred.
     andThen (call_unit env (NewSession cred)) (\<lambda>_.
     ret cred))"

definition awsEC2Client :: "env \<Rightarrow> awsAuthCredential comp" where
  "awsEC2Client env = andThen (newAWSClientSession env) (\<lambda>sess. ret sess)"

section \<open>Routes and the internet gateway\<close>

text \<open>The loop over the route tables: the last one of the VPC is taken.\<close>

fun findRouteTable :: "string \<Rightarrow> RouteTable list \<Rightarrow> RouteTable option \<Rightarrow> RouteTable option comp" where
  "findRouteTable vpcId [] acc = ret acc"
| "findRouteTable vpcId (rt # rts) acc =
     andThen (deref (rtVpcId rt)) (\<lambda>v.
     findRouteTable vpcId rts (if v = vpcId then Some rt else acc))"

definition createAwsRoute :: "env \<Rightarrow> awsAuthCredential \<Rightarrow> string \<Rightarrow> string \<Rightarrow> unit comp" where
  "createAwsRoute env c vpcId internetGatewayID =
     andThen (perform (env_routeTables env) RRouteTables (EC2 c DescribeRouteTables)) (\<lambda>out.
     andThen (findRouteTable vpcId out None) (\<lambda>routeTable.
     case routeTable of
       None \<Rightarrow> throw (ErrorString (''no route table found in vpc '' @ vpcId))
     | Some rt \<Rightarrow> call_unit env (EC2 c (CreateRoute allowAllIPs internetGatewayID (rtRouteTableId rt)))))"

definition deleteAwsRoute :: "env \<Rightarrow> awsAuthCredential \<Rightarrow> string \<Rightarrow> unit comp" where
  "deleteAwsRoute env c vpcId =
     andThen (perform (env_routeTables env) RRouteTables (EC2 c DescribeRouteTables)) (\<lambda>out.
     andThen (findRouteTable vpcId out None) (\<lambda>routeTable.
     case routeTable of
       None \<Rightarrow> throw (ErrorString (''no route table found in vpc '' @ vpcId))
     | Some rt \<Rightarrow> call_unit env (EC2 c (DeleteRoute allowAllIPs (rtRouteTableId rt)))))"

definition attachInternetGatewayToVPC :: "env \<Rightarrow> awsAuthCredential \<Rightarrow> string \<Rightarrow> string \<Rightarrow> unit comp" where
  "attachInternetGatewayToVPC env c internetGatewayId vpcID =
     call_unit env (EC2 c (AttachInternetGateway internetGatewayId vpcID))"

definition detachInternetGatewayToVPC :: "env \<Rightarrow> awsAuthCredential \<Rightarrow> string \<Rightarrow> string \<Rightarrow> unit comp" where
  "detachInternetGatewayToVPC env c internetGatewayID vpcID =
     call_unit env (EC2 c (DetachInternetGateway internetGatewayID vpcID))"

text \<open>A deletion whose error is dropped when its text says that the thing is not there.\<close>

definition ignoreMissing :: "unit comp \<Rightarrow> unit comp" where
  "ignoreMissing del =
     andThen (attempt del) (\<lambda>r.
     case r of
       Inl err \<Rightarrow> if strings_Contains (errText err) ''does not exist'' then ret () else throw err
     | Inr _ \<Rightarrow> ret ())"

text \<open>Undoing after an error: the error is returned, joined with the error of the undoing.\<close>

definition rollback :: "gerr \<Rightarrow> unit comp \<Rightarrow> 'a comp" where
  "rollback err undo =
     andThen (attempt undo) (\<lambda>r.
     case r of Inl er \<Rightarrow> throw (JoinError err er) | Inr _ \<Rightarrow> throw err)"

definition deleteAwsInternetGateway :: "env \<Rightarrow> awsAuthCredential \<Rightarrow> string \<Rightarrow> string \<Rightarrow> unit comp" where
  "deleteAwsInternetGateway env c gatewayId vpcId =
     andThen (attempt (deleteAwsRoute env c vpcId)) (\<lambda>_.
     andThen (attempt (detachInternetGatewayToVPC env c gatewayId vpcId)) (\<lambda>_.
     ignoreMissing (call_unit env (EC2 c (DeleteInternetGateway gatewayId)))))"

definition createAwsInternetGateway :: "env \<Rightarrow> awsAuthCredential \<Rightarrow> string \<Rightarrow> unit comp" where
  "createAwsInternetGateway env c vpcId =
     andThen (call_id env (EC2 c CreateInternetGateway)) (\<lambda>out.
     andThen (deref out) (\<lambda>gateway.
     andThen (deref gateway) (\<lambda>gatewayId.
     andThen (attempt (attachInternetGatewayToVPC env c gatewayId vpcId)) (\<lambda>r.
     case r of
       Inl err \<Rightarrow> rollback err (deleteAwsInternetGateway env c gatewayId vpcId)
     | Inr _ \<Rightarrow>
         andThen (attempt (createAwsRoute env c vpcId gatewayId)) (\<lambda>r.
         case r of
           Inl err \<Rightarrow> rollback err (deleteAwsInternetGateway env c gatewayId vpcId)
         | Inr _ \<Rightarrow> patchAnnotation env awsInternetGatewayIDAnnotation gatewayId)))))"

section \<open>Subnet\<close>

definition deleteAwsSubnet :: "env \<Rightarrow> awsAuthCredential \<Rightarrow> string \<Rightarrow> unit comp" where
  "deleteAwsSubnet env c subnetId =
     andThen theObj (\<lambda>m.
     andThen
       (if anno m awsInternetGatewayIDAnnotation \<noteq> ''''
        then andThen (attempt (deleteAwsInternetGateway env c (anno m awsInternetGatewayIDAnnotation)
                 (anno m awsVPCIDAnnotation))) (\<lambda>_. ret ())
        else ret ()) (\<lambda>_.
     ignoreMissing (call_unit env (EC2 c (DeleteSubnet subnetId)))))"

definition createAwsSubnet :: "env \<Rightarrow> awsAuthCredential \<Rightarrow> string \<Rightarrow> unit comp" where
  "createAwsSubnet env c vpcID =
     andThen theObj (\<lambda>m.
     if param m regionParameter = '''' then throw (ErrorString ''region not specified'')
     else
       andThen (call_id env (EC2 c (CreateSubnet awsVpcCIDR vpcID (param m regionParameter @ defaultZone)))) (\<lambda>out.
       andThen (attempt (createAwsInternetGateway env c vpcID)) (\<lambda>r.
       andThen (deref out) (\<lambda>subnet.
       andThen (deref subnet) (\<lambda>subnetId.
       case r of
         Inl err \<Rightarrow> rollback err (deleteAwsSubnet env c subnetId)
       | Inr _ \<Rightarrow> patchAnnotation env awsSubnetIDAnnotation subnetId)))))"

section \<open>VPC\<close>

fun findVpc :: "string \<Rightarrow> Vpc list \<Rightarrow> Vpc comp" where
  "findVpc vpcId [] = throw (ErrorString (''no vpc found with id '' @ vpcId))"
| "findVpc vpcId (vpc # vpcs) =
     andThen (deref (VpcId vpc)) (\<lambda>v. if v = vpcId then ret vpc else findVpc vpcId vpcs)"

definition getVPC :: "env \<Rightarrow> awsAuthCredential \<Rightarrow> string option \<Rightarrow> Vpc comp" where
  "getVPC env c vpcId =
     andThen (deref vpcId) (\<lambda>vid.
     andThen (perform (env_vpcs env) RVpcs (EC2 c (DescribeVpcs (stringPSlice [vid])))) (\<lambda>out.
     findVpc vid out))"

text \<open>The closure that \<^verbatim>\<open>createAwsVpc\<close> polls with.\<close>

definition vpcAvailable :: "env \<Rightarrow> awsAuthCredential \<Rightarrow> string option \<Rightarrow> bool comp" where
  "vpcAvailable env c vpcId =
     andThen (getVPC env c vpcId) (\<lambda>vpc.
     andThen (deref (VpcState vpc)) (\<lambda>state.
     ret (state = ''available'')))"

fun deleteGroups :: "env \<Rightarrow> awsAuthCredential \<Rightarrow> SecurityGroup list \<Rightarrow> unit comp" where
  "deleteGroups env c [] = ret ()"
| "deleteGroups env c (sg # sgs) =
     andThen (attempt (call_unit env (EC2 c (DeleteSecurityGroup (GroupId sg))))) (\<lambda>_.
     andThen (deref (GroupId sg)) (\<lambda>_.
     deleteGroups env c sgs))"

definition deleteSecurityGroup :: "env \<Rightarrow> awsAuthCredential \<Rightarrow> string \<Rightarrow> unit comp" where
  "deleteSecurityGroup env c vpcId =
     andThen (perform (env_securityGroups env) RSecurityGroups
       (EC2 c (DescribeSecurityGroups [(''vpc-id'', stringPSlice [vpcId])]))) (\<lambda>des.
     deleteGroups env c des)"

definition deleteAwsVpc :: "env \<Rightarrow> awsAuthCredential \<Rightarrow> string \<Rightarrow> unit comp" where
  "deleteAwsVpc env c vpcID =
     andThen theObj (\<lambda>m.
     if anno m awsVPCIDAnnotation = '''' then ret ()
     else
       andThen
         (if anno m awsSubnetIDAnnotation \<noteq> ''''
          then andThen (attempt (deleteAwsSubnet env c (anno m awsSubnetIDAnnotation))) (\<lambda>_. ret ())
          else ret ()) (\<lambda>_.
       andThen (deleteSecurityGroup env c vpcID) (\<lambda>_.
       ignoreMissing (call_unit env (EC2 c (DeleteVpc vpcID))))))"

text \<open>The first half of \<^verbatim>\<open>createAwsVpc\<close>: a new VPC that became available, or the annotated one.\<close>

definition obtainVpc :: "env \<Rightarrow> awsAuthCredential \<Rightarrow> Vpc comp" where
  "obtainVpc env c =
     andThen theObj (\<lambda>m.
     if anno m awsVPCIDAnnotation = ''''
     then
       andThen (perform (env_vpc env) RVpc (EC2 c (CreateVpc awsVpcCIDR))) (\<lambda>out.
       andThen (deref out) (\<lambda>vpc.
       andThen (deref (VpcId vpc)) (\<lambda>vid.
       andThen (patchAnnotation env awsVPCIDAnnotation vid) (\<lambda>_.
       andThen (attempt (waitForState (5 * second) (1 * minute) (vpcAvailable env c (VpcId vpc)))) (\<lambda>r.
       case r of
         Inl err \<Rightarrow> rollback err (deleteAwsVpc env c vid)
       | Inr _ \<Rightarrow> ret vpc)))))
     else getVPC env c (stringToP (anno m awsVPCIDAnnotation)))"

definition createAwsVpc :: "env \<Rightarrow> awsAuthCredential \<Rightarrow> unit comp" where
  "createAwsVpc env c =
     andThen (obtainVpc env c) (\<lambda>vpc.
     andThen theObj (\<lambda>m.
     andThen (deref (VpcId vpc)) (\<lambda>vid.
     if anno m awsSubnetIDAnnotation = ''''
     then
       andThen (attempt (createAwsSubnet env c vid)) (\<lambda>r.
       case r of
         Inl err \<Rightarrow> rollback err (deleteAwsVpc env c vid)
       | Inr _ \<Rightarrow> ret ())
     else ret ())))"

definition createAWSEnvironment :: "env \<Rightarrow> unit comp" where
  "createAWSEnvironment env =
     andThen theObj (\<lambda>m.
     if anno m awsVPCIDAnnotation \<noteq> '''' \<and> anno m awsSubnetIDAnnotation \<noteq> '''' \<and>
        anno m awsInternetGatewayIDAnnotation \<noteq> ''''
     then ret ()
     else andThen (awsEC2Client env) (\<lambda>c. createAwsVpc env c))"

definition cleanupAWSResources :: "env \<Rightarrow> unit comp" where
  "cleanupAWSResources env =
     andThen (awsEC2Client env) (\<lambda>c.
     andThen theObj (\<lambda>m.
     deleteAwsVpc env c (anno m awsVPCIDAnnotation)))"

section \<open>What the operations emit\<close>

fun ec2_deletes :: "ec2call \<Rightarrow> bool" where
  "ec2_deletes DescribeRouteTables = True"
| "ec2_deletes (DeleteRoute _ _) = True"
| "ec2_deletes (DetachInternetGateway _ _) = True"
| "ec2_deletes (DeleteInternetGateway _) = True"
| "ec2_deletes (DeleteSubnet _) = True"
| "ec2_deletes (DescribeSecurityGroups _) = True"
| "ec2_deletes (DeleteSecurityGroup _) = True"
| "ec2_deletes (DeleteVpc _) = True"
| "ec2_deletes _ = False"

fun ec2_creates :: "ec2call \<Rightarrow> bool" where
  "ec2_creates (CreateVpc _) = True"
| "ec2_creates (CreateSubnet _ _ _) = True"
| "ec2_creates CreateInternetGateway = True"
| "ec2_creates _ = False"

definition teardown_event :: "awsAuthCredential \<Rightarrow> event \<Rightarrow> bool" where
  "teardown_event c e \<longleftrightarrow> (\<exists>x. evCall e = EC2 c x \<and> ec2_deletes x)"

definition aws_event :: "awsAuthCredential \<Rightarrow> event \<Rightarrow> bool" where
  "aws_event c e \<longleftrightarrow> (\<exists>x. evCall e = EC2 c x) \<or> (\<exists>d. evCall e = Sleep d) \<or>
     (\<exists>k v. k \<in> {awsVPCIDAnnotation, awsSubnetIDAnnotation, awsInternetGatewayIDAnnotation} \<and>
        meta_event (annotationTransform k v) e)"

text \<open>The events of building a client: the auth secret is read and a session opened.\<close>

fun client_event :: "event \<Rightarrow> bool" where
  "client_event (Ev (GetSecret _) _) = True"
| "client_event (Ev (NewSession _) _) = True"
| "client_event _ = False"

lemma teardown_aws_event: "teardown_event c e \<Longrightarrow> aws_event c e"
  by (auto simp: teardown_event_def aws_event_def)

lemma emits_finders [emits_intros]:
  "emits \<phi> (findRouteTable v rts acc)" "emits \<phi> (findVpc v vpcs)"
  by (induction rts arbitrary: acc, auto intro!: emits_intros)
    (induction vpcs, auto intro!: emits_intros)

lemma emits_ignoreMissing [emits_intros]: "emits \<phi> m \<Longrightarrow> emits \<phi> (ignoreMissing m)"
  unfolding ignoreMissing_def by (intro emits_intros)

lemma emits_rollback [emits_intros]: "emits \<phi> m \<Longrightarrow> emits \<phi> (rollback err m)"
  unfolding rollback_def by (intro emits_intros)

lemma emits_deleteAwsInternetGateway:
  "emits (teardown_event c) (deleteAwsInternetGateway env c gw v)"
  unfolding deleteAwsInternetGateway_def deleteAwsRoute_def detachInternetGatewayToVPC_def
  by (intro emits_intros) (simp_all add: teardown_event_def)

lemma emits_deleteAwsSubnet: "emits (teardown_event c) (deleteAwsSubnet env c sn)"
  unfolding deleteAwsSubnet_def
  by (intro emits_intros emits_deleteAwsInternetGateway) (simp_all add: teardown_event_def)

lemma emits_deleteGroups: "emits (teardown_event c) (deleteGroups env c sgs)"
  by (induction sgs) (auto intro!: emits_intros simp: teardown_event_def)

lemma deleteAwsVpc_teardown: "emits (teardown_event c) (deleteAwsVpc env c v)"
  unfolding deleteAwsVpc_def deleteSecurityGroup_def
  by (intro emits_intros emits_deleteAwsSubnet emits_deleteGroups) (simp_all add: teardown_event_def)

lemma emits_deleteAwsVpc [emits_intros]:
  "(\<And>e. teardown_event c e \<Longrightarrow> \<phi> e) \<Longrightarrow> emits \<phi> (deleteAwsVpc env c v)"
  by (rule emits_mono [OF deleteAwsVpc_teardown])

lemma aws_event_simps [simp]:
  "aws_event c (Ev (EC2 c' x) r) = (c' = c)" "aws_event c (Ev (Sleep d) r)"
  by (auto simp: aws_event_def)

lemma emits_aws_patchAnnotation:
  "k \<in> {awsVPCIDAnnotation, awsSubnetIDAnnotation, awsInternetGatewayIDAnnotation} \<Longrightarrow>
   emits (aws_event c) (patchAnnotation env k v)"
  by (rule emits_intros) (auto simp: aws_event_def)

lemma emits_createAwsInternetGateway: "emits (aws_event c) (createAwsInternetGateway env c v)"
  unfolding createAwsInternetGateway_def createAwsRoute_def attachInternetGatewayToVPC_def
  by (intro emits_intros emits_aws_patchAnnotation
      emits_mono [OF emits_deleteAwsInternetGateway teardown_aws_event]) simp_all

lemma emits_createAwsSubnet: "emits (aws_event c) (createAwsSubnet env c v)"
  unfolding createAwsSubnet_def
  by (intro emits_intros emits_aws_patchAnnotation emits_createAwsInternetGateway
      emits_mono [OF emits_deleteAwsSubnet teardown_aws_event]) simp_all

lemma emits_vpcAvailable: "emits (\<lambda>e. \<exists>ids. evCall e = EC2 c (DescribeVpcs ids)) (vpcAvailable env c v)"
  unfolding vpcAvailable_def getVPC_def by (intro emits_intros) auto

lemma emits_obtainVpc: "emits (aws_event c) (obtainVpc env c)"
  unfolding obtainVpc_def getVPC_def
  by (intro emits_intros emits_aws_patchAnnotation emits_mono [OF emits_vpcAvailable])
    (auto simp: aws_event_def teardown_event_def)

lemma createAwsVpc_aws: "emits (aws_event c) (createAwsVpc env c)"
  unfolding createAwsVpc_def
  by (intro emits_intros emits_obtainVpc emits_createAwsSubnet teardown_aws_event)

lemma emits_awsEC2Client [emits_intros]:
  "(\<And>e. client_event e \<Longrightarrow> \<phi> e) \<Longrightarrow> emits \<phi> (awsEC2Client env)"
  unfolding awsEC2Client_def newAWSClientSession_def getAWSCredentials_def Let_def
  by (intro emits_intros) auto

lemma emits_createAWSEnvironment [emits_intros]:
  assumes "\<And>e. client_event e \<Longrightarrow> \<phi> e" and "\<And>c e. aws_event c e \<Longrightarrow> \<phi> e"
  shows "emits \<phi> (createAWSEnvironment env)"
  unfolding createAWSEnvironment_def
  by (intro emits_intros emits_mono [OF createAwsVpc_aws]) (use assms in auto)

lemma emits_cleanupAWSResources [emits_intros]:
  assumes "\<And>e. client_event e \<Longrightarrow> \<phi> e" and "\<And>c e. teardown_event c e \<Longrightarrow> \<phi> e"
  shows "emits \<phi> (cleanupAWSResources env)"
  unfolding cleanupAWSResources_def by (intro emits_intros) (use assms in auto)

lemma emits_aws_args [emits_intros]: "emits \<phi> getAMIIDArg" "emits \<phi> getAnnotationsArgsForAWS"
  unfolding getAMIIDArg_def getAnnotationsArgsForAWS_def Let_def by (intro emits_intros)+

section \<open>Teardown\<close>

lemma same_obj_finders [same_obj_intros]:
  "same_obj (findRouteTable v rts acc)" "same_obj (findVpc v vpcs)" "same_obj (deleteGroups env c sgs)"
proof -
  show "same_obj (findRouteTable v rts acc)" by (induction rts arbitrary: acc) (auto intro!: same_obj_intros)
  show "same_obj (findVpc v vpcs)" by (induction vpcs) (auto intro!: same_obj_intros)
  show "same_obj (deleteGroups env c sgs)" by (induction sgs) (auto intro!: same_obj_intros)
qed

lemma same_obj_teardown [same_obj_intros]:
  "same_obj (deleteAwsInternetGateway env c gw v)" "same_obj (deleteAwsSubnet env c sn)"
  "same_obj (deleteAwsVpc env c v)"
  unfolding deleteAwsVpc_def deleteAwsSubnet_def deleteAwsInternetGateway_def deleteAwsRoute_def
    detachInternetGatewayToVPC_def deleteSecurityGroup_def ignoreMissing_def
  by (intro same_obj_intros)+

lemma same_obj_client [same_obj_intros]: "same_obj (awsEC2Client env)"
  unfolding awsEC2Client_def newAWSClientSession_def getAWSCredentials_def getSecret_def Let_def
  by (intro same_obj_intros)

text \<open>A reply that says the thing is gone: success, or an error the code takes for that.\<close>

fun gone :: "gerr + reply \<Rightarrow> bool" where
  "gone (Inr _) = True"
| "gone (Inl e) = strings_Contains (errText e) ''does not exist''"

lemma ignoreMissing_run:
  "ignoreMissing (call_unit env c) s =
     (let r = env_unit env (trace s) c; t = s\<lparr>trace := Ev c (map_sum id (\<lambda>_. RUnit) r) # trace s\<rparr>
      in case r of Inr _ \<Rightarrow> (Ok (), t) | Inl e \<Rightarrow> if gone (Inl e) then (Ok (), t) else (Err e, t))"
  by (cases "env_unit env (trace s) c") (simp_all add: ignoreMissing_def run_simps call_defs)

lemma ignoreMissing_Ok:
  assumes "ignoreMissing (call_unit env c) s = (Ok (), t)"
  obtains r where "trace t = Ev c r # trace s" "gone r"
  using assms by (auto simp: ignoreMissing_run Let_def split: sum.splits if_splits)

text \<open>A successful teardown of an annotated VPC ends with the VPC gone; the object is untouched.\<close>

lemma deleteAwsVpc_Ok:
  assumes "machineObj s = Some m" and "anno m awsVPCIDAnnotation \<noteq> ''''"
    and "deleteAwsVpc env c v s = (Ok (), t)"
  obtains r h where "trace t = Ev (EC2 c (DeleteVpc v)) r # h" "gone r"
  using assms unfolding deleteAwsVpc_def
  by (auto simp: run_simps elim!: andThen_cases ignoreMissing_Ok)

lemma deleteAwsVpc_no_annotation:
  "machineObj s = Some m \<Longrightarrow> anno m awsVPCIDAnnotation = '''' \<Longrightarrow> deleteAwsVpc env c v s = (Ok (), s)"
  by (simp add: deleteAwsVpc_def run_simps)

section \<open>Order of the teardown\<close>

fun ec2_rank :: "ec2call \<Rightarrow> nat" where
  "ec2_rank DescribeRouteTables = 0"
| "ec2_rank (DeleteRoute _ _) = 1"
| "ec2_rank (DetachInternetGateway _ _) = 2"
| "ec2_rank (DeleteInternetGateway _) = 3"
| "ec2_rank (DeleteSubnet _) = 4"
| "ec2_rank (DescribeSecurityGroups _) = 5"
| "ec2_rank (DeleteSecurityGroup _) = 6"
| "ec2_rank (DeleteVpc _) = 7"
| "ec2_rank _ = 8"

fun teardown_rank :: "event \<Rightarrow> nat" where
  "teardown_rank (Ev (EC2 _ x) _) = ec2_rank x"
| "teardown_rank _ = 8"

abbreviation teardown_ordered :: "nat \<Rightarrow> nat \<Rightarrow> 'a comp \<Rightarrow> bool" where
  "teardown_ordered lo hi m \<equiv> ranked teardown_rank lo hi m"

lemma ranked_ec2:
  "ec2_rank x = k \<Longrightarrow> lo \<le> k \<Longrightarrow> k \<le> hi \<Longrightarrow> teardown_ordered lo hi (call_unit env (EC2 c x))"
  by (rule ranked_single [where k = k]) (auto intro!: emits_intros)

lemma ranked_ignoreMissing:
  "teardown_ordered lo hi m \<Longrightarrow> lo \<le> hi \<Longrightarrow> teardown_ordered lo hi (ignoreMissing m)"
  unfolding ignoreMissing_def
  by (rule ranked_andThen [where mid = hi and mid' = hi] ranked_attempt ranked_basic ranked_splits | simp)+

lemma ranked_deleteAwsRoute: "teardown_ordered 0 1 (deleteAwsRoute env c v)"
  unfolding deleteAwsRoute_def
proof (rule ranked_andThen [where mid = 0 and mid' = 1])
  show "teardown_ordered 0 0 (perform (env_routeTables env) RRouteTables (EC2 c DescribeRouteTables))"
    by (rule ranked_single [where k = 0]) (auto intro!: emits_intros)
  show "teardown_ordered 1 1 (andThen (findRouteTable v out None) (\<lambda>routeTable. case routeTable of
       None \<Rightarrow> throw (ErrorString (''no route table found in vpc '' @ v))
     | Some rt \<Rightarrow> call_unit env (EC2 c (DeleteRoute allowAllIPs (rtRouteTableId rt)))))" for out
    by (rule ranked_single [where k = 1]) (auto intro!: emits_intros)
qed simp_all

lemma ranked_deleteAwsInternetGateway: "teardown_ordered 0 3 (deleteAwsInternetGateway env c gw v)"
  unfolding deleteAwsInternetGateway_def detachInternetGatewayToVPC_def
  by (rule ranked_andThen [where mid = 1 and mid' = 2] ranked_attempt ranked_deleteAwsRoute
      ranked_andThen [where mid = 2 and mid' = 3] ranked_ignoreMissing ranked_ec2 | simp)+

lemma ranked_optional:
  "teardown_ordered lo hi m \<Longrightarrow> lo \<le> hi \<Longrightarrow>
   teardown_ordered lo hi (if b then andThen (attempt m) (\<lambda>_. ret ()) else ret ())"
  by (rule ranked_andThen [where mid = hi and mid' = hi] ranked_attempt ranked_basic ranked_splits | simp)+

lemma ranked_obj: "(\<And>m. teardown_ordered lo hi (f m)) \<Longrightarrow> teardown_ordered lo hi (andThen theObj f)"
  by (auto simp: ranked_def andThen_def theObj_def split: option.splits intro: exI [of _ "[]"])

lemma ranked_deleteAwsSubnet: "teardown_ordered 0 4 (deleteAwsSubnet env c sn)"
  unfolding deleteAwsSubnet_def
  by (rule ranked_obj ranked_andThen [where mid = 3 and mid' = 4] ranked_optional
      ranked_deleteAwsInternetGateway ranked_ignoreMissing ranked_ec2 | simp)+

lemma ranked_deleteSecurityGroup: "teardown_ordered 5 6 (deleteSecurityGroup env c v)"
  unfolding deleteSecurityGroup_def
proof (rule ranked_andThen [where mid = 5 and mid' = 6])
  show "teardown_ordered 5 5 (perform (env_securityGroups env) RSecurityGroups
     (EC2 c (DescribeSecurityGroups [(''vpc-id'', stringPSlice [v])])))"
    by (rule ranked_single [where k = 5]) (auto intro!: emits_intros)
  have "emits (\<lambda>e. teardown_rank e = 6) (deleteGroups env c des)" for des
    by (induction des) (auto intro!: emits_intros)
  then show "teardown_ordered 6 6 (deleteGroups env c des)" for des
    by (rule ranked_single) simp_all
qed simp_all

lemma ranked_deleteAwsVpc: "teardown_ordered 0 7 (deleteAwsVpc env c v)"
proof -
  have body: "teardown_ordered 0 7
      (andThen (if anno m awsSubnetIDAnnotation \<noteq> ''''
          then andThen (attempt (deleteAwsSubnet env c (anno m awsSubnetIDAnnotation))) (\<lambda>_. ret ())
          else ret ()) (\<lambda>_.
       andThen (deleteSecurityGroup env c v) (\<lambda>_.
       ignoreMissing (call_unit env (EC2 c (DeleteVpc v))))))" for m
    by (rule ranked_andThen [where mid = 4 and mid' = 5] ranked_optional ranked_deleteAwsSubnet
        ranked_andThen [where mid = 6 and mid' = 7] ranked_deleteSecurityGroup ranked_ignoreMissing ranked_ec2 | simp)+
  show ?thesis unfolding deleteAwsVpc_def
    by (intro ranked_obj ranked_splits(1) body ranked_basic)
qed

section \<open>The client's credentials\<close>

text \<open>What credentials a client is made of: the auth secret's keys and the machine's region.\<close>

definition creds_of :: "Machine \<Rightarrow> secret \<Rightarrow> awsAuthCredential" where
  "creds_of m d = \<lparr>accessKey = mget d awsAccessKeyField, secretKey = mget d awsSecretKeyField,
     region = param m awsRegionField\<rparr>"

definition complete_creds :: "awsAuthCredential \<Rightarrow> bool" where
  "complete_creds c \<longleftrightarrow> accessKey c \<noteq> '''' \<and> secretKey c \<noteq> '''' \<and> region c \<noteq> ''''"

lemma awsEC2Client_run:
  assumes "machineObj s = Some m" and "AuthSecret (Spec m) = Some ref"
  shows "awsEC2Client env s =
    (case env_secret env (trace s) (GetSecret (ObjectKey ref)) of
       Inl e \<Rightarrow> (Err e, s\<lparr>trace := Ev (GetSecret (ObjectKey ref)) (Inl e) # trace s\<rparr>)
     | Inr d \<Rightarrow>
         let h = Ev (GetSecret (ObjectKey ref)) (Inr (RSecret d)) # trace s; c = creds_of m d
         in if accessKey c = '''' \<or> secretKey c = ''''
            then (Err (ErrorString ''auth secret not found''), s\<lparr>trace := h\<rparr>)
            else if region c = ''''
            then (Err (ErrorString ''failed to get aws credentials or region''), s\<lparr>trace := h\<rparr>)
            else case env_unit env h (NewSession c) of
                Inl e \<Rightarrow> (Err e, s\<lparr>trace := Ev (NewSession c) (Inl e) # h\<rparr>)
              | Inr _ \<Rightarrow> (Ok c, s\<lparr>trace := Ev (NewSession c) (Inr RUnit) # h\<rparr>))"
  using assms
  by (auto simp: awsEC2Client_def newAWSClientSession_def getAWSCredentials_def getSecret_def call_defs
      perform_def andThen_def run_simps Let_def creds_of_def split: sum.splits)

lemma awsEC2Client_Ok:
  assumes "awsEC2Client env s = (Ok c, t)" and "machineObj s = Some m"
  obtains ref d where "AuthSecret (Spec m) = Some ref" "c = creds_of m d" "complete_creds c"
    "t = s\<lparr>trace := Ev (NewSession c) (Inr RUnit) # Ev (GetSecret (ObjectKey ref)) (Inr (RSecret d)) # trace s\<rparr>"
proof (cases "AuthSecret (Spec m)")
  case None
  then show thesis using assms
    by (simp add: awsEC2Client_def newAWSClientSession_def getAWSCredentials_def getSecret_def run_simps
        andThen_def theObj_def)
next
  case (Some ref)
  then show thesis using assms that
    by (auto simp: awsEC2Client_run [OF assms(2) Some] complete_creds_def Let_def split: sum.splits if_splits)
qed

section \<open>Rollback\<close>

lemma rollback_run:
  "rollback err undo s = (case undo s of
     (Ok _, t) \<Rightarrow> (Err err, t) | (Err er, t) \<Rightarrow> (Err (JoinError err er), t)
   | (Panic, t) \<Rightarrow> (Panic, t) | (Hang, t) \<Rightarrow> (Hang, t))"
  by (auto simp: rollback_def andThen_def attempt_def run_simps split: prod.splits res.splits)

text \<open>Deleting a gateway always gets as far as the deletion call, unless a route table has no VPC id.\<close>

lemma deleteAwsInternetGateway_attempts:
  assumes "deleteAwsInternetGateway env c gw v s = (r, t)" and "r \<noteq> Panic"
  shows "\<exists>x h. trace t = Ev (EC2 c (DeleteInternetGateway gw)) x # h"
proof -
  have nh: "deleteAwsRoute env c v s' \<noteq> (Hang, t')" for s' t'
  proof -
    have "findRouteTable v rts acc s' \<noteq> (Hang, t')" for rts acc s' t'
      by (induction rts arbitrary: acc) (auto simp: run_simps deref_def andThen_def split: option.splits)
    then show ?thesis
      by (auto simp: deleteAwsRoute_def call_defs perform_def run_simps elim!: andThen_cases
          split: sum.splits option.splits)
  qed
  have last: "\<exists>x h. trace t = Ev (EC2 c (DeleteInternetGateway gw)) x # h"
    if "ignoreMissing (call_unit env (EC2 c (DeleteInternetGateway gw))) s' = (r, t)" for s'
    using that by (auto simp: ignoreMissing_run Let_def split: sum.splits if_splits)
  show ?thesis
    using assms last unfolding deleteAwsInternetGateway_def detachInternetGatewayToVPC_def
    by (auto simp: attempt_def nh elim!: andThen_cases split: prod.splits res.splits)
qed

text \<open>
  A gateway whose set-up fails is either recorded in the annotation patch that was attempted, or
  its deletion is attempted.
\<close>

lemma createAwsInternetGateway_rollback:
  assumes "createAwsInternetGateway env c v s = (Err e, t)"
    and "env_id env (trace s) (EC2 c CreateInternetGateway) = Inr (Some (Some gw))"
  shows "(\<exists>x. hd (trace t) = Ev (EC2 c (DeleteInternetGateway gw)) x) \<or>
    (\<exists>h'. patchAnnotation env awsInternetGatewayIDAnnotation gw h' = (Err e, t))"
proof -
  have undo: "\<exists>x. hd (trace t) = Ev (EC2 c (DeleteInternetGateway gw)) x"
    if "rollback err (deleteAwsInternetGateway env c gw v) s' = (Err e, t)" for err s'
    using that deleteAwsInternetGateway_attempts [of env c gw v s']
    by (fastforce simp: rollback_run split: prod.splits res.splits)
  show ?thesis
    using assms undo unfolding createAwsInternetGateway_def
    by (auto simp: call_id_def run_simps elim!: andThen_cases split: sum.splits)
qed

section \<open>Soundness\<close>

text \<open>What the operator relies on of the AWS SDK: successful answers have their ids and states set.\<close>

definition sdk_nonnil :: "env \<Rightarrow> bool" where
  "sdk_nonnil env \<longleftrightarrow>
     (\<forall>h c o'. env_id env h c = Inr o' \<longrightarrow> (\<exists>i. o' = Some (Some i))) \<and>
     (\<forall>h c rts. env_routeTables env h c = Inr rts \<longrightarrow> (\<forall>rt \<in> set rts. rtVpcId rt \<noteq> None)) \<and>
     (\<forall>h c vs. env_vpcs env h c = Inr vs \<longrightarrow> (\<forall>v \<in> set vs. VpcId v \<noteq> None \<and> VpcState v \<noteq> None)) \<and>
     (\<forall>h c o'. env_vpc env h c = Inr o' \<longrightarrow> (\<exists>v. o' = Some v \<and> VpcId v \<noteq> None)) \<and>
     (\<forall>h c sgs. env_securityGroups env h c = Inr sgs \<longrightarrow> (\<forall>sg \<in> set sgs. GroupId sg \<noteq> None))"

lemma sound_sdk [sound_intros]:
  assumes "sdk_nonnil env"
  shows "sound (\<lambda>o'. \<exists>i. o' = Some (Some i)) (call_id env c)"
    "sound (\<lambda>rts. \<forall>rt \<in> set rts. rtVpcId rt \<noteq> None) (perform (env_routeTables env) RRouteTables c)"
    "sound (\<lambda>vs. \<forall>v \<in> set vs. VpcId v \<noteq> None \<and> VpcState v \<noteq> None) (perform (env_vpcs env) RVpcs c)"
    "sound (\<lambda>o'. \<exists>v. o' = Some v \<and> VpcId v \<noteq> None) (perform (env_vpc env) RVpc c)"
    "sound (\<lambda>sgs. \<forall>sg \<in> set sgs. GroupId sg \<noteq> None) (perform (env_securityGroups env) RSecurityGroups c)"
  unfolding call_id_def using assms unfolding sdk_nonnil_def by (intro sound_perform; blast)+

lemma sound_findRouteTable [sound_intros]:
  "\<forall>rt \<in> set rts. rtVpcId rt \<noteq> None \<Longrightarrow> sound (\<lambda>_. True) (findRouteTable v rts acc)"
  by (induction rts arbitrary: acc) (simp, (rule sound_intros | simp)+)

lemma sound_findVpc [sound_intros]:
  "\<forall>v \<in> set vs. VpcId v \<noteq> None \<and> VpcState v \<noteq> None \<Longrightarrow>
   sound (\<lambda>v. VpcId v \<noteq> None \<and> VpcState v \<noteq> None) (findVpc vid vs)"
  by (induction vs) (simp, (rule sound_intros | simp)+)

lemma sound_deleteGroups [sound_intros]:
  "\<forall>sg \<in> set sgs. GroupId sg \<noteq> None \<Longrightarrow> sound (\<lambda>_. True) (deleteGroups env c sgs)"
  by (induction sgs) (simp, (rule sound_intros | simp)+)

lemma sound_ignoreMissing [sound_intros]: "sound (\<lambda>_. True) m \<Longrightarrow> sound (\<lambda>_. True) (ignoreMissing m)"
  unfolding ignoreMissing_def by (rule sound_intros | simp)+

lemma sound_rollback [sound_intros]: "sound (\<lambda>_. True) m \<Longrightarrow> sound R (rollback err m)"
  unfolding rollback_def by (rule sound_intros | simp)+

lemma sound_optional:
  "sound (\<lambda>_. True) m \<Longrightarrow> sound (\<lambda>_. True) (if b then andThen (attempt m) (\<lambda>_. ret ()) else ret ())"
  by (rule sound_intros | simp)+

lemma sound_getVPC [sound_intros]:
  "sdk_nonnil env \<Longrightarrow> v \<noteq> None \<Longrightarrow>
   sound (\<lambda>v. VpcId v \<noteq> None \<and> VpcState v \<noteq> None) (getVPC env c v)"
  unfolding getVPC_def by (rule sound_intros | simp)+

lemma sound_vpcAvailable [sound_intros]:
  "sdk_nonnil env \<Longrightarrow> v \<noteq> None \<Longrightarrow> sound (\<lambda>_. True) (vpcAvailable env c v)"
  unfolding vpcAvailable_def by (rule sound_intros | simp)+

text \<open>The availability check as a probe, and the waiting it makes sound.\<close>

interpretation vpc_probe: prober "vpcAvailable env c (Some v)"
    "\<lambda>e. \<exists>ids. evCall e = EC2 c (DescribeVpcs ids)" "\<lambda>s. sdk_nonnil env \<and> good_obj s" for env c v
proof
  show "emits (\<lambda>e. \<exists>ids. evCall e = EC2 c (DescribeVpcs ids)) (vpcAvailable env c (Some v))"
    by (rule emits_vpcAvailable)
  show "r \<noteq> Hang \<and> r \<noteq> Panic" and "sdk_nonnil env \<and> good_obj t"
    if "sdk_nonnil env \<and> good_obj s" "vpcAvailable env c (Some v) s = (r, t)" for s r t
    using that soundD [OF sound_vpcAvailable [of env "Some v" c], of s r t] by auto
  show "sdk_nonnil env \<and> good_obj (snd (time_Sleep d s))" if "sdk_nonnil env \<and> good_obj s" for s d
    using that by (auto simp: time_Sleep_def good_obj_def)
qed

lemma sound_waitForVpc [sound_intros]:
  assumes "sdk_nonnil env" and "v \<noteq> None"
  shows "sound (\<lambda>_. True) (waitForState (5 * second) (1 * minute) (vpcAvailable env c v))"
  unfolding sound_def
proof (rule hoareI)
  fix s :: st assume s: "good_obj s"
  obtain v' where v: "v = Some v'" using assms(2) by blast
  note vpc_probe.wait_ends [of "5 * second" "1 * minute" env s c v']
  then show "good_obj (snd (waitForState (5 * second) (1 * minute) (vpcAvailable env c v) s)) \<and>
    fst (waitForState (5 * second) (1 * minute) (vpcAvailable env c v) s) \<noteq> Panic \<and>
    fst (waitForState (5 * second) (1 * minute) (vpcAvailable env c v) s) \<noteq> Hang \<and>
    (\<forall>a. fst (waitForState (5 * second) (1 * minute) (vpcAvailable env c v) s) = Ok a \<longrightarrow> True)"
    using s assms(1) v by (simp add: second_def minute_def)
qed

lemma sound_gateway [sound_intros]:
  assumes "sdk_nonnil env"
  shows "sound (\<lambda>_. True) (createAwsRoute env c v gw)" "sound (\<lambda>_. True) (deleteAwsInternetGateway env c gw v)"
    "sound (\<lambda>_. True) (attachInternetGatewayToVPC env c gw v)"
  unfolding deleteAwsInternetGateway_def createAwsRoute_def deleteAwsRoute_def
    attachInternetGatewayToVPC_def detachInternetGatewayToVPC_def
  by (rule sound_intros assms | simp)+

lemma sound_teardown [sound_intros]:
  assumes "sdk_nonnil env"
  shows "sound (\<lambda>_. True) (deleteAwsSubnet env c sn)" "sound (\<lambda>_. True) (deleteSecurityGroup env c v)"
  unfolding deleteAwsSubnet_def deleteSecurityGroup_def by (rule sound_optional sound_intros assms | simp)+

lemma sound_deleteAwsVpc [sound_intros]:
  "sdk_nonnil env \<Longrightarrow> sound (\<lambda>_. True) (deleteAwsVpc env c v)"
  unfolding deleteAwsVpc_def by (rule sound_optional sound_intros | simp)+

lemma sound_createAwsInternetGateway [sound_intros]:
  "sdk_nonnil env \<Longrightarrow> server_specified env \<Longrightarrow> sound (\<lambda>_. True) (createAwsInternetGateway env c v)"
  unfolding createAwsInternetGateway_def by (rule sound_intros | fastforce)+

lemma sound_createAwsSubnet [sound_intros]:
  "sdk_nonnil env \<Longrightarrow> server_specified env \<Longrightarrow> sound (\<lambda>_. True) (createAwsSubnet env c v)"
  unfolding createAwsSubnet_def by (rule sound_intros | fastforce)+

lemma sound_obtainVpc [sound_intros]:
  "sdk_nonnil env \<Longrightarrow> server_specified env \<Longrightarrow> sound (\<lambda>v. VpcId v \<noteq> None) (obtainVpc env c)"
  unfolding obtainVpc_def by (rule sound_intros sound_weak [OF sound_getVPC] | fastforce)+

lemma sound_getAWSCredentials [sound_intros]: "sound (\<lambda>_. True) (getAWSCredentials env)"
  unfolding getAWSCredentials_def Let_def by (rule sound_intros | simp add: specified_def)+

lemma sound_newAWSClientSession [sound_intros]: "sound (\<lambda>_. True) (newAWSClientSession env)"
  unfolding newAWSClientSession_def by (rule sound_intros | simp)+

lemma sound_awsEC2Client [sound_intros]: "sound (\<lambda>_. True) (awsEC2Client env)"
  unfolding awsEC2Client_def by (rule sound_intros | simp)+

lemma sound_aws_args [sound_intros]:
  "sound (\<lambda>_. True) getAMIIDArg" "sound (\<lambda>_. True) getAnnotationsArgsForAWS"
  unfolding getAMIIDArg_def getAnnotationsArgsForAWS_def Let_def
  by (rule sound_intros | simp add: specified_def)+

lemma sound_aws [sound_intros]:
  assumes "sdk_nonnil env" and "server_specified env"
  shows "sound (\<lambda>_. True) (createAWSEnvironment env)" "sound (\<lambda>_. True) (cleanupAWSResources env)"
  unfolding createAWSEnvironment_def createAwsVpc_def cleanupAWSResources_def
  by (rule sound_intros assms | simp)+

end
