(* ===== verification/Azure.thy ===== *)
theory Azure
  imports Aws
begin

text \<open>
  The Azure side of the operator (\<^verbatim>\<open>azure.go\<close>): credentials from the auth secret and the
  deletion of a machine's resource group, begun and polled until it is done.
\<close>

section \<open>Operations\<close>

definition azureSubscriptionIDKeyField :: string where
  "azureSubscriptionIDKeyField = ''azure-subscription-id''"
definition azureTenantIDKeyField :: string where "azureTenantIDKeyField = ''azure-tenant-id''"
definition azureClientIDKeyField :: string where "azureClientIDKeyField = ''azure-client-id''"
definition azureClientSecretKeyField :: string where
  "azureClientSecretKeyField = ''azure-client-secret''"
definition azureResourceGroupParam :: string where
  "azureResourceGroupParam = ''azure-resource-group''"
definition defaultAzureResourceGroup :: string where
  "defaultAzureResourceGroup = ''docker-machine''"

definition getAzureCredential :: "env \<Rightarrow> AzureCredential comp" where
  "getAzureCredential env =
     andThen theObj (\<lambda>m.
     andThen (getSecret env (AuthSecret (Spec m))) (\<lambda>authSecret.
     if mget authSecret azureSubscriptionIDKeyField = '''' \<or>
        mget authSecret azureTenantIDKeyField = '''' \<or>
        mget authSecret azureClientIDKeyField = '''' \<or>
        mget authSecret azureClientSecretKeyField = ''''
     then throw (ErrorString ''auth secret not found'')
     else ret \<lparr>ClientID = mget authSecret azureClientIDKeyField,
       ClientSecret = mget authSecret azureClientSecretKeyField,
       TenantID = mget authSecret azureTenantIDKeyField,
       SubscriptionID = mget authSecret azureSubscriptionIDKeyField\<rparr>))"

definition resourceGroupOf :: "smap \<Rightarrow> string" where
  "resourceGroupOf params =
     (case map_of params azureResourceGroupParam of
        None \<Rightarrow> defaultAzureResourceGroup
      | Some rgName \<Rightarrow> rgName)"

definition getResourceGroupName :: "string comp" where
  "getResourceGroupName = andThen theObj (\<lambda>m. ret (resourceGroupOf (Parameters (Spec m))))"

definition deleteAzureResourceGroup :: "env \<Rightarrow> unit comp" where
  "deleteAzureResourceGroup env =
     andThen theObj (\<lambda>_.
     andThen (getAzureCredential env) (\<lambda>azureCred.
     andThen (call_unit env (NewClientSecretCredential (TenantID azureCred) (ClientID azureCred)
       (ClientSecret azureCred))) (\<lambda>_.
     andThen (call_unit env (NewResourceGroupsClient (SubscriptionID azureCred))) (\<lambda>_.
     andThen getResourceGroupName (\<lambda>resourceGroupName.
     andThen (call_unit env (BeginDelete azureCred resourceGroupName)) (\<lambda>_.
     call_unit env (PollUntilDone azureCred resourceGroupName)))))))"

section \<open>Facts\<close>

text \<open>The events of a resource group deletion.\<close>

fun azure_event :: "event \<Rightarrow> bool" where
  "azure_event (Ev (GetSecret _) _) = True"
| "azure_event (Ev (NewClientSecretCredential _ _ _) _) = True"
| "azure_event (Ev (NewResourceGroupsClient _) _) = True"
| "azure_event (Ev (BeginDelete _ _) _) = True"
| "azure_event (Ev (PollUntilDone _ _) _) = True"
| "azure_event _ = False"

lemma emits_deleteAzureResourceGroup [emits_intros]:
  "(\<And>e. azure_event e \<Longrightarrow> \<phi> e) \<Longrightarrow> emits \<phi> (deleteAzureResourceGroup env)"
  unfolding deleteAzureResourceGroup_def getAzureCredential_def getResourceGroupName_def
  by (intro emits_intros) auto

lemma same_obj_azure [same_obj_intros]: "same_obj (deleteAzureResourceGroup env)"
  unfolding deleteAzureResourceGroup_def getAzureCredential_def getResourceGroupName_def getSecret_def
  by (intro same_obj_intros)

lemma sound_getAzureCredential [sound_intros]: "sound (\<lambda>_. True) (getAzureCredential env)"
  unfolding getAzureCredential_def by (rule sound_intros | simp add: specified_def)+

lemma sound_getResourceGroupName [sound_intros]: "sound (\<lambda>_. True) getResourceGroupName"
  unfolding getResourceGroupName_def by (rule sound_intros | simp)+

lemma sound_deleteAzureResourceGroup [sound_intros]: "sound (\<lambda>_. True) (deleteAzureResourceGroup env)"
  unfolding deleteAzureResourceGroup_def by (rule sound_intros | simp)+

text \<open>A deletion that returns without an error has polled the machine's group to the end.\<close>

lemma call_unit_Ok: "call_unit env c s = (Ok x, t) \<longleftrightarrow>
   env_unit env (trace s) c = Inr x \<and> t = s\<lparr>trace := Ev c (Inr RUnit) # trace s\<rparr>"
  by (auto simp: call_defs perform_def split: sum.splits)

lemma deleteAzureResourceGroup_Ok:
  assumes "machineObj s = Some m" and "deleteAzureResourceGroup env s = (Ok (), t)"
  obtains cred h where
    "trace t = Ev (PollUntilDone cred (resourceGroupOf (Parameters (Spec m)))) (Inr RUnit) # h"
proof -
  have "same_obj (getAzureCredential env)"
    unfolding getAzureCredential_def getSecret_def by (intro same_obj_intros)
  then show thesis
    using assms that unfolding deleteAzureResourceGroup_def getResourceGroupName_def
    by (auto simp: run_simps call_unit_Ok dest: same_objD elim!: andThen_cases)
qed

end
