(* ===== verification/Machine_Ops.thy ===== *)
theory Machine_Ops
  imports Azure
begin

text \<open>
  Creating a machine (\<^verbatim>\<open>machine.go\<close>): the prerequisites, the arguments of
  \<^verbatim>\<open>docker-machine create\<close> from the machine's parameters, the startup script and the auth
  secret, and the command itself with the conditions that record its progress.
\<close>

section \<open>Operations\<close>

definition machineCreationTimeout :: int where "machineCreationTimeout = 15 * minute"

definition tempDirectory :: string where "tempDirectory = ''tmp''"

definition scriptPath :: "string \<Rightarrow> string \<Rightarrow> string" where
  "scriptPath namespace name = ''/'' @ tempDirectory @ ''/'' @ namespace @ ''-'' @ name @ ''-startup.sh''"

definition getScriptFilePath :: "string comp" where
  "getScriptFilePath = andThen theObj (\<lambda>m. ret (scriptPath (Namespace (Meta m)) (Name (Meta m))))"

definition createPrerequisitesForMachine :: "env \<Rightarrow> unit comp" where
  "createPrerequisitesForMachine env =
     andThen theObj (\<lambda>m.
     andThen (deref (Driver (Spec m))) (\<lambda>driver.
     if driver = AWSDriver then createAWSEnvironment env else ret ()))"

text \<open>The loop over the secret's data; the driver is dereferenced in the loop's body.\<close>

fun authArgsLoop :: "string option \<Rightarrow> secret \<Rightarrow> string list \<Rightarrow> string list comp" where
  "authArgsLoop driver [] authArgs = ret authArgs"
| "authArgsLoop driver ((key, val) # rest) authArgs =
     andThen (deref driver) (\<lambda>d.
     let data = (if d = GoogleDriver then base64_EncodeToString val else val)
     in if data = '''' \<or> key = '''' then throw (ErrorString ''auth secret not found'')
        else authArgsLoop driver rest (authArgs @ [''--'' @ key, data]))"

definition getAuthSecretArgs :: "env \<Rightarrow> string list comp" where
  "getAuthSecretArgs env =
     andThen theObj (\<lambda>m.
     andThen (getSecret env (AuthSecret (Spec m))) (\<lambda>authSecret.
     authArgsLoop (Driver (Spec m)) authSecret []))"

text \<open>The loop that picks the first entry with a non-empty key, else keeps the last entry seen.\<close>

fun pickUserData :: "secret \<Rightarrow> string \<times> string \<Rightarrow> string \<times> string" where
  "pickUserData [] acc = acc"
| "pickUserData ((key, val) # rest) acc = (if key \<noteq> '''' then (key, val) else pickUserData rest (key, val))"

text \<open>The arguments for a startup script, which is written to its file unless the file is there.\<close>

definition scriptArgsFrom :: "env \<Rightarrow> secret \<Rightarrow> string list comp" where
  "scriptArgsFrom env scriptSecret =
     andThen getScriptFilePath (\<lambda>filePath.
     case pickUserData scriptSecret ('''', '''') of (userDataKey, userDataValue) \<Rightarrow>
     if userDataKey = '''' \<or> userDataValue = '''' then throw (ErrorString ''script data not found'')
     else
       let scriptArgs = [''--'' @ userDataKey, filePath]
       in andThen (attempt (call_unit env (StatFile filePath))) (\<lambda>stat.
          case stat of
            Inr _ \<Rightarrow> ret scriptArgs
          | Inl err \<Rightarrow>
              if \<not> os_IsNotExist err then throw err
              else andThen (call_unit env (WriteFile filePath userDataValue)) (\<lambda>_. ret scriptArgs)))"

definition getStartupScriptArgs :: "env \<Rightarrow> string list comp" where
  "getStartupScriptArgs env =
     andThen theObj (\<lambda>m.
     andThen (getSecret env (ScriptRef (Spec m))) (\<lambda>scriptSecret.
     scriptArgsFrom env scriptSecret))"

definition paramArgs :: "smap \<Rightarrow> string list" where
  "paramArgs params = concat (map (\<lambda>(k, v). [''--'' @ k, v]) params)"

definition scriptArgsStep :: "env \<Rightarrow> string list comp" where
  "scriptArgsStep env =
     andThen theObj (\<lambda>m.
     if ScriptRef (Spec m) \<noteq> None
     then
       andThen (attempt (getStartupScriptArgs env)) (\<lambda>r.
       case r of
         Inl err \<Rightarrow>
           andThen (MarkFalse env MachineConditionTypeScriptReady ReasonScriptDataNotFound
             ConditionSeverityError ''unable to create script'') (\<lambda>_. throw err)
       | Inr scriptArgs \<Rightarrow>
           andThen (MarkTrue env MachineConditionTypeScriptReady) (\<lambda>_. ret scriptArgs))
     else ret [])"

definition authArgsStep :: "env \<Rightarrow> string list comp" where
  "authArgsStep env =
     andThen (attempt (getAuthSecretArgs env)) (\<lambda>r.
     case r of
       Inl err \<Rightarrow>
         andThen (MarkFalse env MachineConditionTypeAuthDataReady ReasonAuthDataNotFound
           ConditionSeverityError ''unable to read auth data'') (\<lambda>_. throw err)
     | Inr authArgs \<Rightarrow>
         andThen (MarkTrue env MachineConditionTypeAuthDataReady) (\<lambda>_. ret authArgs))"

definition getMachineCreationArgs :: "env \<Rightarrow> string list comp" where
  "getMachineCreationArgs env =
     andThen theObj (\<lambda>m.
     andThen (deref (Driver (Spec m))) (\<lambda>driver.
     andThen (scriptArgsStep env) (\<lambda>scriptArgs.
     andThen (authArgsStep env) (\<lambda>authArgs.
     andThen getAMIIDArg (\<lambda>amiArgs.
     andThen getAnnotationsArgsForAWS (\<lambda>annotationArgs.
     andThen theObj (\<lambda>m'.
     let args = [''create'', ''--driver'', driver] @ paramArgs (Parameters (Spec m)) @ scriptArgs @
           authArgs @ amiArgs @ annotationArgs @ [Name (Meta m')]
     in andThen (updateMachineStatus env (key_of m')) (\<lambda>_. ret args))))))))"

definition runCreate :: "env \<Rightarrow> string list \<Rightarrow> unit comp" where
  "runCreate env args =
     andThen (MarkTrue env MachineConditionTypeMachineCreating) (\<lambda>_.
     andThen (runDockerMachine env (Some machineCreationTimeout) args) (\<lambda>(err, commandError).
     if err \<noteq> None \<and> \<not> strings_Contains commandError ''already exists''
     then
       andThen (MarkFalse env MachineConditionTypeMachineReady ReasonMachineCreationFailed
         ConditionSeverityError (''unable to create docker machine. err: '' @ errText (the err))) (\<lambda>_.
       throw (the err))
     else
       andThen (MarkTrue env MachineConditionTypeMachineReady) (\<lambda>_.
       andThen theObj (\<lambda>m.
       updateMachineStatus env (key_of m)))))"

definition createMachine :: "env \<Rightarrow> unit comp" where
  "createMachine env =
     andThen theObj (\<lambda>m.
     if IsConditionTrue (GetConditions m) MachineConditionTypeMachineCreating \<or>
        IsConditionTrue (GetConditions m) MachineConditionTypeMachineReady
     then ret ()
     else
       andThen (setInitialConditions env) (\<lambda>_.
       andThen (createPrerequisitesForMachine env) (\<lambda>_.
       andThen (getMachineCreationArgs env) (\<lambda>args.
       runCreate env args))))"

section \<open>The arguments\<close>

definition authArgsOf :: "string \<Rightarrow> secret \<Rightarrow> string list" where
  "authArgsOf d data =
     concat (map (\<lambda>(k, v). [''--'' @ k, if d = GoogleDriver then base64_EncodeToString v else v]) data)"

definition filled :: "smap \<Rightarrow> bool" where
  "filled data \<longleftrightarrow> (\<forall>(k, v) \<in> set data. k \<noteq> '''' \<and> v \<noteq> '''')"

lemma authArgsLoop_run:
  "authArgsLoop (Some d) data acc s =
     (if filled data then (Ok (acc @ authArgsOf d data), s)
      else (Err (ErrorString ''auth secret not found''), s))"
proof (induction data arbitrary: acc)
  case (Cons kv data)
  obtain k v where "kv = (k, v)" by fastforce
  then show ?case using Cons.IH
    by (cases "k = [] \<or> v = []")
      (auto simp: run_simps Let_def filled_def authArgsOf_def base64_EncodeToString_Nil_iff)
qed (simp add: run_simps filled_def authArgsOf_def)

lemma pickUserData_eq:
  "pickUserData data acc =
     (case find (\<lambda>(k, v). k \<noteq> '''') data of
        Some kv \<Rightarrow> kv
      | None \<Rightarrow> if data = [] then acc else last data)"
  by (induction data acc rule: pickUserData.induct) (auto split: option.splits)

lemma pickUserData_nonempty:
  "fst (pickUserData data ('''', '''')) \<noteq> '''' \<Longrightarrow>
   find (\<lambda>(k, v). k \<noteq> '''') data = Some (pickUserData data ('''', ''''))"
proof (cases "find (\<lambda>(k, v). k \<noteq> '''') data")
  case None
  assume key: "fst (pickUserData data ('''', '''')) \<noteq> ''''"
  with None have "data \<noteq> []" "pickUserData data ('''', '''') = last data"
    by (auto simp: pickUserData_eq split: if_splits)
  then have "pickUserData data ('''', '''') \<in> set data" by simp
  with None key show ?thesis
    by (cases "pickUserData data ('''', '''')") (auto simp: find_None_iff)

qed (simp add: pickUserData_eq)

lemma getAuthSecretArgs_run:
  assumes "machineObj s = Some m" "Driver (Spec m) = Some d" "AuthSecret (Spec m) = Some ref"
  shows "getAuthSecretArgs env s =
    (case env_secret env (trace s) (GetSecret (ObjectKey ref)) of
       Inl e \<Rightarrow> (Err e, s\<lparr>trace := Ev (GetSecret (ObjectKey ref)) (Inl e) # trace s\<rparr>)
     | Inr data \<Rightarrow>
         (if filled data then Ok (authArgsOf d data) else Err (ErrorString ''auth secret not found''),
          s\<lparr>trace := Ev (GetSecret (ObjectKey ref)) (Inr (RSecret data)) # trace s\<rparr>))"
  using assms
  by (cases "env_secret env (trace s) (GetSecret (ObjectKey ref))")
    (simp_all add: getAuthSecretArgs_def getSecret_def call_defs run_simps authArgsLoop_run)

text \<open>The structure of the argument list: the subcommand, the driver, and at the end the name.\<close>

definition create_args :: "string list \<Rightarrow> bool" where
  "create_args args \<longleftrightarrow> (\<exists>d mid name. args = [''create'', ''--driver'', d] @ mid @ [name])"

lemma returns_creation_args: "returns create_args (getMachineCreationArgs env)"
  unfolding returns_def getMachineCreationArgs_def Let_def
  by (auto simp: run_simps create_args_def elim!: andThen_cases)

section \<open>What creation emits\<close>

fun create_event :: "event \<Rightarrow> bool" where
  "create_event (Ev (RunCmd timeout args) _) = (timeout = Some machineCreationTimeout \<and> create_args args)"
| "create_event _ = False"

fun file_event :: "event \<Rightarrow> bool" where
  "file_event (Ev (GetSecret _) _) = True"
| "file_event (Ev (StatFile _) _) = True"
| "file_event (Ev (WriteFile _ _) _) = True"
| "file_event _ = False"

text \<open>Everything \<^const>\<open>createMachine\<close> emits before the command runs.\<close>

definition prepare_event :: "event \<Rightarrow> bool" where
  "prepare_event e \<longleftrightarrow> status_event e \<or> client_event e \<or> (\<exists>c. aws_event c e) \<or> file_event e"

lemma emits_authArgsLoop [emits_intros]: "emits \<phi> (authArgsLoop d data acc)"
proof (induction data arbitrary: acc)
  case (Cons kv data)
  then show ?case by (cases kv) (auto simp: Let_def intro!: emits_intros)
qed (auto intro!: emits_intros)

lemma emits_getAuthSecretArgs: "emits file_event (getAuthSecretArgs env)"
  unfolding getAuthSecretArgs_def by (intro emits_intros) simp_all

lemma emits_getStartupScriptArgs: "emits file_event (getStartupScriptArgs env)"
  unfolding getStartupScriptArgs_def scriptArgsFrom_def getScriptFilePath_def Let_def
  by (intro emits_intros) simp_all


lemma emits_getMachineCreationArgs:
  assumes "\<And>e. file_event e \<Longrightarrow> \<phi> e" and "\<And>e. status_event e \<Longrightarrow> \<phi> e"
  shows "emits \<phi> (getMachineCreationArgs env)"
  unfolding getMachineCreationArgs_def scriptArgsStep_def authArgsStep_def Let_def
  by (intro emits_intros emits_mono [OF emits_getStartupScriptArgs] emits_mono [OF emits_getAuthSecretArgs] assms)

lemma emits_createPrerequisitesForMachine:
  assumes "\<And>e. client_event e \<Longrightarrow> \<phi> e" and "\<And>c e. aws_event c e \<Longrightarrow> \<phi> e"
  shows "emits \<phi> (createPrerequisitesForMachine env)"
  unfolding createPrerequisitesForMachine_def by (intro emits_intros assms)

lemma emits_runCreate:
  assumes "create_args args" and "\<And>e. create_event e \<Longrightarrow> \<phi> e" and "\<And>e. status_event e \<Longrightarrow> \<phi> e"
  shows "emits \<phi> (runCreate env args)"
  unfolding runCreate_def using assms by (intro emits_intros) auto

lemma emits_createMachine [emits_intros]:
  assumes "\<And>e. prepare_event e \<Longrightarrow> \<phi> e" and "\<And>e. create_event e \<Longrightarrow> \<phi> e"
  shows "emits \<phi> (createMachine env)"
  unfolding createMachine_def
  by (intro emits_andThen emits_basic emits_splits emits_setInitialConditions emits_createPrerequisitesForMachine
      emits_returns [OF returns_creation_args] emits_getMachineCreationArgs emits_runCreate)
    (use assms in \<open>auto simp: prepare_event_def\<close>)

text \<open>The create command runs at most once.\<close>

lemma no_create_events:
  "status_event e \<Longrightarrow> \<not> create_event e" "meta_event f e \<Longrightarrow> \<not> create_event e"
  "client_event e \<Longrightarrow> \<not> create_event e" "file_event e \<Longrightarrow> \<not> create_event e"
  "aws_event c e \<Longrightarrow> \<not> create_event e"
  by (cases e rule: create_event.cases; auto simp: aws_event_def)+

lemma counts_runCreate: "counts create_event 1 (runCreate env args)"
  unfolding runCreate_def
  by (rule counts_andThen [where i = 0 and j = 1]
      counts_andThen [where i = 1 and j = 0] counts_run counts_none emits_intros | simp add: no_create_events)+

lemma counts_createMachine: "counts create_event 1 (createMachine env)"
proof -
  have "counts create_event 1
      (andThen (setInitialConditions env) (\<lambda>_.
       andThen (createPrerequisitesForMachine env) (\<lambda>_.
       andThen (getMachineCreationArgs env) (\<lambda>args. runCreate env args))))"
    by (rule counts_andThen [where i = 0 and j = 1] counts_runCreate | rule counts_none,
        intro emits_intros emits_createPrerequisitesForMachine emits_getMachineCreationArgs |
        simp add: no_create_events)+
  then show ?thesis unfolding createMachine_def
    by (intro counts_obj counts_splits(1)) (auto intro!: counts_none emits_basic)
qed

section \<open>Well-formedness and soundness\<close>

lemma sound_authArgsLoop [sound_intros]: "d \<noteq> None \<Longrightarrow> sound (\<lambda>_. True) (authArgsLoop d data acc)"
  by (cases d) (auto simp: sound_def hoare_def authArgsLoop_run)

lemma sound_getScriptFilePath [sound_intros]: "sound (\<lambda>_. True) getScriptFilePath"
  unfolding getScriptFilePath_def by (rule sound_intros | simp)+

lemma sound_getAuthSecretArgs [sound_intros]: "sound (\<lambda>_. True) (getAuthSecretArgs env)"
  unfolding getAuthSecretArgs_def by (rule sound_intros | simp add: specified_def)+

lemma sound_scriptArgsFrom [sound_intros]: "sound (\<lambda>_. True) (scriptArgsFrom env d)"
  unfolding scriptArgsFrom_def Let_def by (rule sound_intros | simp)+

text \<open>The script secret is read only when there is a reference to it.\<close>

lemma theObj_twice:
  "andThen theObj (\<lambda>m. if P m then andThen (attempt (andThen theObj g)) k else n m) =
   andThen theObj (\<lambda>m. if P m then andThen (attempt (g m)) k else n m)"
  by (rule ext) (auto simp: andThen_def attempt_def theObj_def split: option.splits)

lemma sound_scriptArgsStep [sound_intros]: "sound (\<lambda>_. True) (scriptArgsStep env)"
  unfolding scriptArgsStep_def getStartupScriptArgs_def theObj_twice
  by (rule sound_intros | simp)+

lemma sound_authArgsStep [sound_intros]: "sound (\<lambda>_. True) (authArgsStep env)"
  unfolding authArgsStep_def by (rule sound_intros | simp)+

lemma sound_getMachineCreationArgs [sound_intros]:
  "server_specified env \<Longrightarrow> sound (\<lambda>_. True) (getMachineCreationArgs env)"
  unfolding getMachineCreationArgs_def Let_def by (rule sound_intros | simp add: specified_def)+

lemma sound_runCreate [sound_intros]:
  "server_specified env \<Longrightarrow> sound (\<lambda>_. True) (runCreate env args)"
  unfolding runCreate_def by (rule sound_intros | simp)+

lemma sound_createPrerequisitesForMachine [sound_intros]:
  "server_specified env \<Longrightarrow> sdk_nonnil env \<Longrightarrow> sound (\<lambda>_. True) (createPrerequisitesForMachine env)"
  unfolding createPrerequisitesForMachine_def by (rule sound_intros | simp add: specified_def)+

lemma sound_createMachine [sound_intros]:
  "server_specified env \<Longrightarrow> sdk_nonnil env \<Longrightarrow> sound (\<lambda>_. True) (createMachine env)"
  unfolding createMachine_def by (rule sound_intros | simp)+

section \<open>Runs\<close>

lemma createMachine_idle:
  assumes "machineObj s = Some m"
    and "IsConditionTrue (GetConditions m) MachineConditionTypeMachineCreating \<or>
      IsConditionTrue (GetConditions m) MachineConditionTypeMachineReady"
  shows "createMachine env s = (Ok (), s)"
  using assms by (simp add: createMachine_def run_simps)

text \<open>The script file is written only when it is not there, with the content of the secret.\<close>

lemma scriptArgsFrom_run:
  assumes m: "machineObj s = Some m"
    and pick: "pickUserData data ('''', '''') = (k, v)" "k \<noteq> ''''" "v \<noteq> ''''"
    and p: "p = scriptPath (Namespace (Meta m)) (Name (Meta m))"
  shows "scriptArgsFrom env data s =
    (case env_unit env (trace s) (StatFile p) of
       Inr _ \<Rightarrow> (Ok [''--'' @ k, p], s\<lparr>trace := Ev (StatFile p) (Inr RUnit) # trace s\<rparr>)
     | Inl e \<Rightarrow>
         let h = Ev (StatFile p) (Inl e) # trace s
         in if \<not> os_IsNotExist e then (Err e, s\<lparr>trace := h\<rparr>)
            else case env_unit env h (WriteFile p v) of
                Inr _ \<Rightarrow> (Ok [''--'' @ k, p], s\<lparr>trace := Ev (WriteFile p v) (Inr RUnit) # h\<rparr>)
              | Inl e' \<Rightarrow> (Err e', s\<lparr>trace := Ev (WriteFile p v) (Inl e') # h\<rparr>))"
  using m pick
  by (auto simp: scriptArgsFrom_def getScriptFilePath_def run_simps p call_defs perform_def andThen_def
      attempt_def Let_def split: sum.splits)

lemma scriptArgsFrom_no_data:
  assumes "machineObj s = Some m" and "pickUserData data ('''', '''') = (k, v)" and "k = '''' \<or> v = ''''"
  shows "scriptArgsFrom env data s = (Err (ErrorString ''script data not found''), s)"
  using assms by (auto simp: scriptArgsFrom_def getScriptFilePath_def run_simps)

section \<open>Outcomes of creation\<close>

text \<open>
  A server that stores what it is sent: status patches are answered with the object sent, and
  reads succeed. Against such a server a status update keeps the object but for the summary.
\<close>

definition echoes :: "env \<Rightarrow> bool" where
  "echoes env \<longleftrightarrow> (\<forall>h old new. env_machine env h (PatchStatus old new) = Inr new) \<and>
     (\<forall>h nn. \<exists>m. env_machine env h (GetMachine nn) = Inr m)"

lemma echoes_status:
  assumes "echoes env" and "machineObj s = Some m"
  obtains t now where "updateMachineStatus env nn s = (Ok (), t)" "machineObj t = Some (summarized now m)"
proof -
  obtain cur where cur: "env_machine env (trace s) (GetMachine nn) = Inr cur"
    using assms(1) unfolding echoes_def by blast
  let ?m = "summarized (env_now env (ticks s) (Ev (GetMachine nn) (Inr (RMachine cur)) # trace s)) m"
  have "env_machine env h (PatchStatus cur new) = Inr new" for h new
    using assms(1) by (simp add: echoes_def)
  then have "updateMachineStatus env nn s = (Ok (), snd (updateMachineStatus env nn s))"
    "machineObj (snd (updateMachineStatus env nn s)) = Some ?m"
    by (simp_all add: updateMachineStatus_run [OF assms(2) cur] after_status_def Let_def)
  then show thesis by (rule that)
qed

lemma IsConditionTrue_cond_Set:
  assumes "wf_machine m"
  shows "IsConditionTrue (cond_Set now (getter_of m) (Some c)) t =
    (if t = cType c then cStatus c = ConditionTrue else IsConditionTrue (GetConditions m) t)"
proof -
  have wf: "wf_conditions (GetConditions m)" using assms by (simp add: wf_machine_def)
  then have "wf_conditions (cond_Set now (getter_of m) (Some c))" by (simp add: cond_Set_wf)
  then show ?thesis
    using wf stored_hasSameState [of now "getter_of m" c]
    by (auto simp: IsConditionTrue_Get cond_Get_Set hasSameState_def)
qed

lemma IsConditionTrue_summarized:
  assumes "wf_machine m" and "t \<noteq> ReadyCondition"
  shows "IsConditionTrue (GetConditions (summarized now m)) t = IsConditionTrue (GetConditions m) t"
proof (cases "ready_spec ConditionsOrder (GetConditions m)")
  case None
  then show ?thesis using assms
    by (simp add: summarized_def Let_def cond_SetSummary_def summary_of_machine cond_Set_def)
next
  case (Some c)
  then show ?thesis using assms ready_spec_cType [OF Some]
    by (simp add: summarized_def Let_def cond_SetSummary_def summary_of_machine IsConditionTrue_cond_Set)
qed

lemma MarkTrue_run:
  assumes "machineObj s = Some m" and "wf_machine m"
  obtains m' n where "MarkTrue env t s = (Ok (), s\<lparr>machineObj := Some m', ticks := n\<rparr>)"
    "wf_machine m'" "Meta m' = Meta m" "Spec m' = Spec m"
    "\<forall>t'. IsConditionTrue (GetConditions m') t' = (t' = t \<or> IsConditionTrue (GetConditions m) t')"
proof -
  have "wf_machine (SetConditions m (cond_Set now (getter_of m) (Some (TrueCondition t))))" for now
    using assms(2) by (rule wf_machine_Set)
      (simp add: TrueCondition_def operator_condition_def ConditionSeverityNone_def)
  note wf = this
  show thesis
  proof (rule that)
    show "MarkTrue env t s = (Ok (), s\<lparr>machineObj := Some (SetConditions m (cond_Set
        (env_now env (ticks s) (trace s)) (getter_of m) (Some (TrueCondition t)))), ticks := Suc (ticks s)\<rparr>)"
      using assms(1) by (simp add: MarkTrue_def run_simps)
  qed (use wf assms(2) in \<open>auto simp: IsConditionTrue_cond_Set, auto simp: TrueCondition_def\<close>)
qed

lemma MarkFalse_run:
  assumes "machineObj s = Some m" and "wf_machine m"
  obtains m' n where "MarkFalse env t reason ConditionSeverityError msg s = (Ok (), s\<lparr>machineObj := Some m', ticks := n\<rparr>)"
    "wf_machine m'" "Meta m' = Meta m" "Spec m' = Spec m"
    "\<forall>t'. IsConditionTrue (GetConditions m') t' = (t' \<noteq> t \<and> IsConditionTrue (GetConditions m) t')"
proof -
  have "wf_machine (SetConditions m (cond_Set now (getter_of m)
      (Some (FalseCondition t reason ConditionSeverityError msg))))" for now
    using assms(2) by (rule wf_machine_Set) (simp add: FalseCondition_def operator_condition_def)
  note wf = this
  show thesis
  proof (rule that)
    show "MarkFalse env t reason ConditionSeverityError msg s = (Ok (), s\<lparr>machineObj := Some (SetConditions m
        (cond_Set (env_now env (ticks s) (trace s)) (getter_of m)
          (Some (FalseCondition t reason ConditionSeverityError msg)))), ticks := Suc (ticks s)\<rparr>)"
      using assms(1) by (simp add: MarkFalse_def run_simps)
  qed (use wf assms(2) in \<open>auto simp: IsConditionTrue_cond_Set,
      auto simp: FalseCondition_def ConditionFalse_def ConditionTrue_def\<close>)
qed

text \<open>The command succeeds, or says that the machine exists: the machine is marked ready.\<close>

lemma runCreate_succeeds:
  assumes "echoes env" and m: "machineObj s = Some m" "wf_machine m"
    and cmd: "\<And>h. fst (env_cmd env h (RunCmd (Some machineCreationTimeout) args)) = None \<or>
      strings_Contains (snd (env_cmd env h (RunCmd (Some machineCreationTimeout) args))) ''already exists''"
  obtains t m' where "runCreate env args s = (Ok (), t)" "machineObj t = Some m'"
    "IsConditionTrue (GetConditions m') MachineConditionTypeMachineReady"
    "\<exists>r. Ev (RunCmd (Some machineCreationTimeout) args) r \<in> set (trace t)"
proof -
  let ?c = "RunCmd (Some machineCreationTimeout) args"
  obtain m1 n1 where s1: "MarkTrue env MachineConditionTypeMachineCreating s = (Ok (), s\<lparr>machineObj := Some m1, ticks := n1\<rparr>)"
    and m1: "wf_machine m1"
    using MarkTrue_run [OF m] by metis
  obtain err out where eo: "env_cmd env (trace s) ?c = (err, out)" by fastforce
  define h where "h = Ev ?c (case err of None \<Rightarrow> Inr (RText out) | Some e \<Rightarrow> Inl e) # trace s"
  define s2 where "s2 = s\<lparr>machineObj := Some m1, trace := h, ticks := n1\<rparr>"
  have o2: "machineObj s2 = Some m1" by (simp add: s2_def)
  obtain m2 n2 where s3: "MarkTrue env MachineConditionTypeMachineReady s2 = (Ok (), s2\<lparr>machineObj := Some m2, ticks := n2\<rparr>)"
    and m2: "wf_machine m2" "Meta m2 = Meta m1" "Spec m2 = Spec m1"
      "\<forall>t'. IsConditionTrue (GetConditions m2) t' =
        (t' = MachineConditionTypeMachineReady \<or> IsConditionTrue (GetConditions m1) t')"
    by (rule MarkTrue_run [OF o2 m1, of env MachineConditionTypeMachineReady]) blast
  define s4 where "s4 = s2\<lparr>machineObj := Some m2, ticks := n2\<rparr>"
  have o4: "machineObj s4 = Some m2" by (simp add: s4_def)
  obtain t now where t: "updateMachineStatus env (key_of m2) s4 = (Ok (), t)"
    "machineObj t = Some (summarized now m2)"
    by (rule echoes_status [OF assms(1) o4])
  have run: "runDockerMachine env (Some machineCreationTimeout) args (s\<lparr>machineObj := Some m1, ticks := n1\<rparr>)
      = (Ok (err, out), s2)"
    using eo by (simp add: runDockerMachine_def s2_def h_def Let_def)
  have ok: "runCreate env args s = (Ok (), t)"
    using s1 s3 t(1) run o4 cmd [of "trace s"] eo unfolding s4_def
    by (auto simp: runCreate_def run_simps)
  have ready: "IsConditionTrue (GetConditions (summarized now m2)) MachineConditionTypeMachineReady"
    using m2 by (simp add: IsConditionTrue_summarized type_consts)
  obtain new where "trace t = new @ h"
    using emitsD [OF updateMachineStatus_status t(1)] by (auto simp: s4_def s2_def)
  then have "\<exists>r. Ev ?c r \<in> set (trace t)" by (auto simp: h_def)
  with ok t(2) ready show thesis by (rule that)
qed

text \<open>The command fails: the error is returned, and the object says creating and not ready.\<close>

lemma runCreate_fails:
  assumes m: "machineObj s = Some m" "wf_machine m"
    and cmd: "env_cmd env (trace s) (RunCmd (Some machineCreationTimeout) args) = (Some e, out)"
      "\<not> strings_Contains out ''already exists''"
  obtains t m' where "runCreate env args s = (Err e, t)" "machineObj t = Some m'" "wf_machine m'"
    "IsConditionTrue (GetConditions m') MachineConditionTypeMachineCreating"
    "\<not> IsConditionTrue (GetConditions m') MachineConditionTypeMachineReady"
proof -
  let ?c = "RunCmd (Some machineCreationTimeout) args"
  obtain m1 n1 where s1: "MarkTrue env MachineConditionTypeMachineCreating s = (Ok (), s\<lparr>machineObj := Some m1, ticks := n1\<rparr>)"
    and m1: "wf_machine m1" "IsConditionTrue (GetConditions m1) MachineConditionTypeMachineCreating"
    using MarkTrue_run [OF m] by metis
  define s2 where "s2 = s\<lparr>machineObj := Some m1, trace := Ev ?c (Inl e) # trace s, ticks := n1\<rparr>"
  have o2: "machineObj s2 = Some m1" by (simp add: s2_def)
  define msg where "msg = ''unable to create docker machine. err: '' @ errText e"
  obtain m2 n2 where s3: "MarkFalse env MachineConditionTypeMachineReady ReasonMachineCreationFailed
        ConditionSeverityError msg s2 = (Ok (), s2\<lparr>machineObj := Some m2, ticks := n2\<rparr>)"
    and m2: "wf_machine m2" "Meta m2 = Meta m1" "Spec m2 = Spec m1"
      "\<forall>t'. IsConditionTrue (GetConditions m2) t' =
        (t' \<noteq> MachineConditionTypeMachineReady \<and> IsConditionTrue (GetConditions m1) t')"
    by (rule MarkFalse_run [OF o2 m1(1), of env MachineConditionTypeMachineReady ReasonMachineCreationFailed msg]) blast
  have run: "runDockerMachine env (Some machineCreationTimeout) args (s\<lparr>machineObj := Some m1, ticks := n1\<rparr>)
      = (Ok (Some e, out), s2)"
    using cmd(1) by (simp add: runDockerMachine_def s2_def Let_def)
  show thesis
  proof (rule that)
    show "runCreate env args s = (Err e, s2\<lparr>machineObj := Some m2, ticks := n2\<rparr>)"
      using s1 s3 run cmd(2) unfolding msg_def by (simp add: runCreate_def run_simps)
    show "IsConditionTrue (GetConditions m2) MachineConditionTypeMachineCreating"
      using m2(4) m1(2) by (simp add: type_consts)
    show "\<not> IsConditionTrue (GetConditions m2) MachineConditionTypeMachineReady" using m2(4) by simp
  qed (simp_all add: m2(1))
qed

text \<open>The steps before the command, against a server that stores what it is sent.\<close>

lemma summarized_keeps [simp]: "Meta (summarized now m) = Meta m" "Spec (summarized now m) = Spec m"
  by (simp_all add: summarized_def Let_def)

lemma setInitialConditions_run:
  assumes "echoes env" and m: "machineObj s = Some m" "wf_machine m"
  obtains t m' where "setInitialConditions env s = (Ok (), t)" "machineObj t = Some m'" "wf_machine m'"
    "Meta m' = Meta m" "Spec m' = Spec m"
proof -
  let ?t1 = MachineConditionTypeMachineReady and ?t2 = MachineConditionTypeClusterOperationComplete
  let ?msg1 = "''Waiting for Machine to become ready''" and ?msg2 = "''Waiting for Script to run''"
  obtain m1 n1 where s1: "MarkFalse env ?t1 ReasonMachineCreating ConditionSeverityError ?msg1 s
      = (Ok (), s\<lparr>machineObj := Some m1, ticks := n1\<rparr>)"
    and m1: "wf_machine m1" "Meta m1 = Meta m" "Spec m1 = Spec m"
    by (rule MarkFalse_run [OF m, of env ?t1 ReasonMachineCreating ?msg1]) blast
  define u where "u = s\<lparr>machineObj := Some m1, ticks := n1\<rparr>"
  have u: "machineObj u = Some m1" by (simp add: u_def)
  obtain m2 n2 where s2: "MarkFalse env ?t2 ReasonWaitingForScriptRun ConditionSeverityError ?msg2 u
      = (Ok (), u\<lparr>machineObj := Some m2, ticks := n2\<rparr>)"
    and m2: "wf_machine m2" "Meta m2 = Meta m1" "Spec m2 = Spec m1"
    by (rule MarkFalse_run [OF u m1(1), of env ?t2 ReasonWaitingForScriptRun ?msg2]) blast
  define v where "v = u\<lparr>machineObj := Some m2, ticks := n2\<rparr>"
  have v: "machineObj v = Some m2" by (simp add: v_def)
  obtain t now where t: "updateMachineStatus env (key_of m2) v = (Ok (), t)" "machineObj t = Some (summarized now m2)"
    by (rule echoes_status [OF assms(1) v])
  have "setInitialConditions env s = (Ok (), t)"
    using s1 s2 t(1) v unfolding u_def v_def by (simp add: setInitialConditions_def run_simps)
  then show thesis
    by (rule that [OF _ t(2)]) (simp_all add: wf_machine_summarized m1 m2)
qed

definition creationArgs :: "Machine \<Rightarrow> string \<Rightarrow> secret \<Rightarrow> string list" where
  "creationArgs m d data = [''create'', ''--driver'', d] @ paramArgs (Parameters (Spec m)) @ authArgsOf d data @
     (if mget amiIDs (param m awsRegionField) \<noteq> ''''
      then [''--amazonec2-ami'', mget amiIDs (param m awsRegionField)] else []) @ [Name (Meta m)]"

lemma getMachineCreationArgs_run:
  assumes "echoes env" and m: "machineObj s = Some m" "wf_machine m"
    and d: "Driver (Spec m) = Some d" "d \<noteq> AWSDriver" and "ScriptRef (Spec m) = None"
    and ref: "AuthSecret (Spec m) = Some ref"
    and data: "\<And>h. env_secret env h (GetSecret (ObjectKey ref)) = Inr data" "filled data"
  obtains t m' where "getMachineCreationArgs env s = (Ok (creationArgs m d data), t)"
    "machineObj t = Some m'" "wf_machine m'" "Meta m' = Meta m" "Spec m' = Spec m"
proof -
  define u where "u = s\<lparr>trace := Ev (GetSecret (ObjectKey ref)) (Inr (RSecret data)) # trace s\<rparr>"
  have u: "machineObj u = Some m" using m by (simp add: u_def)
  obtain m1 n1 where s1: "MarkTrue env MachineConditionTypeAuthDataReady u = (Ok (), u\<lparr>machineObj := Some m1, ticks := n1\<rparr>)"
    and m1: "wf_machine m1" "Meta m1 = Meta m" "Spec m1 = Spec m"
    by (rule MarkTrue_run [OF u m(2), of env MachineConditionTypeAuthDataReady]) blast
  define v where "v = u\<lparr>machineObj := Some m1, ticks := n1\<rparr>"
  have v: "machineObj v = Some m1" by (simp add: v_def)
  have auth: "authArgsStep env s = (Ok (authArgsOf d data), v)"
    using getAuthSecretArgs_run [OF m(1) d(1) ref, of env] data s1
    by (simp add: authArgsStep_def run_simps u_def v_def)
  obtain t now where t: "updateMachineStatus env (key_of m1) v = (Ok (), t)" "machineObj t = Some (summarized now m1)"
    by (rule echoes_status [OF assms(1) v])
  have "getMachineCreationArgs env s = (Ok (creationArgs m d data), t)"
    using auth m d assms(6) v m1 t(1)
    by (simp add: getMachineCreationArgs_def scriptArgsStep_def getAMIIDArg_def getAnnotationsArgsForAWS_def
        run_simps Let_def creationArgs_def)
  then show thesis
    by (rule that [OF _ t(2)]) (simp_all add: wf_machine_summarized m1)
qed

lemma createMachine_succeeds:
  assumes "echoes env" and m: "machineObj s = Some m" "wf_machine m"
    and new: "\<not> IsConditionTrue (GetConditions m) MachineConditionTypeMachineCreating"
      "\<not> IsConditionTrue (GetConditions m) MachineConditionTypeMachineReady"
    and spec: "Driver (Spec m) = Some d" "d \<noteq> AWSDriver" "ScriptRef (Spec m) = None" "AuthSecret (Spec m) = Some ref"
    and data: "\<And>h. env_secret env h (GetSecret (ObjectKey ref)) = Inr data" "filled data"
    and cmd: "\<And>h. fst (env_cmd env h (RunCmd (Some machineCreationTimeout) (creationArgs m d data))) = None \<or>
      strings_Contains (snd (env_cmd env h (RunCmd (Some machineCreationTimeout) (creationArgs m d data)))) ''already exists''"
  obtains t m' where "createMachine env s = (Ok (), t)" "machineObj t = Some m'"
    "IsConditionTrue (GetConditions m') MachineConditionTypeMachineReady"
    "\<exists>r. Ev (RunCmd (Some machineCreationTimeout) (creationArgs m d data)) r \<in> set (trace t)"
proof -
  obtain u m1 where u: "setInitialConditions env s = (Ok (), u)" "machineObj u = Some m1" "wf_machine m1"
    "Meta m1 = Meta m" "Spec m1 = Spec m"
    by (rule setInitialConditions_run [OF assms(1) m])
  have pre: "createPrerequisitesForMachine env u = (Ok (), u)"
    using u spec by (simp add: createPrerequisitesForMachine_def run_simps)
  have spec1: "Driver (Spec m1) = Some d" "ScriptRef (Spec m1) = None" "AuthSecret (Spec m1) = Some ref"
    using spec u(5) by simp_all
  obtain v m2 where v: "getMachineCreationArgs env u = (Ok (creationArgs m1 d data), v)"
    "machineObj v = Some m2" "wf_machine m2"
    by (rule getMachineCreationArgs_run [OF assms(1) u(2,3) spec1(1) spec(2) spec1(2,3) data])
  have same: "creationArgs m1 d data = creationArgs m d data" using u by (simp add: creationArgs_def)
  obtain t m' where t: "runCreate env (creationArgs m d data) v = (Ok (), t)" "machineObj t = Some m'"
    "IsConditionTrue (GetConditions m') MachineConditionTypeMachineReady"
    "\<exists>r. Ev (RunCmd (Some machineCreationTimeout) (creationArgs m d data)) r \<in> set (trace t)"
    by (rule runCreate_succeeds [OF assms(1) v(2,3) cmd])
  have "createMachine env s = (Ok (), t)"
    using m new u(1) pre v(1) t(1) same by (simp add: createMachine_def run_simps)
  then show thesis using t(2-4) by (rule that)
qed

lemma auth_run:
  assumes "machineObj s = Some m" and "Driver (Spec m) = Some d" and "AuthSecret (Spec m) = Some ref"
    and "env_secret env (trace s) (GetSecret (ObjectKey ref)) = Inr data" and "filled data"
  shows "fst (getAuthSecretArgs env s) = Ok (authArgsOf d data)"
  using assms by (simp add: getAuthSecretArgs_run [OF assms(1-3)])

lemma length_authArgsOf: "length (authArgsOf d data) = 2 * length data"
  unfolding authArgsOf_def by (rule concat_map_singleton_len) (auto split: prod.splits)

lemma authArgsOf_nth:
  "i < length data \<Longrightarrow> authArgsOf d data ! (2 * i + 1) =
     (if d = GoogleDriver then base64_EncodeToString (snd (data ! i)) else snd (data ! i))"
proof (induction data arbitrary: i)
  case (Cons kv data)
  obtain k v where kv: "kv = (k, v)" by fastforce
  show ?case using Cons by (cases i) (auto simp: authArgsOf_def kv)
qed simp

section \<open>Script paths\<close>

lemma scriptPath_eq_iff: "scriptPath ns n = scriptPath ns' n' \<longleftrightarrow> ns @ ''-'' @ n = ns' @ ''-'' @ n'"
proof -
  have "scriptPath ns n = (''/'' @ tempDirectory @ ''/'') @ (ns @ ''-'' @ n) @ ''-startup.sh''" for ns n
    by (simp add: scriptPath_def)
  then show ?thesis by (simp only: same_append_eq append_same_eq)
qed

lemma dash_split:
  assumes "CHR ''-'' \<notin> set ns" and "CHR ''-'' \<notin> set ns'" and "ns @ ''-'' @ n = ns' @ ''-'' @ n'"
  shows "ns = ns' \<and> n = n'"
proof -
  have cut: "takeWhile (\<lambda>c. c \<noteq> CHR ''-'') (xs @ ''-'' @ ys) = xs" if "CHR ''-'' \<notin> set xs" for xs ys
    using that by (induction xs) auto
  then have "ns = ns'" using assms by (metis)
  then show ?thesis using assms(3) by simp
qed

end
