(* ===== verification/Cluster.thy ===== *)
theory Cluster
  imports Machine_Ops
begin

text \<open>
  Watching the startup script (\<^verbatim>\<open>cluster.go\<close>): the result file is copied from the machine
  with \<^verbatim>\<open>docker-machine scp\<close>, read line by line for the script's exit code, and removed.
\<close>

section \<open>Operations\<close>

definition resultFile :: string where "resultFile = ''/tmp/result.txt''"

definition defaultUserOf :: "string \<Rightarrow> string" where
  "defaultUserOf driverName =
     (if driverName = GoogleDriver then ''docker-user''
      else if driverName = AWSDriver then ''ubuntu''
      else if driverName = AzureDriver then ''docker-user''
      else '''')"

definition getDefaultUser :: "string comp" where
  "getDefaultUser =
     andThen theObj (\<lambda>m.
     andThen (deref (Driver (Spec m))) (\<lambda>driverName.
     ret (defaultUserOf driverName)))"

definition getScpArgs :: "string list comp" where
  "getScpArgs =
     andThen theObj (\<lambda>m.
     andThen getDefaultUser (\<lambda>user.
     ret [''scp'', user @ ''@'' @ Name (Meta m) @ '':/tmp/result.txt'', ''/tmp'']))"

text \<open>The scanner loop over the lines of the result file.\<close>

fun resultLoop :: "env \<Rightarrow> string list \<Rightarrow> bool comp" where
  "resultLoop env [] = throw (ErrorString ''failed to create cluster'')"
| "resultLoop env (resStr # rest) =
     (case strconv_Atoi resStr of
        None \<Rightarrow> resultLoop env rest
      | Some code \<Rightarrow>
          andThen
            (if code = 0
             then andThen (MarkTrue env MachineConditionTypeClusterOperationComplete) (\<lambda>_. ret None)
             else andThen (MarkFalse env MachineConditionTypeClusterOperationComplete
                 ReasonClusterOperationFailed ConditionSeverityError ''failed to create cluster'') (\<lambda>_.
               ret (Some (ErrorString ''failed to create cluster'')))) (\<lambda>createError.
          andThen (call_unit env (RemoveFile resultFile)) (\<lambda>_.
          case createError of None \<Rightarrow> ret False | Some e \<Rightarrow> throw e)))"

definition isScriptFinished :: "env \<Rightarrow> bool comp" where
  "isScriptFinished env =
     andThen theObj (\<lambda>m.
     if \<not> IsConditionTrue (GetConditions m) MachineConditionTypeMachineReady then ret False
     else if IsConditionTrue (GetConditions m) MachinePhaseSuccess \<or>
             IsConditionTrue (GetConditions m) MachinePhaseFailed then ret False
     else
       andThen getScpArgs (\<lambda>args.
       andThen (runDockerMachine env None args) (\<lambda>(err, commandError).
       if err \<noteq> None
       then
         andThen (MarkFalse env MachineConditionTypeClusterOperationComplete
           ReasonWaitingForScriptCompletion ConditionSeverityError ''waiting for script completion'') (\<lambda>_.
         ret True)
       else
         andThen (call_text env (OpenFile resultFile)) (\<lambda>content.
         resultLoop env (scanLines content)))))"

section \<open>Facts\<close>

fun script_event :: "event \<Rightarrow> bool" where
  "script_event (Ev (RunCmd timeout args) _) =
     (timeout = None \<and> (\<exists>src. args = [''scp'', src, ''/tmp'']))"
| "script_event (Ev (OpenFile p) _) = (p = resultFile)"
| "script_event (Ev (RemoveFile p) _) = (p = resultFile)"
| "script_event _ = False"

lemma emits_resultLoop: "emits (\<lambda>e. \<exists>r. e = Ev (RemoveFile resultFile) r) (resultLoop env ls)"
  by (induction ls) (auto split: option.splits intro!: emits_intros)

lemma returns_scp: "returns (\<lambda>args. \<exists>src. args = [''scp'', src, ''/tmp'']) getScpArgs"
  unfolding returns_def getScpArgs_def by (auto simp: run_simps elim!: andThen_cases)

lemma emits_getScpArgs [emits_intros]: "emits \<phi> getScpArgs"
  unfolding getScpArgs_def getDefaultUser_def by (intro emits_intros)

lemma emits_isScriptFinished [emits_intros]:
  assumes "\<And>e. script_event e \<Longrightarrow> \<phi> e"
  shows "emits \<phi> (isScriptFinished env)"
  unfolding isScriptFinished_def
  by (intro emits_andThen [of _ theObj] emits_splits emits_basic emits_returns [OF returns_scp] emits_getScpArgs
      emits_andThen [of _ "runDockerMachine _ _ _"] emits_andThen [of _ "call_text _ _"]
      emits_andThen [of _ "MarkFalse _ _ _ _ _"] emits_run emits_calls emits_Mark emits_mono [OF emits_resultLoop])
    (use assms in auto)

lemma sound_resultLoop [sound_intros]: "sound (\<lambda>_. True) (resultLoop env ls)"
proof (induction ls)
  case (Cons l ls)
  have mark: "sound (\<lambda>_. True) (if code = (0 :: int)
      then andThen (MarkTrue env MachineConditionTypeClusterOperationComplete) (\<lambda>_. ret None)
      else andThen (MarkFalse env MachineConditionTypeClusterOperationComplete
          ReasonClusterOperationFailed ConditionSeverityError ''failed to create cluster'') (\<lambda>_.
        ret (Some (ErrorString ''failed to create cluster''))))" for code
    by (rule sound_intros | simp)+
  show ?case
    unfolding resultLoop.simps
    by (intro sound_splits(3) Cons.IH sound_andThen [OF mark] sound_andThen [OF sound_basic(6)] sound_basic(1,2)) simp

qed (simp add: sound_intros)

lemma sound_getScpArgs [sound_intros]: "sound (\<lambda>_. True) getScpArgs"
proof -
  have user: "sound (\<lambda>_. True) getDefaultUser"
    unfolding getDefaultUser_def by (rule sound_intros | simp add: specified_def)+
  show ?thesis unfolding getScpArgs_def by (rule user sound_intros | simp)+
qed

lemma sound_isScriptFinished [sound_intros]: "sound (\<lambda>_. True) (isScriptFinished env)"
  unfolding isScriptFinished_def by (rule sound_intros | simp)+

text \<open>The first line that is a number decides; lines before it are skipped.\<close>

definition exit_code :: "string list \<Rightarrow> int option" where
  "exit_code ls = (case find (\<lambda>l. strconv_Atoi l \<noteq> None) ls of None \<Rightarrow> None | Some l \<Rightarrow> strconv_Atoi l)"

lemma exit_code_simps:
  "exit_code [] = None" "exit_code (l # ls) = (case strconv_Atoi l of None \<Rightarrow> exit_code ls | Some c \<Rightarrow> Some c)"
  by (auto simp: exit_code_def split: option.splits)

definition result_mark :: "env \<Rightarrow> int \<Rightarrow> unit comp" where
  "result_mark env code =
     (if code = 0 then MarkTrue env MachineConditionTypeClusterOperationComplete
      else MarkFalse env MachineConditionTypeClusterOperationComplete
        ReasonClusterOperationFailed ConditionSeverityError ''failed to create cluster'')"

lemma resultLoop_run:
  assumes "machineObj s = Some m"
  shows "resultLoop env ls s =
    (case exit_code ls of
       None \<Rightarrow> (Err (ErrorString ''failed to create cluster''), s)
     | Some code \<Rightarrow>
         let t = snd (result_mark env code s)
         in case env_unit env (trace t) (RemoveFile resultFile) of
              Inl e \<Rightarrow> (Err e, t\<lparr>trace := Ev (RemoveFile resultFile) (Inl e) # trace t\<rparr>)
            | Inr _ \<Rightarrow> (if code = 0 then Ok False else Err (ErrorString ''failed to create cluster''),
                t\<lparr>trace := Ev (RemoveFile resultFile) (Inr RUnit) # trace t\<rparr>))"
proof (induction ls)
  case (Cons l ls)
  show ?case
  proof (cases "strconv_Atoi l")
    case None
    then show ?thesis using Cons.IH by (simp add: exit_code_simps)
  next
    case (Some c)
    then show ?thesis using assms
      by (cases "c = 0")
        (auto simp: exit_code_simps run_simps MarkTrue_def MarkFalse_def result_mark_def call_defs
          perform_def andThen_def Let_def split: sum.splits)
  qed
qed (simp add: exit_code_simps run_simps)

lemma isScriptFinished_not_ready:
  assumes "machineObj s = Some m"
    and "\<not> IsConditionTrue (GetConditions m) MachineConditionTypeMachineReady"
  shows "isScriptFinished env s = (Ok False, s)"
  using assms by (simp add: isScriptFinished_def run_simps)

text \<open>A ready machine: the script is pending while the copy fails, else its exit code decides.\<close>

lemma isScriptFinished_ready:
  assumes m: "machineObj s = Some m" and d: "Driver (Spec m) = Some d"
    and ready: "IsConditionTrue (GetConditions m) MachineConditionTypeMachineReady"
    and "\<not> IsConditionTrue (GetConditions m) MachinePhaseSuccess"
    and "\<not> IsConditionTrue (GetConditions m) MachinePhaseFailed"
    and c: "c = RunCmd None [''scp'', defaultUserOf d @ ''@'' @ Name (Meta m) @ '':/tmp/result.txt'', ''/tmp'']"
  shows "isScriptFinished env s =
    (case env_cmd env (trace s) c of
       (Some e, _) \<Rightarrow>
         (Ok True, snd (MarkFalse env MachineConditionTypeClusterOperationComplete
            ReasonWaitingForScriptCompletion ConditionSeverityError ''waiting for script completion''
            (s\<lparr>trace := Ev c (Inl e) # trace s\<rparr>)))
     | (None, out) \<Rightarrow>
         let h = Ev c (Inr (RText out)) # trace s
         in case env_text env h (OpenFile resultFile) of
              Inl e \<Rightarrow> (Err e, s\<lparr>trace := Ev (OpenFile resultFile) (Inl e) # h\<rparr>)
            | Inr content \<Rightarrow> resultLoop env (scanLines content)
                (s\<lparr>trace := Ev (OpenFile resultFile) (Inr (RText content)) # h\<rparr>))"
proof -
  have args: "getScpArgs s = (Ok [''scp'', defaultUserOf d @ ''@'' @ Name (Meta m) @ '':/tmp/result.txt'', ''/tmp''], s)"
    using m d by (simp add: getScpArgs_def getDefaultUser_def run_simps)
  show ?thesis
    using assms(1,3-5)
    by (simp add: isScriptFinished_def run_simps args c runDockerMachine_def Let_def andThen_def
        call_defs perform_def MarkFalse_def split: prod.splits option.splits sum.splits)
qed

end
