(* ===== verification/Cleanup.thy ===== *)
theory Cleanup
  imports Cluster
begin

text \<open>
  Deleting a machine (the cleanup part of \<^verbatim>\<open>util.go\<close>): the files, the docker machine, the
  cloud resources of the driver, and the removal of the finalizer once all of them are gone.
\<close>

section \<open>Operations\<close>

text \<open>A removal whose error counts only when \<^verbatim>\<open>os.IsExist\<close> holds of it.\<close>

definition removeIgnoring :: "env \<Rightarrow> string \<Rightarrow> unit comp" where
  "removeIgnoring env path =
     andThen (attempt (call_unit env (RemoveFile path))) (\<lambda>r.
     case r of
       Inl err \<Rightarrow> if os_IsExist err then throw err else ret ()
     | Inr _ \<Rightarrow> ret ())"

definition deleteFiles :: "env \<Rightarrow> unit comp" where
  "deleteFiles env =
     andThen getScriptFilePath (\<lambda>path.
     andThen (removeIgnoring env path) (\<lambda>_.
     removeIgnoring env (tempDirectory @ ''result.txt'')))"

definition deleteDockerMachine :: "env \<Rightarrow> unit comp" where
  "deleteDockerMachine env =
     andThen theObj (\<lambda>m.
     andThen (runDockerMachine env None [''rm'', Name (Meta m), ''-y'']) (\<lambda>(err, commandError).
     case IgnoreNotFound err of None \<Rightarrow> ret () | Some e \<Rightarrow> throw e))"

definition cleanupMachineResources :: "env \<Rightarrow> unit comp" where
  "cleanupMachineResources env =
     andThen (deleteFiles env) (\<lambda>_.
     andThen (deleteDockerMachine env) (\<lambda>_.
     andThen theObj (\<lambda>m.
     andThen (deref (Driver (Spec m))) (\<lambda>driver.
     if driver = AWSDriver then cleanupAWSResources env
     else if driver = AzureDriver then deleteAzureResourceGroup env
     else ret ()))))"

definition removeFinalizerAfterCleanup :: "env \<Rightarrow> unit comp" where
  "removeFinalizerAfterCleanup env =
     andThen theObj (\<lambda>m.
     if ContainsFinalizer m GetFinalizer
     then
       andThen (updateMachineStatus env (key_of m)) (\<lambda>_.
       andThen (cleanupMachineResources env) (\<lambda>_.
       patchFinalizer env VerbDeleted GetFinalizer))
     else ret ())"

section \<open>What cleanup emits\<close>

fun delete_event :: "event \<Rightarrow> bool" where
  "delete_event (Ev (RemoveFile _) _) = True"
| "delete_event (Ev (RunCmd timeout args) _) = (timeout = None \<and> (\<exists>name. args = [''rm'', name, ''-y'']))"
| "delete_event _ = False"

definition cleanup_event :: "event \<Rightarrow> bool" where
  "cleanup_event e \<longleftrightarrow> delete_event e \<or> client_event e \<or> (\<exists>c. teardown_event c e) \<or> azure_event e"

lemma emits_deleteFiles: "emits delete_event (deleteFiles env)"
  unfolding deleteFiles_def removeIgnoring_def getScriptFilePath_def by (intro emits_intros) simp_all

lemma emits_deleteDockerMachine: "emits delete_event (deleteDockerMachine env)"
  unfolding deleteDockerMachine_def by (intro emits_intros) simp_all

lemma cleanup_events: "emits cleanup_event (cleanupMachineResources env)"
  unfolding cleanupMachineResources_def
  by (intro emits_intros emits_mono [OF emits_deleteFiles] emits_mono [OF emits_deleteDockerMachine])
    (auto simp: cleanup_event_def)

lemma emits_cleanup [emits_intros]:
  "(\<And>e. cleanup_event e \<Longrightarrow> \<phi> e) \<Longrightarrow> emits \<phi> (cleanupMachineResources env)"
  by (rule emits_mono [OF cleanup_events])

lemma same_obj_cleanup [same_obj_intros]:
  "same_obj (deleteFiles env)" "same_obj (deleteDockerMachine env)" "same_obj (cleanupMachineResources env)"
  unfolding cleanupMachineResources_def deleteFiles_def deleteDockerMachine_def removeIgnoring_def
    getScriptFilePath_def cleanupAWSResources_def
  by (intro same_obj_intros)+

lemma sound_deletes [sound_intros]:
  "sound (\<lambda>_. True) (removeIgnoring env p)" "sound (\<lambda>_. True) (deleteDockerMachine env)"
  unfolding removeIgnoring_def deleteDockerMachine_def by (rule sound_intros | simp)+

lemma sound_deleteFiles [sound_intros]: "sound (\<lambda>_. True) (deleteFiles env)"
  unfolding deleteFiles_def by (rule sound_intros | simp)+

lemma sound_removeFinalizerAfterCleanup [sound_intros]:
  assumes "server_specified env" and "sdk_nonnil env"
  shows "sound (\<lambda>_. True) (removeFinalizerAfterCleanup env)"
proof -
  have cleanup: "sound (\<lambda>_. True) (cleanupMachineResources env)"
    unfolding cleanupMachineResources_def
    by (rule sound_intros assms | simp add: specified_def)+
  show ?thesis
    unfolding removeFinalizerAfterCleanup_def by (rule cleanup sound_intros assms | simp)+
qed

section \<open>What a successful cleanup has done\<close>

definition rm_done :: "string \<Rightarrow> history \<Rightarrow> bool" where
  "rm_done name h \<longleftrightarrow> (\<exists>r. Ev (RunCmd None [''rm'', name, ''-y'']) r \<in> set h \<and>
     (\<forall>e. r = Inl e \<longrightarrow> IsNotFound e))"

definition vpc_gone :: "string \<Rightarrow> history \<Rightarrow> bool" where
  "vpc_gone v h \<longleftrightarrow> (\<exists>c r. Ev (EC2 c (DeleteVpc v)) r \<in> set h \<and> gone r)"

definition group_gone :: "string \<Rightarrow> history \<Rightarrow> bool" where
  "group_gone g h \<longleftrightarrow> (\<exists>cred. Ev (PollUntilDone cred g) (Inr RUnit) \<in> set h)"

definition cleaned_up :: "Machine \<Rightarrow> history \<Rightarrow> bool" where
  "cleaned_up m h \<longleftrightarrow> rm_done (Name (Meta m)) h \<and>
     (Driver (Spec m) = Some AWSDriver \<longrightarrow> anno m awsVPCIDAnnotation \<noteq> '''' \<longrightarrow>
        vpc_gone (anno m awsVPCIDAnnotation) h) \<and>
     (Driver (Spec m) = Some AzureDriver \<longrightarrow> group_gone (resourceGroupOf (Parameters (Spec m))) h)"

lemma cleaned_up_mono: "cleaned_up m h \<Longrightarrow> set h \<subseteq> set h' \<Longrightarrow> cleaned_up m h'"
  unfolding cleaned_up_def rm_done_def vpc_gone_def group_gone_def by blast

lemma rm_done_Cons:
  "(\<And>e. r = Inl e \<Longrightarrow> IsNotFound e) \<Longrightarrow> rm_done name (Ev (RunCmd None [''rm'', name, ''-y'']) r # h)"
  unfolding rm_done_def by (rule exI [of _ r]) simp

lemma vpc_gone_Cons: "gone r \<Longrightarrow> vpc_gone v (Ev (EC2 c (DeleteVpc v)) r # h)"
  unfolding vpc_gone_def by (intro exI [of _ c] exI [of _ r]) simp

lemma deleteDockerMachine_Ok:
  assumes "machineObj s = Some m" and "deleteDockerMachine env s = (Ok (), t)"
  shows "rm_done (Name (Meta m)) (trace t)"
  using assms
  by (auto simp: deleteDockerMachine_def run_simps runDockerMachine_def Let_def andThen_def IgnoreNotFound_def
      intro!: rm_done_Cons split: option.splits prod.splits if_splits)

lemma cleanupAWSResources_Ok:
  assumes "machineObj s = Some m" and "anno m awsVPCIDAnnotation \<noteq> ''''"
    and "cleanupAWSResources env s = (Ok (), t)"
  shows "vpc_gone (anno m awsVPCIDAnnotation) (trace t)"
proof -
  obtain c u where u: "awsEC2Client env s = (Ok c, u)"
    "andThen theObj (\<lambda>m. deleteAwsVpc env c (anno m awsVPCIDAnnotation)) u = (Ok (), t)"
    using assms(3) unfolding cleanupAWSResources_def by (auto elim: andThen_cases)
  have "machineObj u = Some m"
    using assms(1) same_objD [OF same_obj_client u(1)] by simp
  with u(2) assms(2) show ?thesis
    by (auto simp: run_simps vpc_gone_Cons elim!: deleteAwsVpc_Ok)

qed

text \<open>Cleanup that returns without an error leaves nothing of the machine behind.\<close>

lemma cleanup_Ok:
  assumes m: "machineObj s = Some m" and ok: "cleanupMachineResources env s = (Ok (), t)"
  shows "cleaned_up m (trace t)" and "machineObj t = Some m"
proof -
  obtain s1 where s1: "deleteFiles env s = (Ok (), s1)"
    and rest: "andThen (deleteDockerMachine env) (\<lambda>_. andThen theObj (\<lambda>m.
     andThen (deref (Driver (Spec m))) (\<lambda>driver.
     if driver = AWSDriver then cleanupAWSResources env
     else if driver = AzureDriver then deleteAzureResourceGroup env
     else ret ()))) s1 = (Ok (), t)"
    using ok unfolding cleanupMachineResources_def by (auto elim: andThen_cases)
  obtain s2 where s2: "deleteDockerMachine env s1 = (Ok (), s2)"
    and rest: "andThen theObj (\<lambda>m.
     andThen (deref (Driver (Spec m))) (\<lambda>driver.
     if driver = AWSDriver then cleanupAWSResources env
     else if driver = AzureDriver then deleteAzureResourceGroup env
     else ret ())) s2 = (Ok (), t)"
    using rest by (auto elim: andThen_cases)
  have m1: "machineObj s1 = Some m" using m same_objD [OF same_obj_cleanup(1) s1] by simp
  have m2: "machineObj s2 = Some m" using m1 same_objD [OF same_obj_cleanup(2) s2] by simp
  obtain d where d: "Driver (Spec m) = Some d"
    and last: "(if d = AWSDriver then cleanupAWSResources env
     else if d = AzureDriver then deleteAzureResourceGroup env else ret ()) s2 = (Ok (), t)"
    using rest m2 by (cases "Driver (Spec m)") (auto simp: run_simps)
  have "emits (\<lambda>_. True) (if d = AWSDriver then cleanupAWSResources env
     else if d = AzureDriver then deleteAzureResourceGroup env else ret ())"
    by (auto intro!: emits_intros)
  then have "set (trace s2) \<subseteq> set (trace t)" using last by (auto elim: emitsD)
  then have "rm_done (Name (Meta m)) (trace t)"
    using deleteDockerMachine_Ok [OF m1 s2] unfolding rm_done_def by blast
  moreover have "vpc_gone (anno m awsVPCIDAnnotation) (trace t)"
    if "d = AWSDriver" "anno m awsVPCIDAnnotation \<noteq> ''''"
    using last that cleanupAWSResources_Ok [OF m2 that(2)] by simp
  moreover have "group_gone (resourceGroupOf (Parameters (Spec m))) (trace t)" if "d = AzureDriver"
    using last that m2
    by (auto simp: AWSDriver_def AzureDriver_def group_gone_def elim!: deleteAzureResourceGroup_Ok)
  ultimately show "cleaned_up m (trace t)" using d by (simp add: cleaned_up_def)
  show "machineObj t = Some m" using m same_objD [OF same_obj_cleanup(3) ok] by simp
qed

end
