(* ===== verification/Reconcile.thy ===== *)
theory Reconcile
  imports Cleanup
begin

text \<open>
  The reconcilers (\<^verbatim>\<open>machine_controller.go\<close>, \<^verbatim>\<open>driver_controller.go\<close>): one run for one
  request, returning the result and error handed to the controller runtime.
\<close>

section \<open>Operations\<close>

definition updateMachineReconcile :: "env \<Rightarrow> NamespacedName \<Rightarrow> unit comp" where
  "updateMachineReconcile env namespacedName =
     andThen (call_machine env (GetMachine namespacedName)) putObj"

definition errorOf :: "gerr + 'a \<Rightarrow> gerr option" where
  "errorOf r = (case r of Inl e \<Rightarrow> Some e | Inr _ \<Rightarrow> None)"

text \<open>The part of \<^verbatim>\<open>Reconcile\<close> for a machine that is not being deleted.\<close>

definition reconcileCreation :: "env \<Rightarrow> NamespacedName \<Rightarrow> (ctrl_Result \<times> gerr option) comp" where
  "reconcileCreation env req =
     andThen (attempt (ensureFinalizer env)) (\<lambda>r.
     case r of
       Inl err \<Rightarrow> if IsNotFound err then reconciled
                   else requeueWithError env ''Failed to ensure Finalizers'' err
     | Inr _ \<Rightarrow>
         andThen (attempt (createMachine env)) (\<lambda>r.
         case r of
           Inl err \<Rightarrow> requeueWithError env ''Failed to create Machine'' err
         | Inr _ \<Rightarrow>
             andThen (attempt (isScriptFinished env)) (\<lambda>r.
             case r of
               Inl err \<Rightarrow> requeueWithError env '''' err
             | Inr rekey \<Rightarrow>
                 andThen (attempt (updateMachineStatus env req)) (\<lambda>r.
                 ret (if rekey then \<lparr>RequeueAfter = minute\<rparr> else emptyResult, errorOf r)))))"

definition reconcileDeletion :: "env \<Rightarrow> (ctrl_Result \<times> gerr option) comp" where
  "reconcileDeletion env =
     andThen (attempt (removeFinalizerAfterCleanup env)) (\<lambda>r.
     case r of
       Inl err \<Rightarrow> requeueWithError env '''' err
     | Inr _ \<Rightarrow> reconciled)"

definition Reconcile :: "env \<Rightarrow> NamespacedName \<Rightarrow> (ctrl_Result \<times> gerr option) comp" where
  "Reconcile env req =
     andThen (attempt (updateMachineReconcile env req)) (\<lambda>r.
     case r of
       Inl err \<Rightarrow> if IsNotFound err then ret (emptyResult, None)
                   else requeueWithError env ''Failed to get Machine'' err
     | Inr _ \<Rightarrow>
         andThen theObj (\<lambda>m.
         if Phase (Status m) = ''''
         then andThen (attempt (updateMachineStatus env req)) (\<lambda>r. ret (emptyResult, errorOf r))
         else
           andThen isMarkedForDeletion (\<lambda>deleting.
           if deleting then reconcileDeletion env else reconcileCreation env req)))"

definition DriverReconcile :: "env \<Rightarrow> NamespacedName \<Rightarrow> (ctrl_Result \<times> gerr option) comp" where
  "DriverReconcile env req = ret (emptyResult, None)"

section \<open>What a run emits\<close>

text \<open>Creating something outside the API server: a docker machine, or an AWS resource.\<close>

fun creates_external :: "event \<Rightarrow> bool" where
  "creates_external (Ev (RunCmd _ args) _) = (args \<noteq> [] \<and> hd args = ''create'')"
| "creates_external (Ev (EC2 _ x) _) = ec2_creates x"
| "creates_external _ = False"

fun removes_finalizer :: "event \<Rightarrow> bool" where
  "removes_finalizer (Ev (PatchMachine cur modified) _) =
     (ContainsFinalizer cur GetFinalizer \<and> \<not> ContainsFinalizer modified GetFinalizer)"
| "removes_finalizer _ = False"

text \<open>The server holds the finalizer: it answered with it, or accepted an object that has it.\<close>

definition finalizer_stored :: "event \<Rightarrow> bool" where
  "finalizer_stored e =
     (case evReply e of
        Inl _ \<Rightarrow> False
      | Inr r \<Rightarrow>
          (case evCall e of
             GetMachine _ \<Rightarrow> (case r of RMachine m \<Rightarrow> ContainsFinalizer m GetFinalizer | _ \<Rightarrow> False)
           | PatchMachine _ m \<Rightarrow> ContainsFinalizer m GetFinalizer
           | CreateMachine m \<Rightarrow> ContainsFinalizer m GetFinalizer
           | _ \<Rightarrow> False))"

definition finalizer_seen :: "history \<Rightarrow> bool" where
  "finalizer_seen h \<longleftrightarrow> (\<exists>e \<in> set h. finalizer_stored e)"

text \<open>A machine the server has answered with, up to its status.\<close>

definition observed :: "Machine \<Rightarrow> history \<Rightarrow> bool" where
  "observed m h \<longleftrightarrow> (\<exists>c m0. Ev c (Inr (RMachine m0)) \<in> set h \<and> Meta m0 = Meta m \<and> Spec m0 = Spec m)"

definition cleanup_done :: "history \<Rightarrow> bool" where
  "cleanup_done h \<longleftrightarrow> (\<exists>m. observed m h \<and> cleaned_up m h)"

lemma status_facts:
  assumes "status_event e"
  shows "\<not> creates_external e" "\<not> removes_finalizer e" "\<not> create_event e"
  using assms by (cases e rule: status_event.cases; simp)+

lemma client_facts:
  assumes "client_event e"
  shows "\<not> creates_external e" "\<not> removes_finalizer e" "\<not> create_event e"
  using assms by (cases e rule: client_event.cases; simp)+

lemma file_facts:
  assumes "file_event e"
  shows "\<not> creates_external e" "\<not> removes_finalizer e" "\<not> create_event e"
  using assms by (cases e rule: file_event.cases; simp)+

lemma script_facts:
  assumes "script_event e"
  shows "\<not> creates_external e" "\<not> removes_finalizer e" "\<not> create_event e"
  using assms by (cases e rule: script_event.cases; auto)+

lemma azure_facts:
  assumes "azure_event e"
  shows "\<not> creates_external e" "\<not> removes_finalizer e" "\<not> create_event e"
  using assms by (cases e rule: azure_event.cases; simp)+

lemma delete_facts:
  assumes "delete_event e"
  shows "\<not> creates_external e" "\<not> removes_finalizer e" "\<not> create_event e"
  using assms by (cases e rule: delete_event.cases; auto)+

lemma ec2_deletes_not_creates: "ec2_deletes x \<Longrightarrow> \<not> ec2_creates x"
  by (cases x) auto

lemma teardown_facts:
  assumes "teardown_event c e"
  shows "\<not> creates_external e" "\<not> removes_finalizer e" "\<not> create_event e"
  using assms by (cases e; auto simp: teardown_event_def ec2_deletes_not_creates)+

lemma meta_facts:
  assumes "meta_event f e"
  shows "\<not> creates_external e" "\<not> create_event e"
  using assms by (cases "(f, e)" rule: meta_event.cases; simp)+

lemma adding_keeps_finalizer: "meta_event (finalizerTransform VerbCreated f) e \<Longrightarrow> \<not> removes_finalizer e"
  by (cases "(finalizerTransform VerbCreated f, e)" rule: meta_event.cases)
    (auto simp: finalizerTransform_def ContainsFinalizer_def AddFinalizer_def)

lemma aws_keeps_finalizer: "aws_event c e \<Longrightarrow> \<not> removes_finalizer e"
  by (cases e rule: removes_finalizer.cases)
    (auto simp: aws_event_def annotationTransform_def ContainsFinalizer_def)


lemma create_keeps_finalizer: "create_event e \<Longrightarrow> \<not> removes_finalizer e"
  by (cases e rule: create_event.cases) auto

lemmas cleanup_facts = delete_facts client_facts teardown_facts azure_facts

lemma cleanup_event_facts:
  assumes "cleanup_event e"
  shows "\<not> creates_external e" "\<not> removes_finalizer e" "\<not> create_event e"
  using assms by (auto simp: cleanup_event_def dest: cleanup_facts)

lemma prepare_keeps_finalizer: "prepare_event e \<Longrightarrow> \<not> removes_finalizer e"
  by (auto simp: prepare_event_def dest: status_facts client_facts file_facts aws_keeps_finalizer)

lemma emits_updateMachineReconcile [emits_intros]:
  "(\<And>nn r. \<phi> (Ev (GetMachine nn) r)) \<Longrightarrow> emits \<phi> (updateMachineReconcile env req)"
  unfolding updateMachineReconcile_def by (intro emits_intros)

lemma emits_reconciled [emits_intros]: "emits \<phi> reconciled"
  unfolding reconciled_def by (intro emits_intros)

lemma emits_reconcileCreation:
  assumes "\<And>e. status_event e \<Longrightarrow> \<phi> e" "\<And>e. prepare_event e \<Longrightarrow> \<phi> e" "\<And>e. create_event e \<Longrightarrow> \<phi> e"
    "\<And>e. script_event e \<Longrightarrow> \<phi> e" "\<And>e. meta_event (finalizerTransform VerbCreated GetFinalizer) e \<Longrightarrow> \<phi> e"
  shows "emits \<phi> (reconcileCreation env req)"
  unfolding reconcileCreation_def by (intro emits_intros assms)

lemma emits_reconcileDeletion:
  assumes "\<And>e. status_event e \<Longrightarrow> \<phi> e" "\<And>e. cleanup_event e \<Longrightarrow> \<phi> e"
    "\<And>e. meta_event (finalizerTransform VerbDeleted GetFinalizer) e \<Longrightarrow> \<phi> e"
  shows "emits \<phi> (reconcileDeletion env)"
  unfolding reconcileDeletion_def removeFinalizerAfterCleanup_def by (intro emits_intros assms)

text \<open>The parts of a run behind the first read, and the run as read and rest.\<close>

definition afterGet :: "env \<Rightarrow> NamespacedName \<Rightarrow> (ctrl_Result \<times> gerr option) comp" where
  "afterGet env req =
     andThen theObj (\<lambda>m.
     if Phase (Status m) = ''''
     then andThen (attempt (updateMachineStatus env req)) (\<lambda>r. ret (emptyResult, errorOf r))
     else
       andThen isMarkedForDeletion (\<lambda>deleting.
       if deleting then reconcileDeletion env else reconcileCreation env req))"

lemma Reconcile_run:
  "Reconcile env req s =
    (case env_machine env (trace s) (GetMachine req) of
       Inr m \<Rightarrow> afterGet env req
         (s\<lparr>machineObj := Some m, trace := Ev (GetMachine req) (Inr (RMachine m)) # trace s\<rparr>)
     | Inl e \<Rightarrow>
         let t = s\<lparr>trace := Ev (GetMachine req) (Inl e) # trace s\<rparr>
         in if IsNotFound e then (Ok (emptyResult, None), t)
            else requeueWithError env ''Failed to get Machine'' e t)"
  by (cases "env_machine env (trace s) (GetMachine req)")
    (simp_all add: Reconcile_def updateMachineReconcile_def run_simps call_defs afterGet_def Let_def)

lemma afterGet_run:
  assumes "machineObj s = Some m"
  shows "afterGet env req s =
    (if Phase (Status m) = ''''
     then andThen (attempt (updateMachineStatus env req)) (\<lambda>r. ret (emptyResult, errorOf r)) s
     else if isDeleting m then reconcileDeletion env s else reconcileCreation env req s)"
  using assms by (simp add: afterGet_def isMarkedForDeletion_def run_simps)

lemma emits_Reconcile:
  assumes "\<And>e. status_event e \<Longrightarrow> \<phi> e" "\<And>e. prepare_event e \<Longrightarrow> \<phi> e" "\<And>e. create_event e \<Longrightarrow> \<phi> e"
    "\<And>e. script_event e \<Longrightarrow> \<phi> e" "\<And>e. cleanup_event e \<Longrightarrow> \<phi> e"
    "\<And>e. meta_event (finalizerTransform VerbCreated GetFinalizer) e \<Longrightarrow> \<phi> e"
    "\<And>e. meta_event (finalizerTransform VerbDeleted GetFinalizer) e \<Longrightarrow> \<phi> e"

  shows "emits \<phi> (Reconcile env req)"
proof -
  have get: "\<phi> (Ev (GetMachine nn) r)" for nn r by (rule assms(1)) simp
  show ?thesis unfolding Reconcile_def
    by (intro emits_intros emits_reconcileCreation emits_reconcileDeletion)
      (use assms get in auto)
qed

end
