(* ===== verification/Invariants.thy ===== *)
theory Invariants
  imports Reconcile
begin

text \<open>
  Invariants of a run as an interface. An invariant of the reconciler's state is kept by every
  operation as soon as it is kept by the few that touch the object at hand, write to the API
  server or call AWS. The locale \<^verbatim>\<open>core_invariant\<close> states these laws and proves the rest once,
  up to the create and remove commands and the removal of the finalizer, which an invariant may
  treat specially; \<^verbatim>\<open>full_invariant\<close> adds them and covers the whole run. For an invariant that
  does not care about EC2 calls, \<^verbatim>\<open>run_invariant\<close> gives the laws about AWS.
\<close>

text \<open>
  Calls that neither write to the API server nor create or remove a docker machine, without and
  with the EC2 calls.
\<close>

fun plain :: "call \<Rightarrow> bool" where
  "plain (CreateMachine _) = False"
| "plain (PatchMachine _ _) = False"
| "plain (PatchStatus _ _) = False"
| "plain (EC2 _ _) = False"
| "plain (RunCmd _ args) = (args \<noteq> [] \<and> hd args = ''scp'')"
| "plain _ = True"

fun is_ec2 :: "call \<Rightarrow> bool" where
  "is_ec2 (EC2 _ _) = True"
| "is_ec2 _ = False"

abbreviation harmless :: "call \<Rightarrow> bool" where
  "harmless c \<equiv> plain c \<or> is_ec2 c"

text \<open>The condition types the operator writes itself.\<close>

definition markedTypes :: "condition_type list" where
  "markedTypes = MachineConditionTypeMachineCreating # ConditionsOrder"

lemma markedTypes [simp]:
  "MachineConditionTypeMachineReady \<in> set markedTypes" "MachineConditionTypeScriptReady \<in> set markedTypes"
  "MachineConditionTypeAuthDataReady \<in> set markedTypes" "MachineConditionTypeMachineCreating \<in> set markedTypes"
  "MachineConditionTypeClusterOperationComplete \<in> set markedTypes"
  by (simp_all add: markedTypes_def ConditionsOrder_def)

lemmas aws_defs = createAWSEnvironment_def createAwsVpc_def obtainVpc_def createAwsSubnet_def deleteAwsVpc_def
    createAwsInternetGateway_def deleteAwsSubnet_def deleteAwsInternetGateway_def createAwsRoute_def
    deleteAwsRoute_def attachInternetGatewayToVPC_def detachInternetGatewayToVPC_def ignoreMissing_def
    rollback_def deleteSecurityGroup_def getVPC_def vpcAvailable_def awsEC2Client_def
    newAWSClientSession_def getAWSCredentials_def cleanupAWSResources_def getSecret_def Let_def

named_theorems invariant_intros \<open>operations that keep an invariant\<close>

locale core_invariant =
  fixes I :: "st \<Rightarrow> bool" and env :: env
  assumes event: "plain c \<Longrightarrow> I s \<Longrightarrow> I (s\<lparr>trace := Ev c r # trace s\<rparr>)"
    and tick: "I s \<Longrightarrow> I (s\<lparr>ticks := n\<rparr>)"
    and mark_true: "t \<in> set markedTypes \<Longrightarrow> keeps I (MarkTrue env t)"
    and mark_false: "t \<in> set markedTypes \<Longrightarrow> keeps I (MarkFalse env t reason ConditionSeverityError msg)"
    and status: "keeps I (updateMachineStatus env nn)"
    and finalize: "keeps I (patchFinalizer env VerbCreated GetFinalizer)"
    and aws_create: "keeps I (createAWSEnvironment env)"
    and aws_clean: "keeps I (cleanupAWSResources env)"
begin

lemmas laws [invariant_intros] = mark_true mark_false status finalize aws_create aws_clean

lemma perform [invariant_intros]: "plain c \<Longrightarrow> keeps I (perform oracle wrap c)"
  by (rule keepsI) (auto simp: perform_def intro: event split: sum.splits)

lemma calls [invariant_intros]:
  "plain c \<Longrightarrow> keeps I (call_unit env' c)" "plain c \<Longrightarrow> keeps I (call_machine env' c)"
  "plain c \<Longrightarrow> keeps I (call_secret env' c)" "plain c \<Longrightarrow> keeps I (call_text env' c)"
  "plain c \<Longrightarrow> keeps I (call_id env' c)" "keeps I (time_Now env')"
  "args \<noteq> [] \<Longrightarrow> hd args = ''scp'' \<Longrightarrow> keeps I (runDockerMachine env' timeout args)"
  unfolding call_defs
  by ((rule perform, assumption)+, (rule keepsI, auto simp: time_Now_def runDockerMachine_def Let_def
      intro: event tick split: prod.splits)+)

lemma requeue [invariant_intros]: "keeps I (requeueWithError env msg err)"
  unfolding requeueWithError_def by (intro invariant_intros keeps_intros)

lemma initial [invariant_intros]: "keeps I (setInitialConditions env)"
  unfolding setInitialConditions_def by (intro invariant_intros keeps_intros) simp_all

lemma ensure [invariant_intros]: "keeps I (ensureFinalizer env)"
  unfolding ensureFinalizer_def by (intro invariant_intros keeps_intros)

lemma azure [invariant_intros]: "keeps I (deleteAzureResourceGroup env)"
  unfolding deleteAzureResourceGroup_def getAzureCredential_def getResourceGroupName_def getSecret_def
  by (intro invariant_intros keeps_intros; simp)

lemma authArgsLoop [invariant_intros]: "keeps I (authArgsLoop d data acc)"
proof (induction data arbitrary: acc)
  case (Cons kv data)
  then show ?case by (cases kv) (auto simp: Let_def intro!: keeps_intros)
qed (auto intro!: keeps_intros)

lemma creation_steps [invariant_intros]:
  "keeps I (createPrerequisitesForMachine env)" "keeps I (scriptArgsStep env)" "keeps I (authArgsStep env)"
  "keeps I getAMIIDArg" "keeps I getAnnotationsArgsForAWS" "keeps I getScriptFilePath"
  unfolding createPrerequisitesForMachine_def scriptArgsStep_def authArgsStep_def getStartupScriptArgs_def
    scriptArgsFrom_def getAuthSecretArgs_def getScriptFilePath_def getSecret_def getAMIIDArg_def
    getAnnotationsArgsForAWS_def Let_def
  by (intro invariant_intros keeps_intros; simp)+

lemma creation_args [invariant_intros]: "keeps I (getMachineCreationArgs env)"
  unfolding getMachineCreationArgs_def Let_def by (intro invariant_intros keeps_intros)

lemma script [invariant_intros]: "keeps I (isScriptFinished env)"
proof -
  have loop: "keeps I (resultLoop env ls)" for ls
    by (induction ls) (auto split: option.splits intro!: keeps_intros invariant_intros)
  have args: "keeps I getScpArgs"
    unfolding getScpArgs_def getDefaultUser_def by (intro keeps_intros)
  show ?thesis unfolding isScriptFinished_def
    by (intro keeps_returns [OF returns_scp args] loop invariant_intros keeps_intros; auto)
qed

lemma files [invariant_intros]: "keeps I (deleteFiles env)"
  unfolding deleteFiles_def removeIgnoring_def by (intro invariant_intros keeps_intros; simp)

end

section \<open>Invariants of whole runs\<close>

text \<open>The commands, the removal of the finalizer and the first read.\<close>

locale full_invariant = core_invariant +
  assumes command: "I s \<Longrightarrow> I (s\<lparr>trace := Ev (RunCmd timeout args) r # trace s\<rparr>)"
    and unfinalize: "keeps I (patchFinalizer env VerbDeleted GetFinalizer)"
    and read: "keeps I (updateMachineReconcile env req)"
begin

lemma run_command: "keeps I (runDockerMachine env' timeout args)"
  by (rule keepsI) (auto simp: runDockerMachine_def Let_def intro: command split: prod.splits)

lemma createMachine: "keeps I (createMachine env)"
  unfolding createMachine_def runCreate_def by (intro run_command invariant_intros keeps_intros) simp_all

lemma deletion: "keeps I (reconcileDeletion env)"
  unfolding reconcileDeletion_def reconciled_def removeFinalizerAfterCleanup_def cleanupMachineResources_def
    deleteDockerMachine_def
  by (intro run_command unfinalize invariant_intros keeps_intros)

lemma creation: "keeps I (reconcileCreation env req)"
  unfolding reconcileCreation_def reconciled_def by (intro createMachine invariant_intros keeps_intros)

lemma after_read: "keeps I (afterGet env req)"
  unfolding afterGet_def isMarkedForDeletion_def by (intro deletion creation invariant_intros keeps_intros)

theorem reconcile: "keeps I (Reconcile env req)"
  unfolding Reconcile_def isMarkedForDeletion_def by (intro read deletion creation invariant_intros keeps_intros)

end

section \<open>Invariants that EC2 calls keep\<close>

locale run_invariant =
  fixes I :: "st \<Rightarrow> bool" and env :: env
  assumes any_event: "harmless c \<Longrightarrow> I s \<Longrightarrow> I (s\<lparr>trace := Ev c r # trace s\<rparr>)"
    and ticks: "I s \<Longrightarrow> I (s\<lparr>ticks := n\<rparr>)"
    and marks_true: "t \<in> set markedTypes \<Longrightarrow> keeps I (MarkTrue env t)"
    and marks_false: "t \<in> set markedTypes \<Longrightarrow> keeps I (MarkFalse env t reason ConditionSeverityError msg)"
    and updates_status: "keeps I (updateMachineStatus env nn)"
    and annotates: "keeps I (patchAnnotation env key val)"
    and finalizes: "keeps I (patchFinalizer env VerbCreated GetFinalizer)"
begin

lemma any_perform: "harmless c \<Longrightarrow> keeps I (perform oracle wrap c)"
  by (rule keepsI) (auto simp: perform_def intro: any_event split: sum.splits)

lemma any_calls:
  "harmless c \<Longrightarrow> keeps I (call_unit env' c)" "harmless c \<Longrightarrow> keeps I (call_secret env' c)"
  "harmless c \<Longrightarrow> keeps I (call_id env' c)" "keeps I (time_Sleep d)"
  unfolding call_defs
  by ((rule any_perform, assumption)+, rule keepsI, auto simp: time_Sleep_def intro: any_event)

lemma wait:
  assumes "keeps I probe"
  shows "keeps I (waitForState retry timeout probe)"
proof -
  have "keeps I (waitLoop n retry timeout t probe)" for n t
    by (induction n arbitrary: t) (auto intro!: keeps_intros any_calls assms)
  then show ?thesis by (simp add: waitForState_def)
qed

lemma finders: "keeps I (findRouteTable v rts acc)" "keeps I (findVpc v vpcs)" "keeps I (deleteGroups env c sgs)"
proof -
  show "keeps I (findRouteTable v rts acc)" by (induction rts arbitrary: acc) (auto intro!: keeps_intros)
  show "keeps I (findVpc v vpcs)" by (induction vpcs) (auto intro!: keeps_intros)
  show "keeps I (deleteGroups env c sgs)" by (induction sgs) (auto intro!: keeps_intros any_calls)
qed

lemma aws: "keeps I (createAWSEnvironment env)" "keeps I (cleanupAWSResources env)"
  unfolding aws_defs by (intro any_perform any_calls wait finders annotates keeps_intros; simp)+

end

sublocale run_invariant \<subseteq> core_invariant
  by unfold_locales (auto intro: any_event ticks marks_true marks_false updates_status finalizes aws)

section \<open>Predicates on machines\<close>

text \<open>
  The invariants that speak of machines only: the object at hand satisfies a predicate, and
  every machine that was sent to the API server satisfies a (weaker) one. It is enough that the
  predicate is kept by the operator's condition writes, by the summary and by changes of the
  metadata, that the server answers with such machines, and that the clock reads as expected.
\<close>

definition obj_sat :: "(Machine \<Rightarrow> bool) \<Rightarrow> st \<Rightarrow> bool" where
  "obj_sat W s \<longleftrightarrow> (\<forall>m. machineObj s = Some m \<longrightarrow> W m)"

definition all_sent :: "(Machine \<Rightarrow> bool) \<Rightarrow> st \<Rightarrow> bool" where
  "all_sent S s \<longleftrightarrow> (\<forall>e \<in> set (trace s). sends S (evCall e))"

lemma obj_sat_update [simp]:
  "obj_sat W (s\<lparr>trace := h\<rparr>) = obj_sat W s" "obj_sat W (s\<lparr>ticks := n\<rparr>) = obj_sat W s"
  "obj_sat W (s\<lparr>machineObj := Some m\<rparr>) = W m"
  by (simp_all add: obj_sat_def)

lemma all_sent_update [simp]:
  "all_sent S (s\<lparr>machineObj := mo\<rparr>) = all_sent S s" "all_sent S (s\<lparr>ticks := n\<rparr>) = all_sent S s"
  "all_sent S (s\<lparr>trace := e # h\<rparr>) = (sends S (evCall e) \<and> all_sent S (s\<lparr>trace := h\<rparr>))"
  "all_sent S (s\<lparr>trace := trace s\<rparr>) = all_sent S s"
  by (auto simp: all_sent_def)

lemma harmless_sends: "harmless c \<Longrightarrow> sends S c"
  by (cases c) auto

definition assumed :: "(Machine \<Rightarrow> bool) \<Rightarrow> (gotime \<Rightarrow> bool) \<Rightarrow> env \<Rightarrow> bool" where
  "assumed W clock env \<longleftrightarrow> server_answers W env \<and> (\<forall>n h. clock (env_now env n h))"

definition sat_inv :: "(Machine \<Rightarrow> bool) \<Rightarrow> (Machine \<Rightarrow> bool) \<Rightarrow> (gotime \<Rightarrow> bool) \<Rightarrow> env \<Rightarrow> st \<Rightarrow> bool" where
  "sat_inv W S clock env s \<longleftrightarrow> (assumed W clock env \<longrightarrow> obj_sat W s \<and> all_sent S s)"

locale machine_predicate =
  fixes W S :: "Machine \<Rightarrow> bool" and clock :: "gotime \<Rightarrow> bool"
  assumes weaker: "W m \<Longrightarrow> S m"
    and true: "t \<in> set markedTypes \<Longrightarrow> clock now \<Longrightarrow> W m \<Longrightarrow>
      W (SetConditions m (cond_Set now (getter_of m) (Some (TrueCondition t))))"
    and false: "t \<in> set markedTypes \<Longrightarrow> clock now \<Longrightarrow> W m \<Longrightarrow>
      W (SetConditions m (cond_Set now (getter_of m) (Some (FalseCondition t reason ConditionSeverityError msg))))"
    and summary: "clock now \<Longrightarrow> W m \<Longrightarrow> W (summarized now m)"
    and meta: "W m \<Longrightarrow> W (SetMeta m om)"
begin

lemma sends_weaker: "sends W c \<Longrightarrow> sends S c"
  by (cases c) (auto intro: weaker)

lemma set_condition:
  assumes "\<And>now m. clock now \<Longrightarrow> W m \<Longrightarrow> W (SetConditions m (cond_Set now (getter_of m) c))"
  shows "keeps (sat_inv W S clock env) (setCondition env c)"
proof (rule keepsI)
  fix s assume s: "sat_inv W S clock env s"
  show "sat_inv W S clock env (snd (setCondition env c s))"
  proof (cases "machineObj s")
    case None
    then show ?thesis using s by (simp add: setCondition_def theObj_def andThen_def)
  next
    case (Some m)
    then show ?thesis using s assms by (auto simp: run_simps sat_inv_def assumed_def obj_sat_def all_sent_def)
  qed
qed

lemma status_update: "keeps (sat_inv W S clock env) (updateMachineStatus env nn)"
proof (rule keepsI)
  fix s assume s: "sat_inv W S clock env s"
  show "sat_inv W S clock env (snd (updateMachineStatus env nn s))"
  proof (cases "env_machine env (trace s) (GetMachine nn)")
    case (Inl e)
    then show ?thesis using s by (simp add: updateMachineStatus_get_error sat_inv_def)
  next
    case (Inr cur)
    show ?thesis
    proof (cases "machineObj s")
      case None
      then show ?thesis using s Inr
        by (simp add: updateMachineStatus_def SetSummary_def call_defs run_simps theObj_def andThen_def sat_inv_def)
    next
      case (Some m)
      have "sat_inv W S clock env (snd (after_status env nn cur m s))"
        using s Some unfolding sat_inv_def assumed_def
        by (auto simp: after_status_def Let_def obj_sat_def all_sent_def summary weaker
            intro: server_answersD [where c = "PatchStatus cur (summarized _ m)"] split: sum.splits)
      then show ?thesis by (simp add: updateMachineStatus_run [OF Some Inr])
    qed
  qed
qed

lemma create_or_patch:
  assumes f: "\<And>m b. W m \<Longrightarrow> W (f m b)"
  shows "keeps (sat_inv W S clock env) (CreateOrPatchE env f)"
proof (rule keepsI)
  fix s assume s: "sat_inv W S clock env s"
  have put: "sat_inv W S clock env (snd (andThen (call_machine env c) putObj u))"
    if "sat_inv W S clock env u" "assumed W clock env \<Longrightarrow> sends W c" for c u
    using that
    by (auto simp: sat_inv_def assumed_def call_defs perform_def andThen_def putObj_def sends_weaker
        intro: server_answersD split: sum.splits)
  show "sat_inv W S clock env (snd (CreateOrPatchE env f s))"
  proof (cases "machineObj s")
    case None
    then show ?thesis using s by (simp add: CreateOrPatchE_def theObj_def andThen_def)
  next
    case (Some m)
    have read: "sat_inv W S clock env (s\<lparr>trace := Ev (GetMachine nn) r # trace s\<rparr>)" for nn r
      using s by (simp add: sat_inv_def)
    have "W m" if "assumed W clock env" using that s Some by (simp add: sat_inv_def obj_sat_def)
    moreover have "W cur" if "assumed W clock env" "env_machine env (trace s) (GetMachine (key_of m)) = Inr cur" for cur
      using that by (auto simp: assumed_def intro: server_answersD)
    ultimately show ?thesis
      by (auto simp: CreateOrPatchE_run [OF Some] Let_def f meta read intro!: put split: sum.splits)
  qed
qed

lemma patches:
  "keeps (sat_inv W S clock env) (patchFinalizer env v f)" "keeps (sat_inv W S clock env) (patchAnnotation env x y)"
  unfolding patchFinalizer_def patchAnnotation_def
  by (rule create_or_patch; simp add: finalizerTransform_def annotationTransform_def meta split: VerbType.splits)+

end

sublocale machine_predicate \<subseteq> run: run_invariant "sat_inv W S clock env" env for env
proof
  show "keeps (sat_inv W S clock env) (MarkTrue env t)"
    "keeps (sat_inv W S clock env) (MarkFalse env t reason ConditionSeverityError msg)"
    if "t \<in> set markedTypes" for t reason msg
    unfolding MarkTrue_def MarkFalse_def using that by (auto intro!: set_condition true false)
qed (auto simp: sat_inv_def harmless_sends status_update patches)

sublocale machine_predicate \<subseteq> run: full_invariant "sat_inv W S clock env" env for env
proof
  show "keeps (sat_inv W S clock env) (updateMachineReconcile env req)" for req
    by (rule keepsI) (auto simp: updateMachineReconcile_def sat_inv_def assumed_def call_defs perform_def andThen_def
        putObj_def intro: server_answersD split: sum.splits)
qed (auto simp: sat_inv_def patches)

end
