(* ===== verification/Reconcile_Safety.thy ===== *)
theory Reconcile_Safety
  imports Invariants
begin

text \<open>
  Safety of a whole run: what must lie in the past of an event (nothing is created outside before
  the finalizer is with the server, and the finalizer is not removed before the cleanup is done),
  the well-formedness of the object at hand, the absence of panics and divergence, and how often
  the create command runs.
\<close>

section \<open>Guarded events of a run\<close>

interpretation creation: guard creates_external finalizer_seen
  by unfold_locales (simp add: finalizer_seen_def)

interpretation removal: guard removes_finalizer cleanup_done
proof
  fix h e assume "cleanup_done h"
  then obtain m where m: "observed m h" "cleaned_up m h" by (auto simp: cleanup_done_def)
  then have "observed m (e # h)" "cleaned_up m (e # h)"
    by (auto simp: observed_def intro: cleaned_up_mono)
  then show "cleanup_done (e # h)" by (auto simp: cleanup_done_def)
qed

text \<open>The finalizer is with the server once \<^const>\<open>ensureFinalizer\<close> returns without an error.\<close>

lemma ensureFinalizer_Ok:
  assumes m: "machineObj s = Some m" and "ensureFinalizer env s = (Ok (), t)"
    and "ContainsFinalizer m GetFinalizer \<Longrightarrow> finalizer_seen (trace s)"
  shows "finalizer_seen (trace t)"
proof (cases "ContainsFinalizer m GetFinalizer")
  case True
  then show ?thesis using assms by (simp add: ensureFinalizer_def run_simps)
next
  case False
  have added: "ContainsFinalizer (finalizerTransform VerbCreated GetFinalizer mc b) GetFinalizer" for mc b
    by (simp add: finalizerTransform_def ContainsFinalizer_def finalizers.has_add)
  have "CreateOrPatchE env (finalizerTransform VerbCreated GetFinalizer) s = (Ok (), t)"
    using assms(2) m False by (simp add: ensureFinalizer_def run_simps patchFinalizer_def)
  then show ?thesis
    using added
    by (auto simp: CreateOrPatchE_run [OF m] Let_def call_defs perform_def andThen_def putObj_def finalizer_seen_def
        finalizer_stored_def ContainsFinalizer_def split: sum.splits if_splits)
qed

lemma creation_phase_guarded:
  assumes "machineObj s = Some m" and "ContainsFinalizer m GetFinalizer \<Longrightarrow> finalizer_seen (trace s)"
    and "creation.guarded (trace s)"
  shows "creation.guarded (trace (snd (reconcileCreation env req s)))"
proof -
  let ?P = "\<lambda>s. creation.guarded (trace s)"
  obtain r t where rt: "ensureFinalizer env s = (r, t)" by fastforce
  have "emits (\<lambda>e. \<not> creates_external e) (ensureFinalizer env)"
    by (intro emits_intros) (auto dest: meta_facts)
  then have t: "?P t" using creation.free_run [of "ensureFinalizer env" s] assms(3) rt by simp
  have err: "emits (\<lambda>e. \<not> creates_external e)
      (if IsNotFound e then reconciled else requeueWithError env msg e)" for e msg
    by (auto intro!: emits_intros dest: status_facts)
  show ?thesis
  proof (cases r)
    case (Ok u)
    then have past: "finalizer_seen (trace t)" using ensureFinalizer_Ok [OF assms(1) _ assms(2)] rt by simp
    let ?rest = "andThen (attempt (createMachine env)) (\<lambda>r.
         case r of
           Inl err \<Rightarrow> requeueWithError env ''Failed to create Machine'' err
         | Inr _ \<Rightarrow>
             andThen (attempt (isScriptFinished env)) (\<lambda>r.
             case r of
               Inl err \<Rightarrow> requeueWithError env '''' err
             | Inr rekey \<Rightarrow>
                 andThen (attempt (updateMachineStatus env req)) (\<lambda>r.
                 ret (if rekey then \<lparr>RequeueAfter = minute\<rparr> else emptyResult, errorOf r))))"
    have "emits (\<lambda>_. True) ?rest" by (intro emits_intros) simp_all
    then have "?P (snd (?rest t))" using creation.past_run t past by blast

    then show ?thesis using rt Ok by (simp add: reconcileCreation_def run_simps)
  next
    case (Err e)
    have "?P (snd ((if IsNotFound e then reconciled else requeueWithError env ''Failed to ensure Finalizers'' e) t))"
      using creation.free_run [OF err t] .

    then show ?thesis using rt Err by (simp add: reconcileCreation_def run_simps)
  qed (use rt t in \<open>auto simp: reconcileCreation_def andThen_def attempt_def\<close>)
qed

lemma Reconcile_creation_guarded:
  assumes "creation.guarded (trace s)"
  shows "creation.guarded (trace (snd (Reconcile env req s)))"
proof (cases "env_machine env (trace s) (GetMachine req)")
  case (Inl e)
  have "emits (\<lambda>e. \<not> creates_external e) (requeueWithError env msg e)" for msg
    by (intro emits_intros) (auto dest: status_facts)
  then show ?thesis using assms by (simp add: Reconcile_run Inl Let_def creation.free_run)

next
  case (Inr m)
  let ?t = "s\<lparr>machineObj := Some m, trace := Ev (GetMachine req) (Inr (RMachine m)) # trace s\<rparr>"
  have t: "machineObj ?t = Some m" "creation.guarded (trace ?t)" using assms by simp_all
  have seen: "ContainsFinalizer m GetFinalizer \<Longrightarrow> finalizer_seen (trace ?t)"
    by (simp add: finalizer_seen_def finalizer_stored_def)
  have "emits (\<lambda>e. \<not> creates_external e) (reconcileDeletion env)"
    by (intro emits_reconcileDeletion) (auto dest: status_facts cleanup_event_facts meta_facts)
  moreover have "emits (\<lambda>e. \<not> creates_external e)
      (andThen (attempt (updateMachineStatus env req)) (\<lambda>r. ret (emptyResult, errorOf r)))"
    by (intro emits_intros) (auto dest: status_facts)
  ultimately show ?thesis
    using t creation_phase_guarded [OF t(1) seen t(2)]
    by (auto simp: Reconcile_run Inr afterGet_run [OF t(1)] intro: creation.free_run)

qed

text \<open>The object at hand is one the server answered with, up to its status.\<close>

definition obj_observed :: "st \<Rightarrow> bool" where
  "obj_observed s \<longleftrightarrow> (\<forall>m. machineObj s = Some m \<longrightarrow> observed m (trace s))"

lemma observed_Cons: "observed m h \<Longrightarrow> observed m (e # h)"
  by (auto simp: observed_def)

lemma observed_reply: "Meta m0 = Meta m \<Longrightarrow> Spec m0 = Spec m \<Longrightarrow> observed m (Ev c (Inr (RMachine m0)) # h)"
  by (auto simp: observed_def)

lemma observed_cong: "observed m h \<Longrightarrow> Meta m = Meta m' \<Longrightarrow> Spec m = Spec m' \<Longrightarrow> observed m' h"
  by (simp add: observed_def)

lemma updateMachineStatus_observed:
  assumes "obj_observed s"
  shows "obj_observed (snd (updateMachineStatus env nn s))"
proof (cases "env_machine env (trace s) (GetMachine nn)")
  case (Inl e)
  then show ?thesis using assms by (simp add: updateMachineStatus_get_error obj_observed_def observed_Cons)
next
  case (Inr cur)
  show ?thesis
  proof (cases "machineObj s")
    case None
    then show ?thesis using Inr
      by (simp add: updateMachineStatus_def SetSummary_def call_defs run_simps theObj_def andThen_def obj_observed_def)
  next
    case (Some m)
    then have "observed (summarized now m) (trace s)" for now
      using assms by (auto simp: obj_observed_def intro: observed_cong)
    then show ?thesis
      by (auto simp: updateMachineStatus_run [OF Some Inr] after_status_def Let_def obj_observed_def
          intro: observed_Cons observed_reply split: sum.splits)
  qed
qed

lemma deletion_guarded:
  assumes "obj_observed s" and "removal.guarded (trace s)"
  shows "removal.guarded (trace (snd (removeFinalizerAfterCleanup env s)))"
proof (cases "\<exists>m. machineObj s = Some m \<and> ContainsFinalizer m GetFinalizer")
  case False
  then show ?thesis using assms(2)
    by (auto simp: removeFinalizerAfterCleanup_def theObj_def andThen_def ret_def split: option.splits)
next
  case True
  then obtain m where m: "machineObj s = Some m" "ContainsFinalizer m GetFinalizer" by blast
  obtain r t where rt: "updateMachineStatus env (key_of m) s = (r, t)" by fastforce
  have "emits (\<lambda>e. \<not> removes_finalizer e) (updateMachineStatus env (key_of m))"
    by (intro emits_intros) (auto dest: status_facts)
  then have t: "removal.guarded (trace t)" using removal.free_run assms(2) rt by (metis snd_conv)
  show ?thesis
  proof (cases r)
    case (Ok u)
    obtain r' t' where rt': "cleanupMachineResources env t = (r', t')" by fastforce
    have "emits (\<lambda>e. \<not> removes_finalizer e) (cleanupMachineResources env)"
      by (intro emits_intros) (auto dest: cleanup_event_facts)
    then have t': "removal.guarded (trace t')" using removal.free_run t rt' by (metis snd_conv)
    show ?thesis
    proof (cases r')
      case (Ok u')
      have "obj_observed t" using updateMachineStatus_observed [OF assms(1), of env "key_of m"] rt by simp
      moreover obtain m' where m': "machineObj t = Some m'"
        using rt' Ok by (cases "machineObj t")
          (auto simp: cleanupMachineResources_def deleteFiles_def getScriptFilePath_def theObj_def andThen_def)
      ultimately have "observed m' (trace t)" by (simp add: obj_observed_def)
      moreover obtain new where "trace t' = new @ trace t"
        using emitsD [OF cleanup_events rt'] by blast
      ultimately have "observed m' (trace t')" by (auto simp: observed_def)
      then have "cleanup_done (trace t')"
        using cleanup_Ok(1) [OF m'] rt' Ok by (auto simp: cleanup_done_def)
      moreover have "extends (patchFinalizer env VerbDeleted GetFinalizer)" by (intro emits_intros) simp
      ultimately have "removal.guarded (trace (snd (patchFinalizer env VerbDeleted GetFinalizer t')))"
        using removal.past_run t' by blast
      then show ?thesis using m rt rt' \<open>r = Ok u\<close> Ok
        by (simp add: removeFinalizerAfterCleanup_def run_simps)
    qed (use m rt rt' t' \<open>r = Ok u\<close> in \<open>simp_all add: removeFinalizerAfterCleanup_def run_simps\<close>)
  qed (use m rt t in \<open>simp_all add: removeFinalizerAfterCleanup_def run_simps\<close>)
qed

lemma Reconcile_removal_guarded:
  assumes "removal.guarded (trace s)"
  shows "removal.guarded (trace (snd (Reconcile env req s)))"
proof (cases "env_machine env (trace s) (GetMachine req)")
  case (Inl e)
  have "emits (\<lambda>e. \<not> removes_finalizer e) (requeueWithError env msg e)" for msg
    by (intro emits_intros) (auto dest: status_facts)
  then show ?thesis using assms by (simp add: Reconcile_run Inl Let_def removal.free_run)
next
  case (Inr m)
  let ?t = "s\<lparr>machineObj := Some m, trace := Ev (GetMachine req) (Inr (RMachine m)) # trace s\<rparr>"
  have t: "machineObj ?t = Some m" "removal.guarded (trace ?t)" "obj_observed ?t"
    using assms by (simp_all add: obj_observed_def observed_reply)
  have free: "emits (\<lambda>e. \<not> removes_finalizer e) (reconcileCreation env req)"
    by (intro emits_reconcileCreation)
      (auto dest: status_facts script_facts prepare_keeps_finalizer create_keeps_finalizer adding_keeps_finalizer)
  have "emits (\<lambda>e. \<not> removes_finalizer e)
      (andThen (attempt (updateMachineStatus env req)) (\<lambda>r. ret (emptyResult, errorOf r)))"
    by (intro emits_intros) (auto dest: status_facts)
  moreover have "removal.guarded (trace (snd (reconcileDeletion env ?t)))"
  proof -
    have g: "removal.guarded (trace (snd (attempt (removeFinalizerAfterCleanup env) ?t)))"
      using deletion_guarded [OF t(3,2)] by (simp add: attempt_state)
    obtain r u where ru: "attempt (removeFinalizerAfterCleanup env) ?t = (r, u)" by fastforce
    have "emits (\<lambda>e. \<not> removes_finalizer e)
        (case x of Inl err \<Rightarrow> requeueWithError env '''' err | Inr _ \<Rightarrow> reconciled)" for x :: "gerr + unit"
      by (intro emits_intros) (auto dest: status_facts)
    then show ?thesis using removal.free_run g ru
      by (cases r) (auto simp: reconcileDeletion_def run_simps)
  qed
  ultimately show ?thesis
    using t free by (auto simp: Reconcile_run Inr afterGet_run [OF t(1)] intro: removal.free_run)
qed

section \<open>Well-formedness, soundness, counting\<close>

interpretation wf: machine_predicate wf_machine "\<lambda>_. True" "\<lambda>_. True"
proof
  fix m t now reason msg assume "wf_machine m"
  then show "wf_machine (SetConditions m (cond_Set now (getter_of m) (Some (TrueCondition t))))"
    "wf_machine (SetConditions m (cond_Set now (getter_of m) (Some (FalseCondition t reason ConditionSeverityError msg))))"
    by (auto intro!: wf_machine_Set simp: TrueCondition_def FalseCondition_def operator_condition_def
        ConditionSeverityNone_def)
qed (simp_all add: wf_machine_summarized)

lemma sends_True: "sends (\<lambda>_. True) c"
  by (cases c) auto

lemma keeps_Reconcile:
  assumes "server_wf env"
  shows "keeps obj_wf (Reconcile env req)"
proof -
  have "sat_inv wf_machine (\<lambda>_. True) (\<lambda>_. True) env = obj_wf"
    using assms by (auto simp: sat_inv_def assumed_def server_wf_def obj_sat_def obj_wf_def all_sent_def sends_True)
  then show ?thesis using wf.run.reconcile [of env req] by simp
qed

lemma sound_reconcileCreation [sound_intros]:
  "server_specified env \<Longrightarrow> sdk_nonnil env \<Longrightarrow> sound (\<lambda>_. True) (reconcileCreation env req)"
  unfolding reconcileCreation_def by (rule sound_intros | simp)+

lemma sound_reconcileDeletion [sound_intros]:
  "server_specified env \<Longrightarrow> sdk_nonnil env \<Longrightarrow> sound (\<lambda>_. True) (reconcileDeletion env)"
  unfolding reconcileDeletion_def by (rule sound_intros | simp)+

lemma sound_afterGet [sound_intros]:
  "server_specified env \<Longrightarrow> sdk_nonnil env \<Longrightarrow> sound (\<lambda>_. True) (afterGet env req)"
  unfolding afterGet_def by (rule sound_intros | simp)+

text \<open>Events that only creation can emit happen in a run as often as in creation.\<close>

lemma counts_Reconcile_creation:
  assumes "\<And>e. status_event e \<Longrightarrow> \<not> P e" "\<And>f e. meta_event f e \<Longrightarrow> \<not> P e" "\<And>e. script_event e \<Longrightarrow> \<not> P e"
    "\<And>e. cleanup_event e \<Longrightarrow> \<not> P e" and create: "counts P n (createMachine env)"
  shows "counts P n (Reconcile env req)"
proof -
  have get: "\<not> P (Ev (GetMachine nn) r)" for nn r by (rule assms(1)) simp
  have silent: "counts P 0 (updateMachineStatus env nn)" "counts P 0 (requeueWithError env msg e)"
    "counts P 0 (ensureFinalizer env)" "counts P 0 (isScriptFinished env)"
    "counts P 0 (reconcileDeletion env)" "counts P 0 (updateMachineReconcile env req)"
    "counts P 0 isMarkedForDeletion" for nn msg e
    by (intro counts_none emits_intros emits_reconcileDeletion; auto dest: assms(1-4) simp: get)+
  have "counts P n (reconcileCreation env req)"
    unfolding reconcileCreation_def
    by (intro counts_andThen [where i = 0 and j = n and m = "attempt (ensureFinalizer env)"]
        counts_andThen [where i = n and j = 0 and m = "attempt (createMachine env)"]
        counts_andThen [where i = 0 and j = 0 and m = "attempt (isScriptFinished env)"]
        counts_andThen [where i = 0 and j = 0 and m = "attempt (updateMachineStatus env req)"]
        counts_splits counts_attempt silent create counts_mono [OF silent(2)]
        counts_none [of _ reconciled] counts_none [of _ "ret _"] emits_reconciled emits_basic) simp_all
  then show ?thesis unfolding Reconcile_def
    by (intro counts_andThen [where i = 0 and j = n and m = "attempt (updateMachineReconcile env req)"]
        counts_andThen [where i = 0 and j = n and m = isMarkedForDeletion]
        counts_andThen [where i = 0 and j = n and m = "attempt (updateMachineStatus env req)"] counts_obj
        counts_splits counts_attempt silent counts_mono [OF silent(2)] counts_mono [OF silent(5)]
        counts_none [of _ "ret _"] emits_basic) simp_all
qed

lemma counts_Reconcile: "counts create_event 1 (Reconcile env req)"
  by (rule counts_Reconcile_creation [OF _ _ _ _ counts_createMachine])
    (auto dest: status_facts meta_facts script_facts cleanup_event_facts)

section \<open>Metadata patches\<close>

definition aws_keys :: "string set" where
  "aws_keys = {awsVPCIDAnnotation, awsSubnetIDAnnotation, awsInternetGatewayIDAnnotation}"

text \<open>What a metadata patch may change: the operator's finalizer and the three AWS annotations.\<close>

definition frame_ok :: "Machine \<Rightarrow> Machine \<Rightarrow> bool" where
  "frame_ok cur modified \<longleftrightarrow>
     Spec modified = Spec cur \<and> Status modified = Status cur \<and> key_of modified = key_of cur \<and>
     DeletionTimestamp (Meta modified) = DeletionTimestamp (Meta cur) \<and>
     (\<forall>f. f \<noteq> GetFinalizer \<longrightarrow> ContainsFinalizer modified f = ContainsFinalizer cur f) \<and>
     (\<forall>k. k \<notin> aws_keys \<longrightarrow> anno modified k = anno cur k)"

definition patches_in_frame :: "event \<Rightarrow> bool" where
  "patches_in_frame e = (case evCall e of PatchMachine cur modified \<Rightarrow> frame_ok cur modified | _ \<Rightarrow> True)"

lemma finalizer_frame:
  "v = VerbCreated \<or> v = VerbDeleted \<Longrightarrow> frame_ok cur (finalizerTransform v GetFinalizer cur b)"
  by (auto simp: frame_ok_def finalizerTransform_def key_of_def AddFinalizer_def RemoveFinalizer_def
      ContainsFinalizer_def split: if_splits)

lemma annotation_frame:
 "k \<in> aws_keys \<Longrightarrow> frame_ok cur (annotationTransform k v cur b)"
  by (auto simp: frame_ok_def annotationTransform_def key_of_def ContainsFinalizer_def)

lemma patches_in_frame_other:
  "(\<And>cur modified. evCall e \<noteq> PatchMachine cur modified) \<Longrightarrow> patches_in_frame e"
  by (auto simp: patches_in_frame_def split: call.splits)

lemma meta_in_frame: "meta_event f e \<Longrightarrow> (\<And>cur. frame_ok cur (f cur False)) \<Longrightarrow> patches_in_frame e"
  by (cases "(f, e)" rule: meta_event.cases) (auto simp: patches_in_frame_def)

lemma aws_in_frame: "aws_event c e \<Longrightarrow> patches_in_frame e"
proof -
  assume "aws_event c e"
  then consider "\<And>cur modified. evCall e \<noteq> PatchMachine cur modified"
    | k v where "k \<in> aws_keys" "meta_event (annotationTransform k v) e"
    by (auto simp: aws_event_def aws_keys_def)
  then show ?thesis
    by cases (auto intro: patches_in_frame_other meta_in_frame annotation_frame)
qed

lemma other_in_frame:
  "status_event e \<Longrightarrow> patches_in_frame e" "client_event e \<Longrightarrow> patches_in_frame e"
  "file_event e \<Longrightarrow> patches_in_frame e" "create_event e \<Longrightarrow> patches_in_frame e"
  "script_event e \<Longrightarrow> patches_in_frame e" "azure_event e \<Longrightarrow> patches_in_frame e"
  "delete_event e \<Longrightarrow> patches_in_frame e" "teardown_event c e \<Longrightarrow> patches_in_frame e"
  by (cases e; cases "evCall e"; auto simp: patches_in_frame_def teardown_event_def)+

lemma Reconcile_in_frame: "emits patches_in_frame (Reconcile env req)"
  by (intro emits_Reconcile)
    (auto simp: prepare_event_def cleanup_event_def intro: other_in_frame aws_in_frame meta_in_frame finalizer_frame)

section \<open>Sessions\<close>

text \<open>An EC2 call needs a session opened with the same credentials and region, all of them set.\<close>

definition session_open :: "awsAuthCredential \<Rightarrow> history \<Rightarrow> bool" where
  "session_open c h \<longleftrightarrow> complete_creds c \<and> Ev (NewSession c) (Inr RUnit) \<in> set h"

definition uses_ec2 :: "awsAuthCredential \<Rightarrow> event \<Rightarrow> bool" where
  "uses_ec2 c e \<longleftrightarrow> (\<exists>x. evCall e = EC2 c x)"

interpretation session: guard "uses_ec2 c" "session_open c" for c
  by unfold_locales (simp add: session_open_def)

abbreviation session_ok :: "awsAuthCredential \<Rightarrow> st \<Rightarrow> bool" where
  "session_ok c s \<equiv> session.guarded c (trace s)"

lemma keeps_free_session: "emits (\<lambda>e. \<not> uses_ec2 c e) m \<Longrightarrow> keeps (session_ok c) m"
  by (rule hoareI) (auto simp: post_def split: res.splits dest: session.free_run)

lemma no_ec2:
  "status_event e \<Longrightarrow> \<not> uses_ec2 c e" "client_event e \<Longrightarrow> \<not> uses_ec2 c e"
  "file_event e \<Longrightarrow> \<not> uses_ec2 c e" "create_event e \<Longrightarrow> \<not> uses_ec2 c e"
  "script_event e \<Longrightarrow> \<not> uses_ec2 c e" "azure_event e \<Longrightarrow> \<not> uses_ec2 c e"
  "delete_event e \<Longrightarrow> \<not> uses_ec2 c e" "meta_event f e \<Longrightarrow> \<not> uses_ec2 c e"
  by (cases e; cases "evCall e"; auto simp: uses_ec2_def)+

text \<open>Everything done with a client built in the run is covered by the client's session.\<close>

lemma keeps_client:
  assumes f: "\<And>c'. emits (\<lambda>e. uses_ec2 c e \<longrightarrow> c = c') (f c')"
  shows "keeps (session_ok c) (andThen (awsEC2Client env) f)"
proof (rule hoareI)
  fix s :: st assume s: "session_ok c s"
  obtain r t where rt: "awsEC2Client env s = (r, t)" by fastforce
  have "emits (\<lambda>e. \<not> uses_ec2 c e) (awsEC2Client env)" by (intro emits_intros) (auto dest: no_ec2)
  then have t: "session_ok c t" using session.free_run s rt by (metis snd_conv)
  have "session_ok c (snd (andThen (awsEC2Client env) f s))"
  proof (cases r)
    case (Ok c')
    have "session_ok c (snd (f c' t))"
    proof (cases "c = c'")
      case True
      obtain m where m: "machineObj s = Some m"
        using rt Ok by (cases "machineObj s")
          (auto simp: awsEC2Client_def newAWSClientSession_def getAWSCredentials_def andThen_def theObj_def)
      have "session_open c (trace t)"
        using rt Ok True awsEC2Client_Ok [OF _ m] by (fastforce simp: session_open_def)
      then show ?thesis using session.past_run [OF f] t True by blast
    next
      case False
      then have "emits (\<lambda>e. \<not> uses_ec2 c e) (f c')" using f [of c'] by (auto elim: emits_mono)
      then show ?thesis using session.free_run t by blast
    qed
    then show ?thesis using rt Ok by (simp add: run_simps)
  qed (use rt t in \<open>auto simp: run_simps\<close>)
  then show "post (\<lambda>_. session_ok c) (session_ok c) (fst (andThen (awsEC2Client env) f s))
      (snd (andThen (awsEC2Client env) f s))"
    by (simp add: post_def split: res.splits)
qed

lemma keeps_session_createAWSEnvironment: "keeps (session_ok c) (createAWSEnvironment env)"
proof -
  have "uses_ec2 c e \<longrightarrow> c = c'" if "aws_event c' e" for c' e
    using that no_ec2(8) by (auto simp: aws_event_def uses_ec2_def)
  then have "keeps (session_ok c) (andThen (awsEC2Client env) (\<lambda>c. createAwsVpc env c))"
    by (intro keeps_client emits_mono [OF createAwsVpc_aws])
  note body = this
  show ?thesis unfolding createAWSEnvironment_def
    by (intro keeps_andThen [of _ theObj] keeps_case keeps_basic body)
qed

lemma keeps_session_cleanupAWSResources: "keeps (session_ok c) (cleanupAWSResources env)"
  unfolding cleanupAWSResources_def
  by (intro keeps_client emits_intros) (auto simp: teardown_event_def uses_ec2_def)

interpretation session_inv: full_invariant "session_ok c" env for c env
proof unfold_locales
  have "keeps (session_ok c) (patchFinalizer env v f)" for v f
    by (intro keeps_free_session emits_intros) (auto dest: no_ec2)
  then show "keeps (session_ok c) (patchFinalizer env VerbCreated GetFinalizer)"
    "keeps (session_ok c) (patchFinalizer env VerbDeleted GetFinalizer)" by blast+
  show "keeps (session_ok c) (updateMachineStatus env nn)" "keeps (session_ok c) (updateMachineReconcile env req)" for nn req
    by (intro keeps_free_session emits_intros; auto simp: uses_ec2_def [of c "Ev _ _"] dest: no_ec2)+
  show "keeps (session_ok c) (MarkTrue env t)"
    "keeps (session_ok c) (MarkFalse env t reason ConditionSeverityError msg)" for t reason msg
    by (intro keeps_free_session emits_intros)+
qed (auto simp: uses_ec2_def [of c "Ev _ _"] keeps_session_createAWSEnvironment keeps_session_cleanupAWSResources)

lemma Reconcile_sessions: "keeps (session_ok c) (Reconcile env req)"
  by (rule session_inv.reconcile)

section \<open>Outcomes\<close>

lemma Reconcile_outcome:
  assumes srv: "server_specified env" and sdk: "sdk_nonnil env"
    and obj: "\<forall>m. machineObj s = Some m \<longrightarrow> specified m"
  shows "fst (Reconcile env req s) \<noteq> Hang \<and>
    (fst (Reconcile env req s) = Panic \<longleftrightarrow>
      machineObj s = None \<and> (\<exists>e. env_machine env (trace s) (GetMachine req) = Inl e \<and> \<not> IsNotFound e))"
proof (cases "env_machine env (trace s) (GetMachine req)")
  case (Inr m)
  let ?t = "s\<lparr>machineObj := Some m, trace := Ev (GetMachine req) (Inr (RMachine m)) # trace s\<rparr>"
  have "good_obj ?t" using srv Inr by (auto simp: server_specified_def good_obj_def)
  from soundD [OF sound_afterGet [OF srv sdk] this prod.collapse [symmetric]]
  show ?thesis using Inr by (simp add: Reconcile_run)
next
  case (Inl e)
  let ?t = "s\<lparr>trace := Ev (GetMachine req) (Inl e) # trace s\<rparr>"
  show ?thesis
  proof (cases "machineObj s")
    case None
    then show ?thesis using Inl
      by (simp add: Reconcile_run Let_def requeueWithError_def andThen_def theObj_def)
  next
    case (Some m)
    then have "good_obj ?t" using obj by (simp add: good_obj_def)
    from soundD [OF sound_status_ops(1) [OF srv] this prod.collapse [symmetric]]
    show ?thesis using Inl Some by (simp add: Reconcile_run Let_def)
  qed
qed

text \<open>A deletion run creates nothing.\<close>

lemma deletion_creates_nothing: "emits (\<lambda>e. \<not> creates_external e) (reconcileDeletion env)"
  by (intro emits_reconcileDeletion) (auto dest: status_facts cleanup_event_facts meta_facts)

section \<open>Status patches\<close>

definition status_patch_ok :: "event \<Rightarrow> bool" where
  "status_patch_ok e = (case evCall e of
     PatchStatus old new \<Rightarrow> Status old \<noteq> Status new \<and> Phase (Status new) = GetPhase new | _ \<Rightarrow> True)"

lemma status_patches:
  "status_event e \<Longrightarrow> status_patch_ok e" "client_event e \<Longrightarrow> status_patch_ok e"
  "file_event e \<Longrightarrow> status_patch_ok e" "create_event e \<Longrightarrow> status_patch_ok e"
  "script_event e \<Longrightarrow> status_patch_ok e" "azure_event e \<Longrightarrow> status_patch_ok e"
  "delete_event e \<Longrightarrow> status_patch_ok e" "teardown_event c e \<Longrightarrow> status_patch_ok e"
  "meta_event f e \<Longrightarrow> status_patch_ok e"
  by (cases e; cases "evCall e"; auto simp: status_patch_ok_def teardown_event_def)+

lemma status_patches_aws: "aws_event c e \<Longrightarrow> status_patch_ok e"
  by (auto simp: aws_event_def dest: status_patches(9)) (auto simp: status_patch_ok_def)

lemma Reconcile_status_patches: "emits status_patch_ok (Reconcile env req)"
  by (intro emits_Reconcile)
    (auto simp: prepare_event_def cleanup_event_def dest: status_patches status_patches_aws)

end
