(* ===== verification/Reconcile_Repeat.thy ===== *)
theory Reconcile_Repeat
  imports Reconcile
begin

text \<open>
  When a run asks the controller runtime to be repeated: exactly when the copy of the script's
  result failed in this run, so that the script is still pending. The result of a computation
  signals an event when it tells whether the event happened; the rules for this follow the
  structure of the computations.
\<close>

section \<open>Results that signal an event\<close>

definition ended :: "'a res \<Rightarrow> bool" where
  "ended r \<longleftrightarrow> r \<noteq> Panic \<and> r \<noteq> Hang"

lemma ended_simps [simp]: "ended (Ok a)" "ended (Err e)" "\<not> ended Panic" "\<not> ended Hang"
  by (simp_all add: ended_def)

definition signals :: "(event \<Rightarrow> bool) \<Rightarrow> ('a res \<Rightarrow> bool) \<Rightarrow> 'a comp \<Rightarrow> bool" where
  "signals sig P m \<longleftrightarrow> (\<forall>s r t. m s = (r, t) \<longrightarrow> ended r \<longrightarrow>
     (\<exists>new. trace t = new @ trace s \<and> (P r \<longleftrightarrow> (\<exists>e \<in> set new. sig e))))"

named_theorems signals_intros \<open>results that signal an event\<close>

lemma signalsD:
  assumes "signals sig P m" and "m s = (r, t)" and "ended r"
  obtains new where "trace t = new @ trace s" "P r \<longleftrightarrow> (\<exists>e \<in> set new. sig e)"
  using assms unfolding signals_def by blast

lemma signals_quiet:
  assumes "emits (\<lambda>e. \<not> sig e) m" and "\<And>s. \<not> P (fst (m s))"
  shows "signals sig P m"
  unfolding signals_def
proof (intro allI impI)
  fix s r t assume mt: "m s = (r, t)"
  then obtain new where "trace t = new @ trace s" "\<And>e. e \<in> set new \<Longrightarrow> \<not> sig e"
    using emitsD [OF assms(1)] by metis
  then show "\<exists>new. trace t = new @ trace s \<and> (P r \<longleftrightarrow> (\<exists>e \<in> set new. sig e))"
    using assms(2) [of s] mt by (intro exI [of _ new]) auto
qed

text \<open>
  The parts of a sequence that signal: the second part, after a first without the event whose
  value is as expected, or the first part, when the second passes the signal on.
\<close>

lemma signals_returns:
  assumes quiet: "emits (\<lambda>e. \<not> sig e) m" and "returns R m"
    and f: "\<And>a. R a \<Longrightarrow> signals sig P (f a)" and "\<And>e. \<not> P (Err e)"
  shows "signals sig P (andThen m f)"
  unfolding signals_def
proof (intro allI impI)
  fix s r t assume run: "andThen m f s = (r, t)" and r: "ended r"
  obtain x u where xu: "m s = (x, u)" by fastforce
  obtain pre where pre: "trace u = pre @ trace s" "\<And>e. e \<in> set pre \<Longrightarrow> \<not> sig e"
    using emitsD [OF quiet xu] by metis
  have "\<exists>new. trace t = new @ trace u \<and> (P r \<longleftrightarrow> (\<exists>e \<in> set new. sig e))"
  proof (cases x)
    case (Ok a)
    then have "f a u = (r, t)" "R a" using run xu assms(2) by (auto simp: run_simps returns_def)
    then show ?thesis using f [of a] r unfolding signals_def by blast
  qed (use run xu r assms(4) in \<open>auto simp: run_simps\<close>)
  then obtain new where "trace t = new @ trace u" "P r \<longleftrightarrow> (\<exists>e \<in> set new. sig e)" by blast
  then show "\<exists>new. trace t = new @ trace s \<and> (P r \<longleftrightarrow> (\<exists>e \<in> set new. sig e))"
    using pre by (intro exI [of _ "new @ pre"]) auto
qed

lemma signals_after:
  "emits (\<lambda>e. \<not> sig e) m \<Longrightarrow> (\<And>a. signals sig P (f a)) \<Longrightarrow> (\<And>e. \<not> P (Err e)) \<Longrightarrow> signals sig P (andThen m f)"
  by (rule signals_returns [where R = "\<lambda>_. True"]) (simp_all add: returns_def)

lemma signals_passed_on:
  assumes m: "signals sig Q m" and f: "\<And>a. emits (\<lambda>e. \<not> sig e) (f a)"
    and "\<And>a s. ended (fst (f a s)) \<Longrightarrow> P (fst (f a s)) \<longleftrightarrow> Q (Ok a)" and "\<And>e. P (Err e) \<longleftrightarrow> Q (Err e)"
  shows "signals sig P (andThen m f)"
  unfolding signals_def
proof (intro allI impI)
  fix s r t assume run: "andThen m f s = (r, t)" and r: "ended r"
  obtain x u where xu: "m s = (x, u)" by fastforce
  then have x: "ended x" using run r by (cases x) (auto simp: run_simps)
  obtain pre where pre: "trace u = pre @ trace s" "Q x \<longleftrightarrow> (\<exists>e \<in> set pre. sig e)"
    by (rule signalsD [OF m xu x])
  have "\<exists>new. trace t = new @ trace u \<and> (\<forall>e \<in> set new. \<not> sig e) \<and> (P r \<longleftrightarrow> Q x)"
  proof (cases x)
    case (Ok a)
    then have fa: "f a u = (r, t)" using run xu by (simp add: run_simps)
    then show ?thesis using assms(3) [of a u] r Ok emitsD [OF f fa] by (metis fst_conv)
  qed (use run xu x assms(4) in \<open>auto simp: run_simps\<close>)
  then obtain new where "trace t = new @ trace u" "\<forall>e \<in> set new. \<not> sig e" "P r \<longleftrightarrow> Q x" by blast
  then show "\<exists>new. trace t = new @ trace s \<and> (P r \<longleftrightarrow> (\<exists>e \<in> set new. sig e))"
    using pre by (intro exI [of _ "new @ pre"]) auto
qed

lemma signals_attempt:
  assumes "signals sig Q m"
  shows "signals sig (\<lambda>r. case r of Ok (Inr a) \<Rightarrow> Q (Ok a) | Ok (Inl e) \<Rightarrow> Q (Err e) | _ \<Rightarrow> False) (attempt m)"
  unfolding signals_def
proof (intro allI impI)
  fix s r t assume run: "attempt m s = (r, t)" and r: "ended r"
  obtain x u where xu: "m s = (x, u)" by fastforce
  then have x: "ended x" "t = u" using run r by (cases x; auto simp: attempt_def)+
  obtain new where "trace u = new @ trace s" "Q x \<longleftrightarrow> (\<exists>e \<in> set new. sig e)"
    by (rule signalsD [OF assms xu x(1)])
  then show "\<exists>new. trace t = new @ trace s \<and>
      ((case r of Ok (Inr a) \<Rightarrow> Q (Ok a) | Ok (Inl e) \<Rightarrow> Q (Err e) | _ \<Rightarrow> False) \<longleftrightarrow> (\<exists>e \<in> set new. sig e))"
    using run xu x by (cases x) (auto simp: attempt_def)
qed

lemma signals_cases [signals_intros]:
  "(b \<Longrightarrow> signals sig P m) \<Longrightarrow> (\<not> b \<Longrightarrow> signals sig P m') \<Longrightarrow> signals sig P (if b then m else m')"
  "(\<And>e. signals sig P (f e)) \<Longrightarrow> (\<And>a. signals sig P (g a)) \<Longrightarrow> signals sig P (case x of Inl e \<Rightarrow> f e | Inr a \<Rightarrow> g a)"
  by (auto split: sum.split)

section \<open>When a run asks to be repeated\<close>

fun scp_failed :: "event \<Rightarrow> bool" where
  "scp_failed (Ev (RunCmd _ args) (Inl _)) = (args \<noteq> [] \<and> hd args = ''scp'')"
| "scp_failed _ = False"

lemma no_scp:
  "status_event e \<Longrightarrow> \<not> scp_failed e" "meta_event f e \<Longrightarrow> \<not> scp_failed e" "create_event e \<Longrightarrow> \<not> scp_failed e"
  "prepare_event e \<Longrightarrow> \<not> scp_failed e" "cleanup_event e \<Longrightarrow> \<not> scp_failed e"
  by (cases e rule: scp_failed.cases;
      auto simp: create_args_def prepare_event_def aws_event_def cleanup_event_def teardown_event_def)+

lemma resultLoop_not_True: "resultLoop env ls s \<noteq> (Ok True, t)"
  by (induction ls) (auto simp: run_simps elim!: andThen_cases split: option.splits if_splits)

lemma lines_not_True:
  "fst (andThen (call_text env (OpenFile resultFile)) (\<lambda>content. resultLoop env (scanLines content)) s) \<noteq> Ok True"
  using resultLoop_not_True
  by (cases "env_text env (trace s) (OpenFile resultFile)") (auto simp: call_defs run_simps fst_def split: prod.splits)

lemma pending_True:
  assumes "ended (fst (andThen (MarkFalse env t reason sev msg) (\<lambda>_. ret True) s))"
  shows "fst (andThen (MarkFalse env t reason sev msg) (\<lambda>_. ret True) s) = Ok True"
  using assms
  by (cases "machineObj s") (auto simp: MarkFalse_def setCondition_def theObj_def andThen_def time_Now_def putObj_def ret_def)

text \<open>The copy's error tells whether it failed, and the check of the script passes it on.\<close>

lemma copy_signals:
  "signals scp_failed (\<lambda>r. \<exists>err out. r = Ok (Some err, out)) (runDockerMachine env None [''scp'', src, ''/tmp''])"
  unfolding signals_def
  by (auto simp: runDockerMachine_def Let_def split: prod.splits option.splits)

lemma isScriptFinished_signals: "signals scp_failed (\<lambda>r. r = Ok True) (isScriptFinished env)"
proof -
  let ?next = "\<lambda>(err, commandError).
       if err \<noteq> None
       then
         andThen (MarkFalse env MachineConditionTypeClusterOperationComplete
           ReasonWaitingForScriptCompletion ConditionSeverityError ''waiting for script completion'') (\<lambda>_.
         ret True)
       else
         andThen (call_text env (OpenFile resultFile)) (\<lambda>content.
         resultLoop env (scanLines content))"
  have quiet: "emits (\<lambda>e. \<not> scp_failed e) (?next x)" for x :: "gerr option \<times> string"
    by (cases x) (auto intro!: emits_intros emits_mono [OF emits_resultLoop])
  have "fst (?next x s) = Ok True \<longleftrightarrow> (\<exists>e out. x = (Some e, out))" if "ended (fst (?next x s))"
    for x :: "gerr option \<times> string" and s
    using that pending_True [where s = s] lines_not_True [of env s] by (cases x; cases "fst x") simp_all
  then have copy: "signals scp_failed (\<lambda>r. r = Ok True) (andThen (runDockerMachine env None args) ?next)"
    if "\<exists>src. args = [''scp'', src, ''/tmp'']" for args
    using that by (elim exE) (simp only:, intro signals_passed_on [OF copy_signals] quiet, auto)
  have no: "signals scp_failed (\<lambda>r. r = Ok True) (ret False)"
    by (intro signals_quiet emits_intros) (simp add: run_simps)
  show ?thesis unfolding isScriptFinished_def
    by (intro signals_after [of _ theObj] signals_intros signals_returns [OF _ returns_scp] copy no emits_intros) simp_all
qed

definition asks_repeat :: "(ctrl_Result \<times> gerr option) res \<Rightarrow> bool" where
  "asks_repeat r \<longleftrightarrow> (\<exists>res err. r = Ok (res, err) \<and> RequeueAfter res \<noteq> 0)"

lemma asks_repeat_simps [simp]:
  "\<not> asks_repeat (Ok (emptyResult, err))" "\<not> asks_repeat (Err e)" "\<not> asks_repeat Panic" "\<not> asks_repeat Hang"
  "asks_repeat (Ok (\<lparr>RequeueAfter = minute\<rparr>, err))"
  by (auto simp: asks_repeat_def emptyResult_def minute_def second_def)

lemma requeue_no_repeat: "\<not> asks_repeat (fst (requeueWithError env msg e s))"
  by (auto simp: requeueWithError_def asks_repeat_def emptyResult_def run_simps andThen_def attempt_def theObj_def
      split: option.splits sum.splits prod.splits res.splits)

lemma deletion_no_repeat: "\<not> asks_repeat (fst (reconcileDeletion env s))"
proof -
  obtain x u where "removeFinalizerAfterCleanup env s = (x, u)" by fastforce
  then show ?thesis using requeue_no_repeat
    by (cases x) (auto simp: reconcileDeletion_def reconciled_def run_simps)
qed

text \<open>The last step of a run answers with the given result.\<close>

lemma last_step:
  "\<not> asks_repeat (fst (andThen (attempt m) (\<lambda>r. ret (emptyResult, errorOf r)) s))"
  "ended (fst (andThen (attempt m) (\<lambda>r. ret (\<lparr>RequeueAfter = minute\<rparr>, errorOf r)) s)) \<Longrightarrow>
   asks_repeat (fst (andThen (attempt m) (\<lambda>r. ret (\<lparr>RequeueAfter = minute\<rparr>, errorOf r)) s))"
  by (auto simp: attempt_def andThen_def run_simps split: prod.splits res.splits)

lemma quiet_ends [signals_intros]:
  "signals scp_failed asks_repeat (requeueWithError env msg e)" "signals scp_failed asks_repeat reconciled"
  "signals scp_failed asks_repeat (reconcileDeletion env)" "signals scp_failed asks_repeat (ret (emptyResult, err))"
  "signals scp_failed asks_repeat (andThen (attempt (updateMachineStatus env req)) (\<lambda>r. ret (emptyResult, errorOf r)))"
  by (intro signals_quiet requeue_no_repeat deletion_no_repeat last_step emits_intros emits_reconcileDeletion;
      auto simp: reconciled_def run_simps dest: no_scp)+

lemma creation_signals: "signals scp_failed asks_repeat (reconcileCreation env req)"
proof -
  let ?last = "\<lambda>rekey. andThen (attempt (updateMachineStatus env req)) (\<lambda>r.
    ret (if rekey then \<lparr>RequeueAfter = minute\<rparr> else emptyResult, errorOf r))"
  have last: "ended (fst (?last b s)) \<Longrightarrow> asks_repeat (fst (?last b s)) \<longleftrightarrow> b" for b s
    using last_step by (cases b) simp_all
  have script: "signals scp_failed asks_repeat (andThen (attempt (isScriptFinished env)) (\<lambda>r.
      case r of Inl err \<Rightarrow> requeueWithError env '''' err | Inr rekey \<Rightarrow> ?last rekey))"
  proof (rule signals_passed_on [OF signals_attempt [OF isScriptFinished_signals]])
    fix x :: "gerr + bool" and s :: st
    assume "ended (fst ((case x of Inl err \<Rightarrow> requeueWithError env '''' err | Inr rekey \<Rightarrow> ?last rekey) s))"
    then show "asks_repeat (fst ((case x of Inl err \<Rightarrow> requeueWithError env '''' err | Inr rekey \<Rightarrow> ?last rekey) s)) \<longleftrightarrow>
        (case Ok x of Ok (Inr a) \<Rightarrow> Ok a = Ok True | Ok (Inl e) \<Rightarrow> Err e = Ok True | _ \<Rightarrow> False)"
      using last requeue_no_repeat by (cases x) simp_all
  qed (auto intro!: emits_intros dest: no_scp split: sum.splits)
  show ?thesis unfolding reconcileCreation_def
    by (intro signals_after [of _ "attempt (ensureFinalizer env)"] signals_after [of _ "attempt (createMachine env)"]
        signals_intros script emits_intros) (auto dest: no_scp)
qed

lemma Reconcile_repeat:
  assumes "Reconcile env req s = (r, t)" and "r \<noteq> Panic" "r \<noteq> Hang"
  shows "\<exists>new. trace t = new @ trace s \<and> (asks_repeat r \<longleftrightarrow> (\<exists>e \<in> set new. scp_failed e))"
proof -
  have "signals scp_failed asks_repeat (Reconcile env req)"
    unfolding Reconcile_def isMarkedForDeletion_def
    by (intro signals_after [of _ "attempt (updateMachineReconcile env req)"] signals_after [of _ theObj]
        signals_after [of _ "andThen theObj _"] signals_intros creation_signals emits_intros) (auto dest: no_scp)
  then show ?thesis using assms unfolding signals_def ended_def by blast
qed

end
