(* ===== verification/Go_Mem.thy ===== *)
theory Go_Mem
  imports Api
begin

text \<open>
  Go memory for the API types. Elsewhere in the development a machine is a value; in the program it
  is a struct whose pointers, slices and maps refer to memory that other structs may share. Here
  the structs keep their references: a heap maps addresses to cells, allocation takes the next
  free address, and a relation says which value a struct stands for in a heap. The locale
  \<^verbatim>\<open>copier\<close> is the contract of a deep copy: it stands for the same value, the original is left
  alone, and the two share no cell, so that writing into one does not show in the other. Of the
  object metadata the fields modelled in \<^verbatim>\<open>Api\<close> are kept.
\<close>

section \<open>Structs in memory\<close>

text \<open>A slice that starts at its array's first element; its capacity is the array's length.\<close>

record slice =
  slArray :: nat
  slLen :: nat

record memMeta =
  mmName :: string
  mmNamespace :: string
  mmGeneration :: int
  mmResourceVersion :: string
  mmDeletionTimestamp :: "nat option"
  mmFinalizers :: "slice option"
  mmAnnotations :: "nat option"

record memSpec =
  msDriver :: "nat option"
  msScriptRef :: "nat option"
  msAuthSecret :: "nat option"
  msParameters :: "nat option"

record memStatus =
  mtConditions :: "slice option"
  mtPhase :: string

record memMachine =
  moKind :: string
  moMeta :: memMeta
  moSpec :: memSpec
  moStatus :: memStatus

record memDriver =
  mdKind :: string
  mdMeta :: memMeta
  mdSpec :: DriverSpec
  mdStatus :: DriverStatus

record memListMeta =
  mlResourceVersion :: string
  mlContinue :: string
  mlRemainingItemCount :: "nat option"

record memList =
  mlKind :: string
  mlMeta :: memListMeta
  mlItems :: "slice option"

datatype cell =
    CName string
  | CRef ObjectReference
  | CTime gotime
  | CInt int
  | CMap smap
  | CStrings "string list"
  | CConds "condition list"
  | CSpec memSpec
  | CStatus memStatus
  | CMachine memMachine
  | CMachines "memMachine list"
  | CDriverSpec DriverSpec
  | CDriverStatus DriverStatus
  | CDriver memDriver
  | CDrivers "memDriver list"
  | CList memList

record heap =
  hcells :: "nat \<Rightarrow> cell option"
  hlimit :: nat

fun selName :: "cell \<Rightarrow> string option" where
  "selName (CName x) = Some x" | "selName _ = None"
fun selRef :: "cell \<Rightarrow> ObjectReference option" where
  "selRef (CRef x) = Some x" | "selRef _ = None"
fun selTime :: "cell \<Rightarrow> gotime option" where
  "selTime (CTime x) = Some x" | "selTime _ = None"
fun selInt :: "cell \<Rightarrow> int option" where
  "selInt (CInt x) = Some x" | "selInt _ = None"
fun selMap :: "cell \<Rightarrow> smap option" where
  "selMap (CMap x) = Some x" | "selMap _ = None"
fun selStrings :: "cell \<Rightarrow> string list option" where
  "selStrings (CStrings x) = Some x" | "selStrings _ = None"
fun selConds :: "cell \<Rightarrow> condition list option" where
  "selConds (CConds x) = Some x" | "selConds _ = None"
fun selSpec :: "cell \<Rightarrow> memSpec option" where
  "selSpec (CSpec x) = Some x" | "selSpec _ = None"
fun selStatus :: "cell \<Rightarrow> memStatus option" where
  "selStatus (CStatus x) = Some x" | "selStatus _ = None"
fun selMachine :: "cell \<Rightarrow> memMachine option" where
  "selMachine (CMachine x) = Some x" | "selMachine _ = None"
fun selMachines :: "cell \<Rightarrow> memMachine list option" where
  "selMachines (CMachines x) = Some x" | "selMachines _ = None"
fun selDriverSpec :: "cell \<Rightarrow> DriverSpec option" where
  "selDriverSpec (CDriverSpec x) = Some x" | "selDriverSpec _ = None"
fun selDriverStatus :: "cell \<Rightarrow> DriverStatus option" where
  "selDriverStatus (CDriverStatus x) = Some x" | "selDriverStatus _ = None"
fun selDriver :: "cell \<Rightarrow> memDriver option" where
  "selDriver (CDriver x) = Some x" | "selDriver _ = None"
fun selDrivers :: "cell \<Rightarrow> memDriver list option" where
  "selDrivers (CDrivers x) = Some x" | "selDrivers _ = None"
fun selList :: "cell \<Rightarrow> memList option" where
  "selList (CList x) = Some x" | "selList _ = None"

section \<open>Memory operations\<close>

text \<open>\<^const>\<open>None\<close> is a dangling or ill-typed address, which Go's memory safety excludes.\<close>

type_synonym 'a mem = "heap \<Rightarrow> ('a \<times> heap) option"

definition mret :: "'a \<Rightarrow> 'a mem" where
  "mret x = (\<lambda>h. Some (x, h))"

definition mbind :: "'a mem \<Rightarrow> ('a \<Rightarrow> 'b mem) \<Rightarrow> 'b mem" where
  "mbind m f = (\<lambda>h. case m h of None \<Rightarrow> None | Some (x, h') \<Rightarrow> f x h')"

definition mnew :: "cell \<Rightarrow> nat mem" where
  "mnew c = (\<lambda>h. Some (hlimit h, h\<lparr>hcells := (hcells h)(hlimit h \<mapsto> c), hlimit := Suc (hlimit h)\<rparr>))"

definition load :: "(cell \<Rightarrow> 'a option) \<Rightarrow> heap \<Rightarrow> nat \<Rightarrow> 'a option" where
  "load sel h a = (case hcells h a of None \<Rightarrow> None | Some c \<Rightarrow> sel c)"

definition mread :: "(cell \<Rightarrow> 'a option) \<Rightarrow> nat \<Rightarrow> 'a mem" where
  "mread sel a = (\<lambda>h. case load sel h a of None \<Rightarrow> None | Some x \<Rightarrow> Some (x, h))"

definition mwrite :: "nat \<Rightarrow> cell \<Rightarrow> unit mem" where
  "mwrite a c = (\<lambda>h. if hcells h a = None then None else Some ((), h\<lparr>hcells := (hcells h)(a \<mapsto> c)\<rparr>))"

section \<open>The values that references stand for\<close>

definition ptr_val :: "(cell \<Rightarrow> 'a option) \<Rightarrow> heap \<Rightarrow> nat option \<Rightarrow> 'a option option" where
  "ptr_val sel h p = (case p of None \<Rightarrow> Some None | Some a \<Rightarrow> map_option Some (load sel h a))"

text \<open>A nil map and an empty one stand for the same value, and so do a nil slice and an empty one.\<close>

definition map_val :: "heap \<Rightarrow> nat option \<Rightarrow> smap option" where
  "map_val h p =
     (case p of
        None \<Rightarrow> Some []
      | Some a \<Rightarrow> (case load selMap h a of
            None \<Rightarrow> None
          | Some m \<Rightarrow> if distinct (map fst m) then Some m else None))"

definition slice_val :: "(cell \<Rightarrow> 'a list option) \<Rightarrow> heap \<Rightarrow> slice option \<Rightarrow> 'a list option" where
  "slice_val sel h p =
     (case p of
        None \<Rightarrow> Some []
      | Some s \<Rightarrow> (case load sel h (slArray s) of
            None \<Rightarrow> None
          | Some xs \<Rightarrow> if slLen s \<le> length xs then Some (take (slLen s) xs) else None))"

definition slice_reach :: "slice option \<Rightarrow> nat set" where
  "slice_reach p = slArray ` set_option p"

section \<open>Heaps that grow\<close>

definition heap_ok :: "heap \<Rightarrow> bool" where
  "heap_ok h \<longleftrightarrow> (\<forall>a. hlimit h \<le> a \<longrightarrow> hcells h a = None)"

definition grows :: "heap \<Rightarrow> heap \<Rightarrow> bool" where
  "grows h h' \<longleftrightarrow> heap_ok h' \<and> hlimit h \<le> hlimit h' \<and> (\<forall>a < hlimit h. hcells h' a = hcells h a)"

definition agree :: "nat set \<Rightarrow> heap \<Rightarrow> heap \<Rightarrow> bool" where
  "agree A h h' \<longleftrightarrow> (\<forall>a \<in> A. hcells h' a = hcells h a)"

lemma grows_refl [simp]: "heap_ok h \<Longrightarrow> grows h h"
  by (simp add: grows_def)

lemma grows_trans [trans]: "grows h h' \<Longrightarrow> grows h' h'' \<Longrightarrow> grows h h''"
  by (auto simp: grows_def)

lemma grows_ok: "grows h h' \<Longrightarrow> heap_ok h'" "grows h h' \<Longrightarrow> hlimit h \<le> hlimit h'"
  by (simp_all add: grows_def)

lemma load_live: "load sel h a = Some x \<Longrightarrow> heap_ok h \<Longrightarrow> a < hlimit h"
  by (cases "hcells h a") (auto simp: load_def heap_ok_def linorder_not_less [symmetric])

lemma load_agree: "agree A h h' \<Longrightarrow> a \<in> A \<Longrightarrow> load sel h' a = load sel h a"
  by (simp add: load_def agree_def)

lemma agree_mono: "agree B h h' \<Longrightarrow> A \<subseteq> B \<Longrightarrow> agree A h h'"
  by (auto simp: agree_def)

lemma agree_grows: "grows h h' \<Longrightarrow> A \<subseteq> {..<hlimit h} \<Longrightarrow> agree A h h'"
  by (auto simp: agree_def grows_def)

section \<open>Deep copies as an interface\<close>

text \<open>
  A copy that stands apart: it stands for the same value, the original survives every change of
  the cells the copy reaches, and the copy every change of the cells the original reaches.
\<close>

definition copied_apart ::
  "(heap \<Rightarrow> 'a \<Rightarrow> 'v \<Rightarrow> bool) \<Rightarrow> (heap \<Rightarrow> 'a \<Rightarrow> nat set) \<Rightarrow> ('a \<Rightarrow> 'a mem) \<Rightarrow> heap \<Rightarrow> 'a \<Rightarrow> 'v \<Rightarrow> bool" where
  "copied_apart repr reach copy h x v \<longleftrightarrow> (\<exists>y h'. copy x h = Some (y, h') \<and> repr h' y v \<and>
     (\<forall>h''. (\<forall>a. a \<notin> reach h' y \<longrightarrow> hcells h'' a = hcells h' a) \<longrightarrow> repr h'' x v) \<and>
     (\<forall>h''. (\<forall>a. a \<notin> reach h' x \<longrightarrow> hcells h'' a = hcells h' a) \<longrightarrow> repr h'' y v))"

locale copier =
  fixes repr :: "heap \<Rightarrow> 'a \<Rightarrow> 'v \<Rightarrow> bool"
    and reach :: "heap \<Rightarrow> 'a \<Rightarrow> nat set"
    and copy :: "'a \<Rightarrow> 'a mem"
  assumes repr_agree: "repr h x v \<Longrightarrow> agree (reach h x) h h' \<Longrightarrow> repr h' x v"
    and reach_agree: "repr h x v \<Longrightarrow> agree (reach h x) h h' \<Longrightarrow> reach h' x = reach h x"
    and reach_live: "repr h x v \<Longrightarrow> heap_ok h \<Longrightarrow> reach h x \<subseteq> {..<hlimit h}"
    and copy_ok: "repr h x v \<Longrightarrow> heap_ok h \<Longrightarrow>
      \<exists>y h'. copy x h = Some (y, h') \<and> grows h h' \<and> repr h' y v \<and> reach h' y \<subseteq> {hlimit h..<hlimit h'}"
begin

lemma repr_grows:
  assumes "repr h x v" "heap_ok h" "grows h h'"
  shows "repr h' x v" "reach h' x = reach h x"
  using assms agree_grows [OF assms(3) reach_live [OF assms(1,2)]] repr_agree reach_agree by blast+

text \<open>A copy and its original do not share cells, so that one survives any change of the other.\<close>

lemma copy_separate:
  assumes "repr h x v" "heap_ok h"
  obtains y h' where "copy x h = Some (y, h')" "grows h h'" "repr h' y v" "repr h' x v"
    "reach h' x \<inter> reach h' y = {}" "reach h' y \<subseteq> {hlimit h..<hlimit h'}"
proof -
  obtain y h' where y: "copy x h = Some (y, h')" "grows h h'" "repr h' y v" "reach h' y \<subseteq> {hlimit h..<hlimit h'}"
    using copy_ok [OF assms] by blast
  moreover have "repr h' x v" "reach h' x = reach h x" using repr_grows [OF assms y(2)] by auto
  moreover have "reach h x \<subseteq> {..<hlimit h}" by (rule reach_live [OF assms])
  ultimately show ?thesis using that by fastforce
qed

lemma change_of_other:
  assumes "repr h x v" and "\<And>a. a \<notin> A \<Longrightarrow> hcells h'' a = hcells h a" and "reach h x \<inter> A = {}"
  shows "repr h'' x v"
  using assms(1) by (rule repr_agree) (use assms(2,3) in \<open>auto simp: agree_def\<close>)

lemma apart:
  assumes "heap_ok h" and "repr h x v"
  shows "copied_apart repr reach copy h x v"
proof -
  obtain y h' where y: "copy x h = Some (y, h')" "repr h' y v" "repr h' x v" "reach h' x \<inter> reach h' y = {}"
    by (rule copy_separate [OF assms(2,1)])
  have "reach h' y \<inter> reach h' x = {}" using y(4) by blast
  note apart = change_of_other [OF y(2) _ this] change_of_other [OF y(3) _ y(4)]
  show ?thesis
    unfolding copied_apart_def using y(1,2) apart by (intro exI [of _ y] exI [of _ h']) simp
qed

end

end
