(* ===== verification/Patch_Mem.thy ===== *)
theory Patch_Mem
  imports Deep_Copy Kube
begin

text \<open>
  The changes the operator makes to an object's metadata, in memory. The vendored
  \<^verbatim>\<open>RemoveFinalizer\<close> filters the finalizers in place, \<^verbatim>\<open>AddFinalizer\<close> appends to them, and
  \<^verbatim>\<open>patchAnnotation\<close> writes into the annotation map, so each of them changes every object that
  shares the array or map. \<^verbatim>\<open>CreateOrPatch\<close> applies them to a deep copy and sends the difference
  to the original: this theory shows that on a deep copy they compute what the value model says and
  leave the original as it was.
\<close>

section \<open>Operations\<close>

text \<open>The loop of \<^verbatim>\<open>RemoveFinalizer\<close>: \<^verbatim>\<open>n\<close> names are left from index \<^verbatim>\<open>i\<close> on, \<^verbatim>\<open>k\<close> were kept.\<close>

fun filterInPlace :: "string \<Rightarrow> nat \<Rightarrow> nat \<Rightarrow> nat \<Rightarrow> string list \<Rightarrow> nat \<times> string list" where
  "filterInPlace f 0 i k xs = (k, xs)"
| "filterInPlace f (Suc n) i k xs =
     (if xs ! i \<noteq> f then filterInPlace f n (Suc i) (Suc k) (xs[k := xs ! i])
      else filterInPlace f n (Suc i) k xs)"

definition memRemoveFinalizer :: "memMeta \<Rightarrow> string \<Rightarrow> memMeta mem" where
  "memRemoveFinalizer m finalizer =
     (case mmFinalizers m of
        None \<Rightarrow> mret m
      | Some s \<Rightarrow>
          mbind (mread selStrings (slArray s)) (\<lambda>xs.
          case filterInPlace finalizer (slLen s) 0 0 xs of (k, ys) \<Rightarrow>
          mbind (mwrite (slArray s) (CStrings ys)) (\<lambda>_.
          mret (m\<lparr>mmFinalizers := Some \<lparr>slArray = slArray s, slLen = k\<rparr>\<rparr>))))"

text \<open>\<^verbatim>\<open>append\<close> of one element: in place when the array has room, otherwise in a new array.\<close>

definition appendString :: "slice option \<Rightarrow> string \<Rightarrow> slice option mem" where
  "appendString p x =
     (case p of
        None \<Rightarrow> mbind (mnew (CStrings [x])) (\<lambda>b. mret (Some \<lparr>slArray = b, slLen = 1\<rparr>))
      | Some s \<Rightarrow>
          mbind (mread selStrings (slArray s)) (\<lambda>xs.
          if slLen s < length xs
          then mbind (mwrite (slArray s) (CStrings (xs[slLen s := x]))) (\<lambda>_.
            mret (Some \<lparr>slArray = slArray s, slLen = Suc (slLen s)\<rparr>))
          else mbind (mnew (CStrings (xs @ [x]))) (\<lambda>b.
            mret (Some \<lparr>slArray = b, slLen = Suc (slLen s)\<rparr>))))"

definition memAddFinalizer :: "memMeta \<Rightarrow> string \<Rightarrow> memMeta mem" where
  "memAddFinalizer m finalizer =
     mbind (case mmFinalizers m of
         None \<Rightarrow> mret []
       | Some s \<Rightarrow> mbind (mread selStrings (slArray s)) (\<lambda>xs. mret (take (slLen s) xs))) (\<lambda>names.
     if finalizer \<in> set names then mret m
     else mbind (appendString (mmFinalizers m) finalizer) (\<lambda>fs. mret (m\<lparr>mmFinalizers := fs\<rparr>)))"

definition memPutAnnotation :: "memMeta \<Rightarrow> string \<Rightarrow> string \<Rightarrow> memMeta mem" where
  "memPutAnnotation m key val =
     mbind (case mmAnnotations m of None \<Rightarrow> mnew (CMap []) | Some a \<Rightarrow> mret a) (\<lambda>a.
     mbind (mread selMap a) (\<lambda>anno.
     mbind (mwrite a (CMap (mput anno key val))) (\<lambda>_.
     mret (m\<lparr>mmAnnotations := Some a\<rparr>))))"

text \<open>The closures of \<^verbatim>\<open>patchFinalizer\<close> and \<^verbatim>\<open>patchAnnotation\<close> on the object they are given.\<close>

definition onMeta :: "(memMeta \<Rightarrow> memMeta mem) \<Rightarrow> nat \<Rightarrow> unit mem" where
  "onMeta f a =
     mbind (mread selMachine a) (\<lambda>mc.
     mbind (f (moMeta mc)) (\<lambda>om.
     mwrite a (CMachine (mc\<lparr>moMeta := om\<rparr>))))"

definition memFinalizerTransform :: "VerbType \<Rightarrow> string \<Rightarrow> nat \<Rightarrow> unit mem" where
  "memFinalizerTransform verbType finalizerName =
     onMeta (\<lambda>om. case verbType of
         VerbCreated \<Rightarrow> memAddFinalizer om finalizerName
       | VerbDeleted \<Rightarrow> memRemoveFinalizer om finalizerName
       | _ \<Rightarrow> mret om)"

definition memAnnotationTransform :: "string \<Rightarrow> string \<Rightarrow> nat \<Rightarrow> unit mem" where
  "memAnnotationTransform key val = onMeta (\<lambda>om. memPutAnnotation om key val)"

text \<open>\<^verbatim>\<open>transform(cur.DeepCopyObject().(client.Object), false)\<close>\<close>

definition transformCopy :: "(nat \<Rightarrow> unit mem) \<Rightarrow> nat option \<Rightarrow> nat option mem" where
  "transformCopy transform cur =
     mbind (Machine_DeepCopyObject cur) (\<lambda>p.
     case p of
       None \<Rightarrow> (\<lambda>_. None)
     | Some a \<Rightarrow> mbind (transform a) (\<lambda>_. mret (Some a)))"

section \<open>The in-place filter\<close>

lemma filterInPlace_eq:
  assumes "filterInPlace f n i k xs = (k', ys)" and "k \<le> i" and "i + n \<le> length xs"
  shows "length ys = length xs \<and> k' \<le> i + n \<and>
    take k' ys = take k xs @ filter (\<lambda>x. x \<noteq> f) (take n (drop i xs))"
  using assms
proof (induction f n i k xs rule: filterInPlace.induct)
  case (2 f n i k xs)
  have split: "take (Suc n) (drop i xs) = xs ! i # take n (drop (Suc i) xs)"
    using 2(5) by (simp add: Cons_nth_drop_Suc [symmetric])
  show ?case
  proof (cases "xs ! i \<noteq> f")
    case True
    moreover have "drop (Suc i) (xs[k := xs ! i]) = drop (Suc i) xs" using 2(4) by simp
    moreover have "take (Suc k) (xs[k := xs ! i]) = take k xs @ [xs ! i]"
      using 2(4,5) by (simp add: take_Suc_conv_app_nth)
    ultimately show ?thesis using 2(1) 2(3-5) split by simp
  qed (use 2(2-5) split in simp)
qed simp

lemma filterInPlace_all:
  assumes "filterInPlace f n 0 0 xs = (k, ys)" and "n \<le> length xs"
  shows "take k ys = filter (\<lambda>x. x \<noteq> f) (take n xs)" "k \<le> length ys"
  using filterInPlace_eq [OF assms(1)] assms(2) by auto

section \<open>The operations on metadata\<close>

text \<open>An operation that computes a function of the metadata and changes no cell but those of the metadata.\<close>

definition meta_op :: "(memMeta \<Rightarrow> memMeta mem) \<Rightarrow> (ObjectMeta \<Rightarrow> ObjectMeta) \<Rightarrow> bool" where
  "meta_op op f \<longleftrightarrow>
     (\<forall>h mm om. heap_ok h \<longrightarrow> meta_repr h mm om \<longrightarrow>
       (\<exists>mm' h'. op mm h = Some (mm', h') \<and> meta_repr h' mm' (f om) \<and> heap_ok h' \<and> hlimit h \<le> hlimit h' \<and>
         agree ({..<hlimit h} - meta_reach h mm) h h'))"

lemma meta_opI:
  assumes "\<And>h mm om. heap_ok h \<Longrightarrow> meta_repr h mm om \<Longrightarrow>
    \<exists>mm' h'. op mm h = Some (mm', h') \<and> meta_repr h' mm' (f om) \<and> heap_ok h' \<and> hlimit h \<le> hlimit h' \<and>
      agree ({..<hlimit h} - meta_reach h mm) h h'"
  shows "meta_op op f"
  using assms by (simp add: meta_op_def)

text \<open>Cells of different types are different cells.\<close>

lemma load_distinct:
  "load selStrings h b = Some y \<Longrightarrow> load selTime h a = Some x \<Longrightarrow> a \<noteq> b"
  "load selStrings h b = Some y \<Longrightarrow> load selMap h a = Some m \<Longrightarrow> a \<noteq> b"
  "load selMap h b = Some y' \<Longrightarrow> load selTime h a = Some x \<Longrightarrow> a \<noteq> b"
  by (auto simp: load_def split: option.splits)
    (case_tac x2; simp)+

lemma vals_write_strings:
  assumes "load selStrings h b = Some y"
  shows "ptr_val selTime h p = Some v \<Longrightarrow> ptr_val selTime (h\<lparr>hcells := (hcells h)(b \<mapsto> CStrings z)\<rparr>) p = Some v"
    and "map_val h p = Some m \<Longrightarrow> map_val (h\<lparr>hcells := (hcells h)(b \<mapsto> CStrings z)\<rparr>) p = Some m"
  using load_distinct(1,2) [OF assms] by (auto simp: ptr_val_def map_val_def split: option.splits)

lemma vals_write_map:
  assumes "load selMap h b = Some y"
  shows "ptr_val selTime h p = Some v \<Longrightarrow> ptr_val selTime (h\<lparr>hcells := (hcells h)(b \<mapsto> CMap z)\<rparr>) p = Some v"
    and "slice_val selStrings h q = Some xs \<Longrightarrow> slice_val selStrings (h\<lparr>hcells := (hcells h)(b \<mapsto> CMap z)\<rparr>) q = Some xs"
  using load_distinct(2) [of h _ _ b y] load_distinct(3) [OF assms] assms
  by (auto simp: ptr_val_def slice_val_def split: option.splits if_splits)

lemma load_some: "load sel h a = Some x \<Longrightarrow> hcells h a \<noteq> None"
  by (auto simp: load_def split: option.splits)

lemma meta_op_mret: "meta_op mret (\<lambda>om. om)"
  by (rule meta_opI) (auto simp: agree_def)

lemma meta_op_remove: "meta_op (\<lambda>m. memRemoveFinalizer m f) (\<lambda>om. RemoveFinalizer om f)"
proof (rule meta_opI)
  fix h mm om assume h: "heap_ok h" and r: "meta_repr h mm om"
  show "\<exists>mm' h'. memRemoveFinalizer mm f h = Some (mm', h') \<and> meta_repr h' mm' (RemoveFinalizer om f) \<and> heap_ok h' \<and>
      hlimit h \<le> hlimit h' \<and> agree ({..<hlimit h} - meta_reach h mm) h h'"
  proof (cases "mmFinalizers mm")
    case None
    then have "RemoveFinalizer om f = om" using r by (simp add: meta_repr_def slice_val_def RemoveFinalizer_def)
    then show ?thesis using None h r by (simp add: memRemoveFinalizer_def agree_def)
  next
    case (Some s)
    then obtain xs where xs: "load selStrings h (slArray s) = Some xs" "slLen s \<le> length xs" "Finalizers om = take (slLen s) xs"
      using r by (auto simp: meta_repr_def slice_val_def split: option.splits if_splits)
    obtain k ys where ys: "filterInPlace f (slLen s) 0 0 xs = (k, ys)" by fastforce
    let ?h = "h\<lparr>hcells := (hcells h)(slArray s \<mapsto> CStrings ys)\<rparr>"
    have "memRemoveFinalizer mm f h = Some (mm\<lparr>mmFinalizers := Some \<lparr>slArray = slArray s, slLen = k\<rparr>\<rparr>, ?h)"
      using Some xs(1) ys load_some [OF xs(1)] by (simp add: memRemoveFinalizer_def mwrite_def mbind_def mread_def)
    moreover have "meta_repr ?h (mm\<lparr>mmFinalizers := Some \<lparr>slArray = slArray s, slLen = k\<rparr>\<rparr>) (RemoveFinalizer om f)"
      using r xs(3) filterInPlace_all [OF ys xs(2)] vals_write_strings [OF xs(1), of _ _ ys]
      by (simp add: meta_repr_def RemoveFinalizer_def slice_val_def)
    moreover have "heap_ok ?h" by (rule heap_ok_write [OF h load_live [OF xs(1) h]])
    moreover have "agree ({..<hlimit h} - meta_reach h mm) h ?h"
      using Some by (auto simp: agree_def meta_reach_def slice_reach_def)
    ultimately show ?thesis by auto
  qed
qed

lemma appendString_ok:
  assumes h: "heap_ok h" and v: "slice_val selStrings h p = Some xs"
  shows "\<exists>q h'. appendString p x h = Some (q, h') \<and> slice_val selStrings h' q = Some (xs @ [x]) \<and> heap_ok h' \<and>
    hlimit h \<le> hlimit h' \<and> agree ({..<hlimit h} - slice_reach p) h h' \<and>
    (\<forall>r t. ptr_val selTime h r = Some t \<longrightarrow> ptr_val selTime h' r = Some t) \<and>
    (\<forall>r m. map_val h r = Some m \<longrightarrow> map_val h' r = Some m)"
proof -
  have new: "slice_val selStrings (h\<lparr>hcells := (hcells h)(hlimit h \<mapsto> CStrings zs), hlimit := Suc (hlimit h)\<rparr>)
      (Some \<lparr>slArray = hlimit h, slLen = length zs\<rparr>) = Some zs" for zs
    by (simp add: slice_val_def)
  have keep: "(\<forall>r t. ptr_val selTime h r = Some t \<longrightarrow> ptr_val selTime h' r = Some t) \<and>
      (\<forall>r m. map_val h r = Some m \<longrightarrow> map_val h' r = Some m)" if "grows h h'" for h'
    using copier.repr_grows(1) [OF copier_time _ h that] copier.repr_grows(1) [OF copier_map_ref _ h that] by blast
  have fresh: ?thesis if "appendString p x h = Some (Some \<lparr>slArray = hlimit h, slLen = length (xs @ [x])\<rparr>,
      h\<lparr>hcells := (hcells h)(hlimit h \<mapsto> CStrings (xs @ [x])), hlimit := Suc (hlimit h)\<rparr>)"
  proof -
    have g: "grows h (h\<lparr>hcells := (hcells h)(hlimit h \<mapsto> CStrings (xs @ [x])), hlimit := Suc (hlimit h)\<rparr>)"
      by (rule grows_new [OF h])
    have "agree ({..<hlimit h} - slice_reach p) h (h\<lparr>hcells := (hcells h)(hlimit h \<mapsto> CStrings (xs @ [x])), hlimit := Suc (hlimit h)\<rparr>)"
      by (auto simp: agree_def)
    then show ?thesis using that new [of "xs @ [x]"] keep [OF g] grows_ok [OF g] by blast
  qed
  show ?thesis
  proof (cases p)
    case None
    then show ?thesis using v by (intro fresh) (simp add: appendString_def mnew_def mbind_def slice_val_def)
  next
    case (Some s)
    then obtain ys where ys: "load selStrings h (slArray s) = Some ys" "slLen s \<le> length ys" "xs = take (slLen s) ys"
      using v by (auto simp: slice_val_def split: option.splits if_splits)
    show ?thesis
    proof (cases "slLen s < length ys")
      case True
      let ?h = "h\<lparr>hcells := (hcells h)(slArray s \<mapsto> CStrings (ys[slLen s := x]))\<rparr>"
      have "appendString p x h = Some (Some \<lparr>slArray = slArray s, slLen = Suc (slLen s)\<rparr>, ?h)"
        using Some True ys(1) load_some [OF ys(1)] by (simp add: appendString_def mwrite_def mbind_def mread_def)
      moreover have "slice_val selStrings ?h (Some \<lparr>slArray = slArray s, slLen = Suc (slLen s)\<rparr>) = Some (xs @ [x])"
        using True ys(3) by (simp add: slice_val_def take_Suc_conv_app_nth)
      moreover have "heap_ok ?h" by (rule heap_ok_write [OF h load_live [OF ys(1) h]])
      moreover have "agree ({..<hlimit h} - slice_reach p) h ?h" using Some by (auto simp: agree_def slice_reach_def)
      ultimately show ?thesis using vals_write_strings [OF ys(1)] by auto
    next
      case False
      then show ?thesis using Some ys
        by (intro fresh) (simp add: appendString_def mnew_def mbind_def mread_def)
    qed
  qed
qed

lemma meta_op_add: "meta_op (\<lambda>m. memAddFinalizer m f) (\<lambda>om. AddFinalizer om f)"
proof (rule meta_opI)
  fix h mm om assume h: "heap_ok h" and r: "meta_repr h mm om"
  have v: "slice_val selStrings h (mmFinalizers mm) = Some (Finalizers om)" using r by (simp add: meta_repr_def)
  have read: "(case mmFinalizers mm of None \<Rightarrow> mret []
      | Some s \<Rightarrow> mbind (mread selStrings (slArray s)) (\<lambda>xs. mret (take (slLen s) xs))) h = Some (Finalizers om, h)"
    using v by (auto simp: slice_val_def mbind_def mread_def split: option.splits if_splits)
  show "\<exists>mm' h'. memAddFinalizer mm f h = Some (mm', h') \<and> meta_repr h' mm' (AddFinalizer om f) \<and> heap_ok h' \<and>
      hlimit h \<le> hlimit h' \<and> agree ({..<hlimit h} - meta_reach h mm) h h'"
  proof (cases "f \<in> set (Finalizers om)")
    case True
    then show ?thesis using h r read by (simp add: memAddFinalizer_def mbind_def AddFinalizer_def agree_def)
  next
    case False
    obtain q h' where q: "appendString (mmFinalizers mm) f h = Some (q, h')" "slice_val selStrings h' q = Some (Finalizers om @ [f])"
        "heap_ok h'" "hlimit h \<le> hlimit h'" "agree ({..<hlimit h} - slice_reach (mmFinalizers mm)) h h'"
        "\<And>r t. ptr_val selTime h r = Some t \<Longrightarrow> ptr_val selTime h' r = Some t"
        "\<And>r m. map_val h r = Some m \<Longrightarrow> map_val h' r = Some m"
      using appendString_ok [OF h v, of f] by auto
    have "memAddFinalizer mm f h = Some (mm\<lparr>mmFinalizers := q\<rparr>, h')"
      using False q(1) read by (simp add: memAddFinalizer_def mbind_def)
    moreover have "meta_repr h' (mm\<lparr>mmFinalizers := q\<rparr>) (AddFinalizer om f)"
      using r q False by (simp add: meta_repr_def AddFinalizer_def)
    moreover have "agree ({..<hlimit h} - meta_reach h mm) h h'"
      using q(5) by (rule agree_mono) (auto simp: meta_reach_def)
    ultimately show ?thesis using q(3,4) by blast
  qed
qed

lemma meta_op_annotate: "meta_op (\<lambda>m. memPutAnnotation m k v) (\<lambda>om. om\<lparr>Annotations := mput (Annotations om) k v\<rparr>)"
proof (rule meta_opI)
  fix h mm om assume h: "heap_ok h" and r: "meta_repr h mm om"
  obtain a h1 where a: "(case mmAnnotations mm of None \<Rightarrow> mnew (CMap []) | Some a \<Rightarrow> mret a) h = Some (a, h1)"
      "grows h h1" "load selMap h1 a = Some (Annotations om)" "a \<in> meta_reach h mm \<or> a = hlimit h"
      "distinct (map fst (Annotations om))"
  proof (cases "mmAnnotations mm")
    case None
    then show ?thesis using r that [OF _ grows_new [OF h, of "CMap []"], of "hlimit h"]
      by (simp add: mnew_def meta_repr_def map_val_def)
  next
    case (Some b)
    then show ?thesis using r that [OF _ grows_refl [OF h], of b] h
      by (auto simp: meta_repr_def map_val_def meta_reach_def split: option.splits if_splits)
  qed
  let ?h = "h1\<lparr>hcells := (hcells h1)(a \<mapsto> CMap (mput (Annotations om) k v))\<rparr>"
  have "memPutAnnotation mm k v h = Some (mm\<lparr>mmAnnotations := Some a\<rparr>, ?h)"
    using a(1,3) load_some [OF a(3)] by (simp add: memPutAnnotation_def mwrite_def mbind_def mread_def)
  moreover have "ptr_val selTime h1 (mmDeletionTimestamp mm) = Some (DeletionTimestamp om)"
      "slice_val selStrings h1 (mmFinalizers mm) = Some (Finalizers om)"
    using copier.repr_grows(1) [OF copier_time _ h a(2)] copier.repr_grows(1) [OF copier_strings _ h a(2)] r
    by (auto simp: meta_repr_def)
  then have "meta_repr ?h (mm\<lparr>mmAnnotations := Some a\<rparr>) (om\<lparr>Annotations := mput (Annotations om) k v\<rparr>)"
    using r vals_write_map [OF a(3)] distinct_mput [OF a(5)] by (simp add: meta_repr_def map_val_def)
  moreover have "heap_ok ?h" by (rule heap_ok_write [OF grows_ok(1) [OF a(2)] load_live [OF a(3) grows_ok(1) [OF a(2)]]])
  moreover have "agree ({..<hlimit h} - meta_reach h mm) h ?h" using a(2,4) by (auto simp: agree_def grows_def)
  ultimately show "\<exists>mm' h'. memPutAnnotation mm k v h = Some (mm', h') \<and>
      meta_repr h' mm' (om\<lparr>Annotations := mput (Annotations om) k v\<rparr>) \<and> heap_ok h' \<and> hlimit h \<le> hlimit h' \<and>
      agree ({..<hlimit h} - meta_reach h mm) h h'"
    using grows_ok(2) [OF a(2)] by auto
qed

section \<open>Changing a copy\<close>

text \<open>The metadata, spec and status of a copy share no cells either, and none of them is a machine's cell.\<close>

lemma copy_parts_separate:
  assumes "machine_repr h x m" and "heap_ok h" and "Machine_DeepCopyInto x h = Some (y, h')"
  shows "meta_reach k (moMeta y) \<inter> (spec_reach k (moSpec y) \<union> status_reach k (moStatus y)) = {}"
proof -
  obtain om h1 where 1: "ObjectMeta_DeepCopyInto (moMeta x) h = Some (om, h1)" "grows h h1" "meta_reach h1 om \<subseteq> {hlimit h..<hlimit h1}"
    using copier.copy_ok [OF copier_meta _ assms(2)] assms(1) by (metis machine_repr_def)
  have "spec_repr h1 (moSpec x) (Spec m)"
    using copier.repr_grows(1) [OF copier_spec _ assms(2) 1(2)] assms(1) by (simp add: machine_repr_def)
  then obtain sp h2 where 2: "MachineSpec_DeepCopyInto (moSpec x) h1 = Some (sp, h2)" "grows h1 h2" "spec_reach h2 sp \<subseteq> {hlimit h1..<hlimit h2}"
    using copier.copy_ok [OF copier_spec _ grows_ok(1) [OF 1(2)]] by metis
  have "status_repr h2 (moStatus x) (Status m)"
    using copier.repr_grows(1) [OF copier_status _ assms(2) grows_trans [OF 1(2) 2(2)]] assms(1) by (simp add: machine_repr_def)
  then obtain st h3 where 3: "MachineStatus_DeepCopyInto (moStatus x) h2 = Some (st, h3)" "status_reach h3 st \<subseteq> {hlimit h2..<hlimit h3}"
    using copier.copy_ok [OF copier_status _ grows_ok(1) [OF 2(2)]] by metis
  have "y = x\<lparr>moMeta := om, moSpec := sp, moStatus := st\<rparr>"
    using assms(3) 1(1) 2(1) 3(1) by (simp add: Machine_DeepCopyInto_def mbind_def)
  then have "moMeta y = om" "moSpec y = sp" "moStatus y = st" by simp_all
  moreover have "meta_reach k om \<subseteq> {..<hlimit h1}" using 1(3) by (auto simp: meta_reach_def)
  moreover have "spec_reach k sp \<subseteq> {hlimit h1..}" using 2(3) by (auto simp: spec_reach_def)
  moreover have "status_reach k st \<subseteq> {hlimit h1..}"
    using 3(2) grows_ok(2) [OF 2(2)] by (auto simp: status_reach_def)
  moreover have "{..<hlimit h1} \<inter> {hlimit h1..} = {}" by auto
  ultimately show ?thesis by (simp only:) blast
qed

definition no_machine :: "(cell \<Rightarrow> 'b option) \<Rightarrow> bool" where
  "no_machine sel \<longleftrightarrow> (\<forall>c x. sel c = Some x \<longrightarrow> selMachine c = None)"

lemma no_machine_sels: "no_machine selTime" "no_machine selName" "no_machine selRef" "no_machine selMap"
  "no_machine selStrings" "no_machine selConds"
  unfolding no_machine_def by (intro allI; rename_tac c x; case_tac c; simp)+

lemma load_no_machine: "no_machine sel \<Longrightarrow> load sel h a = Some y \<Longrightarrow> load selMachine h a = None"
  by (auto simp: no_machine_def load_def split: option.splits)

lemma vals_no_machine:
  "no_machine sel \<Longrightarrow> ptr_val sel h p = Some t \<Longrightarrow> a \<in> set_option p \<Longrightarrow> load selMachine h a = None"
  "map_val h p = Some m \<Longrightarrow> a \<in> set_option p \<Longrightarrow> load selMachine h a = None"
  "no_machine sel' \<Longrightarrow> slice_val sel' h q = Some xs \<Longrightarrow> a \<in> slice_reach q \<Longrightarrow> load selMachine h a = None"
  using load_no_machine [of sel h a] load_no_machine [OF no_machine_sels(4), of h a] load_no_machine [of sel' h a]
  by (auto simp: ptr_val_def map_val_def slice_val_def slice_reach_def split: option.splits)

lemma not_a_machine:
  "meta_repr h mm om \<Longrightarrow> a \<in> meta_reach h mm \<Longrightarrow> load selMachine h a = None"
  "spec_repr h ms sp \<Longrightarrow> a \<in> spec_reach h ms \<Longrightarrow> load selMachine h a = None"
  "status_repr h mt st \<Longrightarrow> a \<in> status_reach h mt \<Longrightarrow> load selMachine h a = None"
  unfolding meta_repr_def meta_reach_def spec_repr_def spec_reach_def status_repr_def status_reach_def
  by (blast intro: vals_no_machine no_machine_sels)+

lemma Machine_DeepCopy_runs:
  assumes "heap_ok h" and "pointer_repr selMachine machine_repr h p (Some m)"
  obtains b y h' where "Machine_DeepCopy p h = Some (Some b, h')" "grows h h'" "load selMachine h' b = Some y"
    "machine_repr h' y m" "pointer_repr selMachine machine_repr h' p (Some m)"
    "pointer_reach selMachine machine_reach h' p \<inter> insert b (machine_reach h' y) = {}"
    "\<And>k. meta_reach k (moMeta y) \<inter> (spec_reach k (moSpec y) \<union> status_reach k (moStatus y)) = {}"
proof -
  obtain q h' where q: "Machine_DeepCopy p h = Some (q, h')" "grows h h'" "pointer_repr selMachine machine_repr h' q (Some m)"
      "pointer_repr selMachine machine_repr h' p (Some m)"
      "pointer_reach selMachine machine_reach h' p \<inter> pointer_reach selMachine machine_reach h' q = {}"
    by (rule machine_copy.copy_separate [OF assms(2,1)])
  then obtain b y where b: "q = Some b" "load selMachine h' b = Some y" "machine_repr h' y m"
    by (auto simp: pointer_repr_def split: option.splits)
  obtain a x where a: "p = Some a" "load selMachine h a = Some x" "machine_repr h x m"
    using assms(2) by (auto simp: pointer_repr_def split: option.splits)
  let ?h0 = "h\<lparr>hcells := (hcells h)(hlimit h \<mapsto> CMachine zeroMachine), hlimit := Suc (hlimit h)\<rparr>"
  have g0: "grows h ?h0" by (rule grows_new [OF assms(1)])
  have l: "load selMachine ?h0 a = Some x" using a(2) load_live [OF a(2) assms(1)] by simp
  have x0: "machine_repr ?h0 x m" by (rule copier.repr_grows(1) [OF copier_machine a(3) assms(1) g0])
  obtain y' h1 where y': "Machine_DeepCopyInto x ?h0 = Some (y', h1)" "grows ?h0 h1"
    using copier.copy_ok [OF copier_machine x0 grows_ok(1) [OF g0]] by blast
  have "hcells h1 (hlimit h) \<noteq> None" using y'(2) by (auto simp: grows_def)
  then have "Machine_DeepCopy p h = Some (Some (hlimit h), h1\<lparr>hcells := (hcells h1)(hlimit h \<mapsto> CMachine y')\<rparr>)"
    using a(1) l y'(1) by (simp add: Machine_DeepCopy_def deepCopyOf_def mnew_def mbind_def mread_def mwrite_def)
  then have "b = hlimit h" "h' = h1\<lparr>hcells := (hcells h1)(hlimit h \<mapsto> CMachine y')\<rparr>" using q(1) b(1) by simp_all
  then have "y' = y" using b(2) by simp
  then show ?thesis
    using that [OF q(1) [unfolded b(1)] q(2) b(2,3) q(4)] q(5) b(1,2)
      copy_parts_separate [OF x0 grows_ok(1) [OF g0] y'(1)]
    by (simp add: pointer_reach_def)
qed

lemma onMeta_copy:
  assumes op: "meta_op op f" and h: "heap_ok h" and b: "load selMachine h b = Some y" "machine_repr h y m"
    and parts: "\<And>k. meta_reach k (moMeta y) \<inter> (spec_reach k (moSpec y) \<union> status_reach k (moStatus y)) = {}"
  obtains h' where "onMeta op b h = Some ((), h')" "pointer_repr selMachine machine_repr h' (Some b) (Some (SetMeta m (f (Meta m))))"
    "heap_ok h'" "agree ({..<hlimit h} - insert b (machine_reach h y)) h h'"
proof -
  have reprs: "meta_repr h (moMeta y) (Meta m)" "spec_repr h (moSpec y) (Spec m)" "status_repr h (moStatus y) (Status m)" "moKind y = Kind m"
    using b(2) by (simp_all add: machine_repr_def)
  obtain mm h2 where 2: "op (moMeta y) h = Some (mm, h2)" "meta_repr h2 mm (f (Meta m))" "heap_ok h2" "hlimit h \<le> hlimit h2"
      "agree ({..<hlimit h} - meta_reach h (moMeta y)) h h2"
    using op h reprs(1) unfolding meta_op_def by metis
  have "b \<notin> meta_reach h (moMeta y)" using not_a_machine(1) [OF reprs(1)] b(1) by fastforce
  then have b2: "load selMachine h2 b = Some y"
    using load_agree [OF 2(5), of b selMachine] load_live [OF b(1) h] b(1) by simp
  define h3 where "h3 = h2\<lparr>hcells := (hcells h2)(b \<mapsto> CMachine (y\<lparr>moMeta := mm\<rparr>))\<rparr>"
  have h3: "agree A h2 h3" if "b \<notin> A" for A using that by (auto simp: agree_def h3_def)
  have "meta_repr h3 mm (f (Meta m))"
    by (rule copier.repr_agree [OF copier_meta 2(2) h3]) (use not_a_machine(1) [OF 2(2)] b2 in fastforce)
  moreover have "spec_repr h2 (moSpec y) (Spec m)"
    by (rule copier.repr_agree [OF copier_spec reprs(2) agree_mono [OF 2(5)]])
      (use copier.reach_live [OF copier_spec reprs(2) h] parts in blast)
  then have "spec_repr h3 (moSpec y) (Spec m)"
    using not_a_machine(2) b2 by (intro copier.repr_agree [OF copier_spec _ h3]) fastforce+
  moreover have "status_repr h2 (moStatus y) (Status m)"
    by (rule copier.repr_agree [OF copier_status reprs(3) agree_mono [OF 2(5)]])
      (use copier.reach_live [OF copier_status reprs(3) h] parts in blast)
  then have "status_repr h3 (moStatus y) (Status m)"
    using not_a_machine(3) b2 by (intro copier.repr_agree [OF copier_status _ h3]) fastforce+
  ultimately have "machine_repr h3 (y\<lparr>moMeta := mm\<rparr>) (SetMeta m (f (Meta m)))"
    using reprs(4) by (simp add: machine_repr_def SetMeta_def)
  then have "pointer_repr selMachine machine_repr h3 (Some b) (Some (SetMeta m (f (Meta m))))"
    by (simp add: pointer_repr_def h3_def)
  moreover have "onMeta op b h = Some ((), h3)"
    using b(1) 2(1) load_some [OF b2] by (simp add: onMeta_def mbind_def mread_def mwrite_def h3_def)
  moreover have "heap_ok h3" unfolding h3_def by (rule heap_ok_write [OF 2(3) load_live [OF b2 2(3)]])
  moreover have "agree ({..<hlimit h} - insert b (machine_reach h y)) h h3"
    using 2(5) by (auto simp: agree_def h3_def machine_reach_def)
  ultimately show ?thesis using that by blast
qed

lemma transformCopy_ok:
  assumes op: "meta_op op f" and h: "heap_ok h" and p: "pointer_repr selMachine machine_repr h p (Some m)"
  shows "\<exists>q h'. transformCopy (onMeta op) p h = Some (q, h') \<and> heap_ok h' \<and>
    pointer_repr selMachine machine_repr h' q (Some (SetMeta m (f (Meta m)))) \<and>
    pointer_repr selMachine machine_repr h' p (Some m)"
proof -
  obtain b y h1 where 1: "Machine_DeepCopy p h = Some (Some b, h1)" "grows h h1" "load selMachine h1 b = Some y"
      "machine_repr h1 y m" "pointer_repr selMachine machine_repr h1 p (Some m)"
      "pointer_reach selMachine machine_reach h1 p \<inter> insert b (machine_reach h1 y) = {}"
      "\<And>k. meta_reach k (moMeta y) \<inter> (spec_reach k (moSpec y) \<union> status_reach k (moStatus y)) = {}"
    by (rule Machine_DeepCopy_runs [OF h p]) blast
  obtain h2 where 2: "onMeta op b h1 = Some ((), h2)"
      "pointer_repr selMachine machine_repr h2 (Some b) (Some (SetMeta m (f (Meta m))))" "heap_ok h2"
      "agree ({..<hlimit h1} - insert b (machine_reach h1 y)) h1 h2"
    by (rule onMeta_copy [OF op grows_ok(1) [OF 1(2)] 1(3,4,7)]) blast
  have "pointer_repr selMachine machine_repr h2 p (Some m)"
    by (rule machine_copy.repr_agree [OF 1(5) agree_mono [OF 2(4)]])
      (use machine_copy.reach_live [OF 1(5) grows_ok(1) [OF 1(2)]] 1(6) in blast)
  moreover have "transformCopy (onMeta op) p h = Some (Some b, h2)"
    using 1(1) 2(1) by (simp add: transformCopy_def Machine_DeepCopyObject_def copyObject_id mbind_def)
  ultimately show ?thesis using 2(2,3) by blast
qed

lemma finalizerTransform_on_copy:
  assumes "heap_ok h" and "pointer_repr selMachine machine_repr h p (Some m)"
  shows "\<exists>q h'. transformCopy (memFinalizerTransform verb f) p h = Some (q, h') \<and>
    pointer_repr selMachine machine_repr h' q (Some (finalizerTransform verb f m False)) \<and>
    pointer_repr selMachine machine_repr h' p (Some m)"
proof -
  let ?op = "\<lambda>om. case verb of VerbCreated \<Rightarrow> memAddFinalizer om f | VerbDeleted \<Rightarrow> memRemoveFinalizer om f | _ \<Rightarrow> mret om"
  let ?f = "\<lambda>om. case verb of VerbCreated \<Rightarrow> AddFinalizer om f | VerbDeleted \<Rightarrow> RemoveFinalizer om f | _ \<Rightarrow> om"
  have "meta_op ?op ?f" by (cases verb) (simp_all add: meta_op_add meta_op_remove meta_op_mret)
  moreover have "SetMeta m (?f (Meta m)) = finalizerTransform verb f m False"
    by (cases verb) (simp_all add: finalizerTransform_def SetMeta_def)
  ultimately show ?thesis
    using transformCopy_ok [of ?op ?f, OF _ assms] unfolding memFinalizerTransform_def by metis
qed

lemma annotationTransform_on_copy:
  assumes "heap_ok h" and "pointer_repr selMachine machine_repr h p (Some m)"
  shows "\<exists>q h'. transformCopy (memAnnotationTransform k v) p h = Some (q, h') \<and>
    pointer_repr selMachine machine_repr h' q (Some (annotationTransform k v m False)) \<and>
    pointer_repr selMachine machine_repr h' p (Some m)"
  using transformCopy_ok [OF meta_op_annotate assms, of k v]
  unfolding memAnnotationTransform_def annotationTransform_def by metis

end
