(* ===== verification/Server.thy ===== *)
theory Server
  imports Complex_Main Poll
begin

text \<open>
  Starting the operator (\<^verbatim>\<open>pkg/cmds\<close>, \<^verbatim>\<open>cmd/docker-machine-operator\<close>): the options and their
  flags, the start-up sequence of \<^verbatim>\<open>OperatorOptions.Run\<close> with its exits, and the commands around
  it, the version command among them. The libraries it calls (client configuration, controller
  manager) are the argument \<^verbatim>\<open>senv\<close>; the parsing of a command line by the cobra library and the
  semver library are arguments of \<^verbatim>\<open>execute\<close>; the rounding
  of a float64 to a float32 is an argument of \<^verbatim>\<open>Run\<close> through \<^verbatim>\<open>senv\<close>. A step is recorded when it is
  taken, whatever its outcome.
\<close>

section \<open>Options and flags\<close>

record OperatorOptions =
  MasterURL :: string
  KubeconfigPath :: string
  LicenseFile :: string
  QPS :: rat
  Burst :: int
  ResyncPeriod :: int
  MaxNumRequeues :: int
  NumThreads :: int
  metricsAddr :: string
  enableLeaderElection :: bool
  probeAddr :: string

definition NewOperatorOptions :: OperatorOptions where
  "NewOperatorOptions = \<lparr>MasterURL = '''', KubeconfigPath = '''', LicenseFile = '''', QPS = 1000000, Burst = 1000000,
     ResyncPeriod = 10 * minute, MaxNumRequeues = 5, NumThreads = 2, metricsAddr = '':8080'',
     enableLeaderElection = False, probeAddr = '':8081''\<rparr>"

datatype flagValue = FString string | FFloat rat | FInt int | FDuration int | FBool bool

text \<open>A registered flag: its name, its default, and how a value of its kind is stored.\<close>

record 's goFlag =
  flagName :: string
  flagDefault :: flagValue
  flagSet :: "flagValue \<Rightarrow> 's \<Rightarrow> 's option"

definition StringVar :: "((string \<Rightarrow> string) \<Rightarrow> 's \<Rightarrow> 's) \<Rightarrow> string \<Rightarrow> string \<Rightarrow> 's goFlag" where
  "StringVar upd name dflt = \<lparr>flagName = name, flagDefault = FString dflt,
     flagSet = (\<lambda>v s. case v of FString x \<Rightarrow> Some (upd (\<lambda>_. x) s) | _ \<Rightarrow> None)\<rparr>"

definition Float64Var :: "((rat \<Rightarrow> rat) \<Rightarrow> 's \<Rightarrow> 's) \<Rightarrow> string \<Rightarrow> rat \<Rightarrow> 's goFlag" where
  "Float64Var upd name dflt = \<lparr>flagName = name, flagDefault = FFloat dflt,
     flagSet = (\<lambda>v s. case v of FFloat x \<Rightarrow> Some (upd (\<lambda>_. x) s) | _ \<Rightarrow> None)\<rparr>"

definition IntVar :: "((int \<Rightarrow> int) \<Rightarrow> 's \<Rightarrow> 's) \<Rightarrow> string \<Rightarrow> int \<Rightarrow> 's goFlag" where
  "IntVar upd name dflt = \<lparr>flagName = name, flagDefault = FInt dflt,
     flagSet = (\<lambda>v s. case v of FInt x \<Rightarrow> Some (upd (\<lambda>_. x) s) | _ \<Rightarrow> None)\<rparr>"

definition DurationVar :: "((int \<Rightarrow> int) \<Rightarrow> 's \<Rightarrow> 's) \<Rightarrow> string \<Rightarrow> int \<Rightarrow> 's goFlag" where
  "DurationVar upd name dflt = \<lparr>flagName = name, flagDefault = FDuration dflt,
     flagSet = (\<lambda>v s. case v of FDuration x \<Rightarrow> Some (upd (\<lambda>_. x) s) | _ \<Rightarrow> None)\<rparr>"

definition BoolVar :: "((bool \<Rightarrow> bool) \<Rightarrow> 's \<Rightarrow> 's) \<Rightarrow> string \<Rightarrow> bool \<Rightarrow> 's goFlag" where
  "BoolVar upd name dflt = \<lparr>flagName = name, flagDefault = FBool dflt,
     flagSet = (\<lambda>v s. case v of FBool x \<Rightarrow> Some (upd (\<lambda>_. x) s) | _ \<Rightarrow> None)\<rparr>"

definition AddGoFlags :: "OperatorOptions \<Rightarrow> OperatorOptions goFlag list" where
  "AddGoFlags s =
     [StringVar MasterURL_update ''master'' (MasterURL s),
      StringVar KubeconfigPath_update ''kubeconfig'' (KubeconfigPath s),
      StringVar LicenseFile_update ''license-file'' (LicenseFile s),
      Float64Var QPS_update ''qps'' (QPS s),
      IntVar Burst_update ''burst'' (Burst s),
      DurationVar ResyncPeriod_update ''resync-period'' (ResyncPeriod s),
      StringVar metricsAddr_update ''metrics-bind-address'' (metricsAddr s),
      StringVar probeAddr_update ''health-probe-bind-address'' (probeAddr s),
      BoolVar enableLeaderElection_update ''leader-elect'' (enableLeaderElection s)]"

text \<open>\<^verbatim>\<open>AddFlags\<close> registers the same flags with the command's flag set.\<close>

definition AddFlags :: "OperatorOptions \<Rightarrow> OperatorOptions goFlag list" where
  "AddFlags s = AddGoFlags s"

text \<open>Setting flags from a command line, in its order; unknown flags and values of another kind are errors.\<close>

fun setFlags :: "'s goFlag list \<Rightarrow> (string \<times> flagValue) list \<Rightarrow> 's \<Rightarrow> 's option" where
  "setFlags flags [] s = Some s"
| "setFlags flags ((name, v) # rest) s =
     (case find (\<lambda>f. flagName f = name) flags of
        None \<Rightarrow> None
      | Some f \<Rightarrow> (case flagSet f v s of None \<Rightarrow> None | Some s' \<Rightarrow> setFlags flags rest s'))"

section \<open>Start-up\<close>

record restConfig =
  cfgMaster :: string
  cfgKubeconfig :: string
  cfgQPS :: rat
  cfgBurst :: int

record managerOptions =
  MetricsBindAddress :: string
  SyncPeriod :: int
  HealthProbeBindAddress :: string
  LeaderElection :: bool
  LeaderElectionID :: string

datatype sstep =
    BuildConfigFromFlags string string
  | ManagerNew restConfig managerOptions
  | CompleteController string
  | AddHealthzCheck string
  | AddReadyzCheck string
  | ManagerStart
  | Stdout string

record senv =
  se_call :: "sstep \<Rightarrow> gerr option"
  se_float32 :: "rat \<Rightarrow> rat"

datatype outcome = Returned "gerr option" | Exited int

type_synonym started = "outcome \<times> sstep list"

text \<open>
  A step whose failure ends the process with a status (\<^verbatim>\<open>os.Exit\<close>, \<^verbatim>\<open>klog.Fatalf\<close>) without
  returning.
\<close>

definition orExit :: "senv \<Rightarrow> int \<Rightarrow> sstep \<Rightarrow> started \<Rightarrow> started" where
  "orExit env status step rest =
     (case se_call env step of
        Some _ \<Rightarrow> (Exited status, [step])
      | None \<Rightarrow> (fst rest, step # snd rest))"

definition Driver_SetupWithManager :: sstep where
  "Driver_SetupWithManager = CompleteController ''Driver''"

definition Machine_SetupWithManager :: sstep where
  "Machine_SetupWithManager = CompleteController ''Machine''"

definition Run :: "senv \<Rightarrow> OperatorOptions \<Rightarrow> started" where
  "Run env s =
     (let cfg = \<lparr>cfgMaster = MasterURL s, cfgKubeconfig = KubeconfigPath s, cfgQPS = se_float32 env (QPS s), cfgBurst = Burst s\<rparr>;
          syncPeriod = 60 * second;
          options = \<lparr>MetricsBindAddress = '''', SyncPeriod = syncPeriod, HealthProbeBindAddress = probeAddr s,
            LeaderElection = enableLeaderElection s, LeaderElectionID = ''54995429.klusters.dev''\<rparr>
      in orExit env 255 (BuildConfigFromFlags (MasterURL s) (KubeconfigPath s))
        (orExit env 1 (ManagerNew cfg options)
        (orExit env 1 Driver_SetupWithManager
        (orExit env 1 Machine_SetupWithManager
        (orExit env 1 (AddHealthzCheck ''healthz'')
        (orExit env 1 (AddReadyzCheck ''readyz'')
        (orExit env 1 ManagerStart
        (Returned None, []))))))))"

section \<open>Version\<close>

text \<open>
  The version the binary reports (\<^verbatim>\<open>v.Version\<close> of the vendored version package) and the strings
  set at build time, which the \<^verbatim>\<open>init\<close> function of the main package copies.
\<close>

record version =
  Version :: string
  VersionStrategy :: string
  CommitHash :: string
  GitBranch :: string
  GitTag :: string
  CommitTimestamp :: string
  GoVersion :: string
  Compiler :: string
  Platform :: string

record buildVars =
  build_Version :: string
  build_VersionStrategy :: string
  build_GitTag :: string
  build_GitBranch :: string
  build_CommitHash :: string
  build_CommitTimestamp :: string
  build_GoVersion :: string
  build_Compiler :: string
  build_Platform :: string

definition main_init :: "buildVars \<Rightarrow> version \<Rightarrow> version" where
  "main_init b v =
     v\<lparr>Version := build_Version b\<rparr>
      \<lparr>VersionStrategy := build_VersionStrategy b\<rparr>
      \<lparr>GitTag := build_GitTag b\<rparr>
      \<lparr>GitBranch := build_GitBranch b\<rparr>
      \<lparr>CommitHash := build_CommitHash b\<rparr>
      \<lparr>CommitTimestamp := build_CommitTimestamp b\<rparr>
      \<lparr>GoVersion := build_GoVersion b\<rparr>
      \<lparr>Compiler := build_Compiler b\<rparr>
      \<lparr>Platform := build_Platform b\<rparr>"

definition versionLine :: "string \<Rightarrow> string \<Rightarrow> string" where
  "versionLine name val = name @ '' = '' @ val @ [CHR 0x0A]"

definition optionalLine :: "string \<Rightarrow> string \<Rightarrow> string" where
  "optionalLine name val = (if val \<noteq> '''' then versionLine name val else '''')"

text \<open>What \<^verbatim>\<open>Print\<close> of the version command writes.\<close>

definition version_Print :: "version \<Rightarrow> string" where
  "version_Print v =
     versionLine ''Version'' (Version v) @ versionLine ''VersionStrategy'' (VersionStrategy v) @
     versionLine ''GitTag'' (GitTag v) @ versionLine ''GitBranch'' (GitBranch v) @
     versionLine ''CommitHash'' (CommitHash v) @ versionLine ''CommitTimestamp'' (CommitTimestamp v) @
     optionalLine ''GoVersion'' (GoVersion v) @ optionalLine ''Compiler'' (Compiler v) @
     optionalLine ''Platform'' (Platform v)"

text \<open>
  \<^verbatim>\<open>RunE\<close> of the command that \<^verbatim>\<open>NewCmdVersion\<close> builds: the version is printed, and checked against
  a constraint when one is given. The semver library is an argument, with the text its values have
  in the error of a check that fails.
\<close>

record ('c, 'v) semver =
  sv_NewConstraint :: "string \<Rightarrow> gerr + 'c"
  sv_NewVersion :: "string \<Rightarrow> gerr + 'v"
  sv_Check :: "'c \<Rightarrow> 'v \<Rightarrow> bool"
  sv_quoteVersion :: "'v \<Rightarrow> string"
  sv_quoteConstraint :: "'c \<Rightarrow> string"

record versionFlags =
  short :: bool
  check :: string

definition versionRunE :: "('c, 'v) semver \<Rightarrow> version \<Rightarrow> versionFlags \<Rightarrow> started" where
  "versionRunE sv v f =
     (let printed = Stdout (if short f then Version v else version_Print v)
      in if check f = '''' then (Returned None, [printed])
         else
           (case sv_NewConstraint sv (check f) of
              Inl err \<Rightarrow> (Returned (Some (ErrorString (''failed to parse --check: '' @ errText err))), [printed])
            | Inr c \<Rightarrow>
                (case sv_NewVersion sv (Version v) of
                   Inl err \<Rightarrow> (Returned (Some (ErrorString (''failed to parse version: '' @ errText err))), [printed])
                 | Inr w \<Rightarrow>
                     if \<not> sv_Check sv c w
                     then (Returned (Some (ErrorString (''version '' @ sv_quoteVersion sv w @ '' fails to meet constraint '' @
                       sv_quoteConstraint sv c))), [printed])
                     else (Returned None, [printed]))))"

definition NewCmdVersion :: "('c, 'v) semver \<Rightarrow> version \<Rightarrow> (string \<times> flagValue) list \<Rightarrow> started" where
  "NewCmdVersion sv v given =
     (case setFlags [BoolVar short_update ''short'' False, StringVar check_update ''check'' ''''] given
         \<lparr>short = False, check = ''''\<rparr> of
        None \<Rightarrow> (Returned (Some (ErrorString ''invalid flag'')), [])
      | Some f \<Rightarrow> versionRunE sv v f)"

section \<open>Commands\<close>

datatype command = CmdVersion | CmdRun

text \<open>\<^verbatim>\<open>RunE\<close> of the command that \<^verbatim>\<open>NewCmdRun\<close> builds, for the flags given on the command line.\<close>

definition NewCmdRun :: "senv \<Rightarrow> (string \<times> flagValue) list \<Rightarrow> started" where
  "NewCmdRun env given =
     (let o' = NewOperatorOptions
      in case setFlags (AddFlags o') given o' of
           None \<Rightarrow> (Returned (Some (ErrorString ''invalid flag'')), [])
         | Some s \<Rightarrow> Run env s)"

text \<open>
  \<^verbatim>\<open>execute\<close> over the commands that \<^verbatim>\<open>NewRootCmd\<close> adds. The library's choice of a command and its
  flags is an argument; the version is the one the \<^verbatim>\<open>init\<close> function has set.
\<close>

definition execute ::
  "(string list \<Rightarrow> gerr + command \<times> (string \<times> flagValue) list) \<Rightarrow> ('c, 'v) semver \<Rightarrow> version \<Rightarrow> senv \<Rightarrow> string list \<Rightarrow> started" where
  "execute cobra sv version env args =
     (case cobra args of
        Inl e \<Rightarrow> (Returned (Some e), [])
      | Inr (CmdVersion, given) \<Rightarrow> NewCmdVersion sv version given
      | Inr (CmdRun, given) \<Rightarrow> NewCmdRun env given)"

text \<open>\<^verbatim>\<open>main\<close>: the exit status of the process, 0 when \<^verbatim>\<open>main\<close> returns.\<close>

definition main ::
  "(string list \<Rightarrow> gerr + command \<times> (string \<times> flagValue) list) \<Rightarrow> ('c, 'v) semver \<Rightarrow> version \<Rightarrow> senv \<Rightarrow> string list \<Rightarrow>
   int \<times> sstep list" where
  "main cobra sv version env args =
     (case execute cobra sv version env args of
        (Returned None, steps) \<Rightarrow> (0, steps)
      | (Returned (Some _), steps) \<Rightarrow> (1, steps)
      | (Exited n, steps) \<Rightarrow> (n, steps))"

section \<open>Facts\<close>

fun exit_status :: "started \<Rightarrow> int \<times> sstep list" where
  "exit_status (Returned None, steps) = (0, steps)"
| "exit_status (Returned (Some _), steps) = (1, steps)"
| "exit_status (Exited n, steps) = (n, steps)"

lemma main_exit_status: "main cobra sv version env args = exit_status (execute cobra sv version env args)"
  by (auto simp: main_def split: prod.splits outcome.splits option.splits)

text \<open>The version command reports the strings of the build, whatever the variable held before.\<close>

lemma version_is_of_build: "main cobra sv (main_init b v) env args = main cobra sv (main_init b v') env args"
proof -
  have "main_init b v = main_init b v'" by (cases v, cases v') (simp add: main_init_def)
  then show ?thesis by simp
qed

text \<open>The exit status of a check: 0 exactly when the constraint and the version are read and it is met.\<close>

definition meets :: "('c, 'v) semver \<Rightarrow> string \<Rightarrow> string \<Rightarrow> bool" where
  "meets sv constraint version \<longleftrightarrow> (\<exists>c v. sv_NewConstraint sv constraint = Inr c \<and> sv_NewVersion sv version = Inr v \<and> sv_Check sv c v)"

lemma version_exit:
  assumes "cobra args = Inr (CmdVersion, [(''check'', FString constraint)])"
  shows "main cobra sv v env args =
    (if constraint = '''' \<or> meets sv constraint (Version v) then 0 else 1, [Stdout (version_Print v)])"
  using assms
  by (auto simp: main_def execute_def NewCmdVersion_def versionRunE_def BoolVar_def StringVar_def meets_def Let_def
      split: sum.splits)

text \<open>The steps a run takes, in order, with the status of a failure.\<close>

definition startup_steps :: "senv \<Rightarrow> OperatorOptions \<Rightarrow> (sstep \<times> int) list" where
  "startup_steps env s =
     [(BuildConfigFromFlags (MasterURL s) (KubeconfigPath s), 255),
      (ManagerNew \<lparr>cfgMaster = MasterURL s, cfgKubeconfig = KubeconfigPath s, cfgQPS = se_float32 env (QPS s), cfgBurst = Burst s\<rparr>
         \<lparr>MetricsBindAddress = '''', SyncPeriod = 60 * second, HealthProbeBindAddress = probeAddr s,
          LeaderElection = enableLeaderElection s, LeaderElectionID = ''54995429.klusters.dev''\<rparr>, 1),
      (Driver_SetupWithManager, 1), (Machine_SetupWithManager, 1), (AddHealthzCheck ''healthz'', 1),
      (AddReadyzCheck ''readyz'', 1), (ManagerStart, 1)]"

fun run_steps :: "senv \<Rightarrow> (sstep \<times> int) list \<Rightarrow> started" where
  "run_steps env [] = (Returned None, [])"
| "run_steps env ((step, status) # rest) = orExit env status step (run_steps env rest)"

lemma Run_steps: "Run env s = run_steps env (startup_steps env s)"
  by (simp add: Run_def startup_steps_def Let_def)


lemma setFlags_append:
  "setFlags flags (xs @ ys) s = (case setFlags flags xs s of None \<Rightarrow> None | Some s' \<Rightarrow> setFlags flags ys s')"
  by (induction flags xs s rule: setFlags.induct) (auto split: option.splits)

lemma startup_ignores_each:
  "startup_steps env (s\<lparr>metricsAddr := a\<rparr>) = startup_steps env s"
  "startup_steps env (s\<lparr>ResyncPeriod := r\<rparr>) = startup_steps env s"
  "startup_steps env (s\<lparr>LicenseFile := l\<rparr>) = startup_steps env s"
  by (simp_all add: startup_steps_def)

lemma unused_flags:
  "setFlags (AddFlags o') [(''metrics-bind-address'', FString a), (''resync-period'', FDuration r), (''license-file'', FString l)] s =
     Some (s\<lparr>metricsAddr := a\<rparr>\<lparr>ResyncPeriod := r\<rparr>\<lparr>LicenseFile := l\<rparr>)"
  by (simp add: AddFlags_def AddGoFlags_def StringVar_def Float64Var_def IntVar_def DurationVar_def BoolVar_def)

lemma run_steps_cases:
  "if \<forall>x \<in> set (map fst steps). se_call env x = None then run_steps env steps = (Returned None, map fst steps)
   else \<exists>before step rest status. steps = before @ (step, status) # rest \<and>
     (\<forall>x \<in> set (map fst before). se_call env x = None) \<and> se_call env step \<noteq> None \<and>
     run_steps env steps = (Exited status, map fst before @ [step])"
proof (induction steps)
  case (Cons p steps)
  obtain step status where p: "p = (step, status)" by fastforce
  show ?case
  proof (cases "se_call env step")
    case (Some e)
    then have "run_steps env (p # steps) = (Exited status, map fst [] @ [step])" by (simp add: p orExit_def)
    then show ?thesis using p Some by fastforce
  next
    case None
    have run: "run_steps env (p # steps) = (fst (run_steps env steps), step # snd (run_steps env steps))"
      using None by (simp add: p orExit_def)
    show ?thesis
    proof (cases "\<forall>x \<in> set (map fst steps). se_call env x = None")
      case True
      then show ?thesis using Cons.IH None run p by simp
    next
      case False
      then obtain before step' rest status' where "steps = before @ (step', status') # rest"
          "\<forall>x \<in> set (map fst before). se_call env x = None" "se_call env step' \<noteq> None"
          "run_steps env steps = (Exited status', map fst before @ [step'])"
        using Cons.IH by (simp only: if_False) blast
      then have "p # steps = (p # before) @ (step', status') # rest"
          "\<forall>x \<in> set (map fst (p # before)). se_call env x = None" "se_call env step' \<noteq> None"
          "run_steps env (p # steps) = (Exited status', map fst (p # before) @ [step'])"
        using None p run by simp_all
      moreover have "\<not> (\<forall>x \<in> set (map fst (p # steps)). se_call env x = None)" using False by simp
      ultimately show ?thesis by (simp only: if_False) blast
    qed
  qed
qed simp

text \<open>Only the first step exits with 255.\<close>

lemma startup_status:
  "startup_steps env s = before @ (step, status) # rest \<Longrightarrow> status = (if before = [] then 255 else 1)"
  by (auto simp: startup_steps_def Cons_eq_append_conv)

lemma startup_cases:
  "if \<forall>x \<in> set (map fst (startup_steps env s)). se_call env x = None
   then run_steps env (startup_steps env s) = (Returned None, map fst (startup_steps env s))
   else \<exists>before step rest status. startup_steps env s = before @ (step, status) # rest \<and>
     (\<forall>x \<in> set (map fst before). se_call env x = None) \<and> se_call env step \<noteq> None \<and>
     status = (if before = [] then 255 else 1) \<and> run_steps env (startup_steps env s) = (Exited status, map fst before @ [step])"
  using run_steps_cases [of "startup_steps env s" env] startup_status [of env s] by metis

end
