(* ===== verification/System.thy ===== *)
theory System
  imports Invariants
begin

text \<open>
  The operator as a whole: an API server with its store of machines, the docker machines that
  exist, users that change the store, and one run of the reconciler after the other, each of
  which may be cut short by a crash at any call. A run meets this system when every call of
  its trace is one the system can serve (\<^verbatim>\<open>serves\<close>), with moves of the users
  (\<^verbatim>\<open>outside\<close>) in between. The invariant of the reachable states is that every docker
  machine still has an object with the operator's finalizer, so that it will be cleaned up.
\<close>

section \<open>The system\<close>

record sys =
  store :: "NamespacedName \<Rightarrow> Machine option"
  dockers :: "string set"

definition fin_at :: "sys \<Rightarrow> NamespacedName \<Rightarrow> bool" where
  "fin_at w nn \<longleftrightarrow> (\<exists>m. store w nn = Some m \<and> ContainsFinalizer m GetFinalizer)"

definition no_orphans :: "sys \<Rightarrow> bool" where
  "no_orphans w \<longleftrightarrow> (\<forall>n \<in> dockers w. \<exists>nn. nnName nn = n \<and> fin_at w nn)"

text \<open>
  A write of the server: an object that is marked for deletion is gone as soon as it has no
  finalizer. A merge patch carries the finalizers only if they differ from the ones read.
\<close>

definition put :: "sys \<Rightarrow> NamespacedName \<Rightarrow> Machine \<Rightarrow> sys" where
  "put w nn m = w\<lparr>store := (store w)(nn := if isDeleting m \<and> Finalizers (Meta m) = [] then None else Some m)\<rparr>"

definition merged :: "Machine \<Rightarrow> Machine \<Rightarrow> Machine \<Rightarrow> string list" where
  "merged cur old new =
     (if Finalizers (Meta new) = Finalizers (Meta old) then Finalizers (Meta cur) else Finalizers (Meta new))"

text \<open>The kinds of commands that the operator runs.\<close>

definition is_create :: "string list \<Rightarrow> bool" where
  "is_create args \<longleftrightarrow> args \<noteq> [] \<and> hd args = ''create''"

fun is_rm :: "string list \<Rightarrow> bool" where
  "is_rm [a, n, b] = (a = ''rm'' \<and> b = ''-y'')"
| "is_rm _ = False"

fun plain_call :: "call \<Rightarrow> bool" where
  "plain_call (GetMachine _) = False"
| "plain_call (CreateMachine _) = False"
| "plain_call (PatchMachine _ _) = False"
| "plain_call (PatchStatus _ _) = False"
| "plain_call (RunCmd _ args) = (\<not> is_create args \<and> \<not> is_rm args)"
| "plain_call _ = True"

text \<open>The reply to a write that has stored an object: the object, or an error on the way back.\<close>

definition acknowledges :: "gerr + reply \<Rightarrow> Machine \<Rightarrow> bool" where
  "acknowledges r m \<longleftrightarrow> r = Inr (RMachine m) \<or> (\<exists>e. r = Inl e)"

text \<open>
  What the system can answer to a call, and what it is afterwards. Reads are of the current
  store. A write that is answered with an error may have taken effect or not. A create command
  may leave a machine behind whatever it returns; a removal that returns without an error has
  removed the machine, and the error of a command is not an error of the API server.
\<close>

inductive serves :: "sys \<Rightarrow> event \<Rightarrow> sys \<Rightarrow> bool" where
  read: "store w nn = Some m \<Longrightarrow> key_of m = nn \<Longrightarrow> serves w (Ev (GetMachine nn) (Inr (RMachine m))) w"
| read_failed: "serves w (Ev (GetMachine nn) (Inl e)) w"
| patched: "store w (key_of new) = Some m \<Longrightarrow> key_of m' = key_of new \<Longrightarrow>
    Finalizers (Meta m') = merged m old new \<Longrightarrow> acknowledges r m' \<Longrightarrow>
    serves w (Ev (PatchMachine old new) r) (put w (key_of new) m')"
| patch_failed: "serves w (Ev (PatchMachine old new) (Inl e)) w"
| status_patched: "store w (key_of new) = Some m \<Longrightarrow> key_of m' = key_of new \<Longrightarrow>
    Finalizers (Meta m') = Finalizers (Meta m) \<Longrightarrow> acknowledges r m' \<Longrightarrow>
    serves w (Ev (PatchStatus old new) r) (put w (key_of new) m')"
| status_failed: "serves w (Ev (PatchStatus old new) (Inl e)) w"
| created: "store w (key_of new) = None \<Longrightarrow> key_of m' = key_of new \<Longrightarrow>
    Finalizers (Meta m') = Finalizers (Meta new) \<Longrightarrow> acknowledges r m' \<Longrightarrow>
    serves w (Ev (CreateMachine new) r) (put w (key_of new) m')"
| create_failed: "serves w (Ev (CreateMachine new) (Inl e)) w"
| command_create: "is_create args \<Longrightarrow> dockers w \<subseteq> D \<Longrightarrow> D \<subseteq> insert (last args) (dockers w) \<Longrightarrow>
    serves w (Ev (RunCmd t args) r) (w\<lparr>dockers := D\<rparr>)"
| command_rm: "serves w (Ev (RunCmd t [''rm'', n, ''-y'']) (Inr r)) (w\<lparr>dockers := dockers w - {n}\<rparr>)"
| rm_failed: "\<not> IsNotFound e \<Longrightarrow> D \<subseteq> dockers w \<Longrightarrow>
    serves w (Ev (RunCmd t [''rm'', n, ''-y'']) (Inl e)) (w\<lparr>dockers := D\<rparr>)"
| plain: "plain_call c \<Longrightarrow> serves w (Ev c r) w"

inductive_cases serves_readE: "serves w (Ev (GetMachine nn) r) w'"
inductive_cases serves_patchE: "serves w (Ev (PatchMachine old new) r) w'"
inductive_cases serves_statusE: "serves w (Ev (PatchStatus old new) r) w'"
inductive_cases serves_createE: "serves w (Ev (CreateMachine new) r) w'"
inductive_cases serves_commandE: "serves w (Ev (RunCmd t args) r) w'"

text \<open>
  Everyone else: users may create, change and mark for deletion as they like, and objects may
  go away, but nobody else takes the operator's finalizer from an object, and the server keeps
  an object that has it.
\<close>

definition outside :: "sys \<Rightarrow> sys \<Rightarrow> bool" where
  "outside w w' \<longleftrightarrow> dockers w' = dockers w \<and> (\<forall>nn. fin_at w nn \<longrightarrow> fin_at w' nn)"

inductive replays :: "sys \<Rightarrow> history \<Rightarrow> sys \<Rightarrow> bool" for w0 where
  start: "outside w0 w \<Longrightarrow> replays w0 [] w"
| step: "replays w0 h w \<Longrightarrow> serves w e w1 \<Longrightarrow> outside w1 w2 \<Longrightarrow> replays w0 (e # h) w2"

inductive_cases replays_NilE: "replays w0 [] w"
inductive_cases replays_ConsE: "replays w0 (e # h) w"

text \<open>
  The reachable states: nothing exists at first; then runs for any request, with any object
  held from before and whatever the clock says, of which any number of calls is carried out.
\<close>

inductive reachable :: "sys \<Rightarrow> bool" where
  empty: "reachable \<lparr>store = (\<lambda>_. None), dockers = {}\<rparr>"
| users: "reachable w \<Longrightarrow> outside w w' \<Longrightarrow> reachable w'"
| run: "reachable w \<Longrightarrow> trace s = [] \<Longrightarrow> suffix h (trace (snd (Reconcile env req s))) \<Longrightarrow>
    replays w h w' \<Longrightarrow> reachable w'"

section \<open>Calm events\<close>

text \<open>Events that take no finalizer away and create no docker machine, by their form.\<close>

fun calm :: "event \<Rightarrow> bool" where
  "calm (Ev (PatchMachine old new) r) =
     (Finalizers (Meta new) = Finalizers (Meta old) \<or> ContainsFinalizer new GetFinalizer)"
| "calm (Ev (RunCmd t args) r) = (\<not> is_create args)"
| "calm _ = True"

lemma fin_at_put [simp]:
  "fin_at (put w nn m) nn' \<longleftrightarrow> (if nn' = nn then ContainsFinalizer m GetFinalizer else fin_at w nn')"
  by (auto simp: fin_at_def put_def ContainsFinalizer_def)

lemma fin_at_dockers [simp]: "fin_at (w\<lparr>dockers := D\<rparr>) nn = fin_at w nn"
  by (simp add: fin_at_def)

lemma dockers_put [simp]: "dockers (put w nn m) = dockers w"
  by (simp add: put_def)

lemma serves_calm:
  assumes "serves w e w'" and "calm e"
  shows "dockers w' \<subseteq> dockers w" and "fin_at w nn \<Longrightarrow> fin_at w' nn"
proof -
  have "dockers w' \<subseteq> dockers w \<and> (\<forall>nn. fin_at w nn \<longrightarrow> fin_at w' nn)"
    using assms by cases (auto simp: fin_at_def ContainsFinalizer_def merged_def put_def split: if_splits)
  then show "dockers w' \<subseteq> dockers w" "fin_at w nn \<Longrightarrow> fin_at w' nn" by auto
qed

lemma outside_refl: "outside w w"
  by (simp add: outside_def)

lemma no_orphans_outside: "no_orphans w \<Longrightarrow> outside w w' \<Longrightarrow> no_orphans w'"
  unfolding no_orphans_def outside_def by fastforce

lemma no_orphans_calm: "no_orphans w \<Longrightarrow> serves w e w' \<Longrightarrow> calm e \<Longrightarrow> no_orphans w'"
  unfolding no_orphans_def using serves_calm by (meson subset_iff)

lemma no_orphans_put:
  "no_orphans w \<Longrightarrow> (fin_at w nn \<Longrightarrow> ContainsFinalizer m GetFinalizer) \<Longrightarrow> no_orphans (put w nn m)"
  unfolding no_orphans_def by auto metis

lemma calm_annotation: "meta_event (annotationTransform k v) e \<Longrightarrow> calm e"
  by (cases "(annotationTransform k v, e)" rule: meta_event.cases) (auto simp: annotationTransform_def)

lemma calm_adding: "meta_event (finalizerTransform VerbCreated GetFinalizer) e \<Longrightarrow> calm e"
  by (cases "(finalizerTransform VerbCreated GetFinalizer, e)" rule: meta_event.cases)
    (auto simp: finalizerTransform_def ContainsFinalizer_def finalizers.has_add)

section \<open>The state of a run against the system\<close>

text \<open>
  What is known of a run for \<^term>\<open>req\<close> that started in \<^term>\<open>w0\<close>: no state on the way has had
  an orphan, and wherever the system is now, on request the object at hand is the requested one
  (\<^term>\<open>k\<close>), its finalizer is stored (\<^term>\<open>b\<close>), and its docker machine is gone (\<^term>\<open>g\<close>).
\<close>

definition tracked :: "sys \<Rightarrow> NamespacedName \<Rightarrow> bool \<Rightarrow> bool \<Rightarrow> bool \<Rightarrow> st \<Rightarrow> bool" where
  "tracked w0 req k b g s \<longleftrightarrow>
     safe (\<lambda>e h. \<forall>w. replays w0 (e # h) w \<longrightarrow> no_orphans w) (trace s) \<and>
     (\<forall>w. replays w0 (trace s) w \<longrightarrow> no_orphans w \<and>
        (k \<longrightarrow> (\<forall>m. machineObj s = Some m \<longrightarrow> key_of m = req)) \<and>
        (b \<longrightarrow> fin_at w req) \<and> (g \<longrightarrow> nnName req \<notin> dockers w))"

lemma tracked_weak:
  "tracked w0 req k b g s \<Longrightarrow> (k' \<Longrightarrow> k) \<Longrightarrow> (b' \<Longrightarrow> b) \<Longrightarrow> (g' \<Longrightarrow> g) \<Longrightarrow> tracked w0 req k' b' g' s"
  by (auto simp: tracked_def)

text \<open>One more event.\<close>

lemma tracked_event:
  assumes s: "tracked w0 req k b g s" and t: "trace t = e # trace s"
    and step: "\<And>w w'. serves w e w' \<Longrightarrow> no_orphans w \<Longrightarrow> (b \<Longrightarrow> fin_at w req) \<Longrightarrow>
      (g \<Longrightarrow> nnName req \<notin> dockers w) \<Longrightarrow> (k \<Longrightarrow> \<forall>m. machineObj s = Some m \<longrightarrow> key_of m = req) \<Longrightarrow>
      no_orphans w' \<and> (k' \<longrightarrow> (\<forall>m. machineObj t = Some m \<longrightarrow> key_of m = req)) \<and>
      (b' \<longrightarrow> fin_at w' req) \<and> (g' \<longrightarrow> nnName req \<notin> dockers w')"
  shows "tracked w0 req k' b' g' t"
proof -
  have now: "no_orphans w \<and> (k' \<longrightarrow> (\<forall>m. machineObj t = Some m \<longrightarrow> key_of m = req)) \<and>
      (b' \<longrightarrow> fin_at w req) \<and> (g' \<longrightarrow> nnName req \<notin> dockers w)" if "replays w0 (e # trace s) w" for w
  proof -
    obtain w1 w2 where w1: "replays w0 (trace s) w1" "serves w1 e w2" "outside w2 w"
      using \<open>replays w0 (e # trace s) w\<close> by (rule replays_ConsE)
    then have "no_orphans w2 \<and> (k' \<longrightarrow> (\<forall>m. machineObj t = Some m \<longrightarrow> key_of m = req)) \<and>
      (b' \<longrightarrow> fin_at w2 req) \<and> (g' \<longrightarrow> nnName req \<notin> dockers w2)"
      using s by (intro step [of w1 w2]) (auto simp: tracked_def)
    with w1(3) show ?thesis by (auto simp: outside_def intro: no_orphans_outside)
  qed
  then show ?thesis using s t by (auto simp: tracked_def)
qed

lemma tracked_calm:
  assumes "tracked w0 req k b g s" and "calm e" and "trace t = e # trace s"
    and "\<And>w w'. k \<Longrightarrow> serves w e w' \<Longrightarrow> \<forall>m. machineObj s = Some m \<longrightarrow> key_of m = req \<Longrightarrow>
      \<forall>m. machineObj t = Some m \<longrightarrow> key_of m = req"
  shows "tracked w0 req k b g t"
  using assms(1,3)
proof (rule tracked_event)
  fix w w' assume "serves w e w'" "no_orphans w" "b \<Longrightarrow> fin_at w req" "g \<Longrightarrow> nnName req \<notin> dockers w"
    "k \<Longrightarrow> \<forall>m. machineObj s = Some m \<longrightarrow> key_of m = req"
  then show "no_orphans w' \<and> (k \<longrightarrow> (\<forall>m. machineObj t = Some m \<longrightarrow> key_of m = req)) \<and>
      (b \<longrightarrow> fin_at w' req) \<and> (g \<longrightarrow> nnName req \<notin> dockers w')"
    using assms(2,4) serves_calm no_orphans_calm by (meson subset_iff)
qed

text \<open>The object at hand changes, but not its key.\<close>

lemma tracked_obj:
  assumes "tracked w0 req k b g s" and "trace t = trace s"
    and "\<And>m. machineObj t = Some m \<Longrightarrow> \<exists>m'. machineObj s = Some m' \<and> key_of m = key_of m'"
  shows "tracked w0 req k b g t"
  using assms unfolding tracked_def by (metis option.inject)

lemma tracked_key:
  "tracked w0 req True b g s \<Longrightarrow> machineObj s = Some m \<Longrightarrow> replays w0 (trace s) w \<Longrightarrow> req = key_of m"
  by (auto simp: tracked_def)

lemma tracked_same: "tracked w0 req k b g s \<Longrightarrow> machineObj s = mo \<Longrightarrow> tracked w0 req k b g (s\<lparr>machineObj := mo\<rparr>)"
  by (auto intro: tracked_obj)

section \<open>Operations that keep what is known\<close>

lemma keeps_tracked_setCondition: "keeps (tracked w0 req k b g) (setCondition env c)"
proof (rule keepsI)
  fix s assume s: "tracked w0 req k b g s"
  show "tracked w0 req k b g (snd (setCondition env c s))"
  proof (cases "machineObj s")
    case (Some m)
    show ?thesis using s by (rule tracked_obj) (simp_all add: run_simps Some key_of_def)
  qed (use s in \<open>simp add: setCondition_def theObj_def andThen_def\<close>)
qed

lemma keeps_tracked_Mark:
  "keeps (tracked w0 req k b g) (MarkTrue env t)"
  "keeps (tracked w0 req k b g) (MarkFalse env t reason severity msg)"
  "keeps (tracked w0 req k b g) (SetSummary env opts)"
  unfolding MarkTrue_def MarkFalse_def SetSummary_def by (intro keeps_tracked_setCondition keeps_intros)+

text \<open>
  A call whose answer becomes the object at hand. Its key may come from an object that was only
  read (\<^term>\<open>mo\<close>) and not from the one at hand.
\<close>

lemma tracked_put_reply:
  assumes s: "tracked w0 req k b g s" and calm: "\<And>r. calm (Ev c r)"
    and mo: "tracked w0 req k b g (s\<lparr>machineObj := mo\<rparr>)"
    and key: "\<And>w m w'. k \<Longrightarrow> serves w (Ev c (Inr (RMachine m))) w' \<Longrightarrow>
      \<forall>m. mo = Some m \<longrightarrow> key_of m = req \<Longrightarrow> key_of m = req"
  shows "tracked w0 req k b g (snd (andThen (call_machine env c) putObj s))"
proof (cases "env_machine env (trace s) c")
  case (Inl e)
  have "tracked w0 req k b g (s\<lparr>trace := Ev c (Inl e) # trace s\<rparr>)"
    using s calm by (rule tracked_calm) simp_all
  then show ?thesis using Inl by (simp add: run_simps call_machine_def)
next
  case (Inr m)
  have "tracked w0 req k b g (s\<lparr>machineObj := Some m, trace := Ev c (Inr (RMachine m)) # trace s\<rparr>)"
    using mo calm by (rule tracked_calm) (use key in auto)
  then show ?thesis using Inr by (simp add: run_simps call_machine_def)
qed

lemma keeps_tracked_committer: "keeps (tracked w0 req k b g) (committer env old)"
proof (rule keepsI)
  fix s assume s: "tracked w0 req k b g s"
  show "tracked w0 req k b g (snd (committer env old s))"
  proof (cases "machineObj s")
    case (Some m)
    have "tracked w0 req k b g (snd (andThen (call_machine env (PatchStatus old m)) putObj s))"
      by (rule tracked_put_reply [where mo = "Some m"])
        (use s Some in \<open>auto simp: acknowledges_def intro: tracked_same elim!: serves_statusE\<close>)
    then show ?thesis using s by (simp add: committer_def run_simps Some)
  qed (use s in \<open>simp add: committer_def theObj_def andThen_def\<close>)
qed

lemma keeps_tracked_modify:
  assumes "\<And>m. key_of (h m) = key_of m" and "\<And>m. keeps (tracked w0 req k b g) (f m)"
  shows "keeps (tracked w0 req k b g) (andThen theObj (\<lambda>m. andThen (putObj (h m)) (\<lambda>_. f m)))"
proof (rule keepsI)
  fix s assume s: "tracked w0 req k b g s"
  show "tracked w0 req k b g (snd (andThen theObj (\<lambda>m. andThen (putObj (h m)) (\<lambda>_. f m)) s))"
  proof (cases "machineObj s")
    case (Some m)
    have "tracked w0 req k b g (s\<lparr>machineObj := Some (h m)\<rparr>)"
      using s by (rule tracked_obj) (simp_all add: Some assms(1))
    then show ?thesis using keepsD [OF assms(2)] by (simp add: run_simps Some)
  qed (use s in \<open>simp add: theObj_def andThen_def\<close>)
qed

lemma keeps_tracked_status: "keeps (tracked w0 req k b g) (updateMachineStatus env nn)"
proof -
  have read: "keeps (tracked w0 req k b g) (call_machine env (GetMachine nn))"
    by (rule keepsI) (auto simp: call_defs perform_def elim!: tracked_calm split: sum.splits)
  show ?thesis unfolding updateMachineStatus_def
    by (intro read keeps_tracked_Mark keeps_tracked_modify keeps_tracked_committer keeps_andThen) (simp add: key_of_def)
qed

text \<open>A metadata patch that keeps the key and takes no finalizer away.\<close>

lemma keeps_tracked_CreateOrPatchE:
  assumes key: "\<And>m b. key_of (f m b) = key_of m" and calm: "\<And>e. meta_event f e \<Longrightarrow> calm e"
  shows "keeps (tracked w0 req k b g) (CreateOrPatchE env f)"
proof (rule keepsI)
  fix s assume s: "tracked w0 req k b g s"
  show "tracked w0 req k b g (snd (CreateOrPatchE env f s))"
  proof (cases "machineObj s")
    case (Some m)
    let ?t = "\<lambda>r. s\<lparr>trace := Ev (GetMachine (key_of m)) r # trace s\<rparr>"
    have t: "tracked w0 req k b g (?t r)" for r
      using s by (rule tracked_calm) auto
    have read: "tracked w0 req k b g
        (s\<lparr>machineObj := Some cur, trace := Ev (GetMachine (key_of m)) (Inr (RMachine cur)) # trace s\<rparr>)" for cur
      using s by (rule tracked_calm) (auto simp: Some elim!: serves_readE)
    have created: "tracked w0 req k b g (snd (andThen (call_machine env (CreateMachine
        (SetMeta (f m True) ((Meta (f m True))\<lparr>ResourceVersion := ''''\<rparr>)))) putObj (?t r)))" for r
      by (rule tracked_put_reply [where mo = "Some m"])
        (use t [of r] Some key [of m True] in \<open>auto simp: key_of_def acknowledges_def intro: tracked_same elim!: serves_createE\<close>)
    have patched: "tracked w0 req k b g (snd (andThen (call_machine env (PatchMachine cur (f cur False))) putObj
        (?t (Inr (RMachine cur)))))" for cur
    proof (rule tracked_put_reply [where mo = "Some cur"])
      show "calm (Ev (PatchMachine cur (f cur False)) r)" for r by (rule calm) simp
    qed (use t read [of cur] key [of cur False] in \<open>auto simp: acknowledges_def run_simps elim!: serves_patchE\<close>)
    show ?thesis using created patched t
      by (auto simp: CreateOrPatchE_run [OF Some] Let_def split: sum.splits)
  qed (use s in \<open>simp add: CreateOrPatchE_def theObj_def andThen_def\<close>)
qed

lemma transform_key [simp]:
  "key_of (finalizerTransform v f m c) = key_of m" "key_of (annotationTransform x y m c) = key_of m"
  by (auto simp: finalizerTransform_def annotationTransform_def key_of_def AddFinalizer_def RemoveFinalizer_def
      split: VerbType.splits)

lemma keeps_tracked_patches:
  "keeps (tracked w0 req k b g) (patchFinalizer env VerbCreated GetFinalizer)"
  "keeps (tracked w0 req k b g) (patchAnnotation env x y)"
  unfolding patchFinalizer_def patchAnnotation_def
  by (rule keeps_tracked_CreateOrPatchE; simp add: calm_adding calm_annotation)+

interpretation tracked: run_invariant "tracked w0 req k b g" env for w0 req k b g env
proof
  show "tracked w0 req k b g (s\<lparr>trace := Ev c r # trace s\<rparr>)" if "harmless c" "tracked w0 req k b g s" for c s r
  proof (rule tracked_calm [OF that(2)])
    show "calm (Ev c r)" using that(1) by (cases c) (auto simp: is_create_def)
  qed simp_all
  show "tracked w0 req k b g (s\<lparr>ticks := n\<rparr>)" if "tracked w0 req k b g s" for s n
    using that by (rule tracked_obj) simp_all
qed (rule keeps_tracked_Mark keeps_tracked_status keeps_tracked_patches)+

text \<open>A history that the system cannot have served stays one.\<close>

lemma replays_suffix: "suffix h h' \<Longrightarrow> replays w0 h' w \<Longrightarrow> \<exists>w'. replays w0 h w'"
proof (induction h' arbitrary: w)
  case (Cons e h')
  from Cons.prems(2) obtain w1 where "replays w0 h' w1" by (auto elim: replays_ConsE)
  with Cons show ?case by (cases "h = e # h'") (auto simp: suffix_Cons)
qed auto

lemma keeps_known: "extends m \<Longrightarrow> keeps (\<lambda>s. (\<exists>w. replays w0 (trace s) w) \<longrightarrow> P) m"
  by (rule emits_keeps_history) (auto dest: replays_suffix)

section \<open>The create command\<close>

text \<open>The last argument of the create command is the name of the requested machine.\<close>

abbreviation names_req :: "sys \<Rightarrow> NamespacedName \<Rightarrow> string list \<Rightarrow> st \<Rightarrow> bool" where
  "names_req w0 req args s \<equiv> (\<exists>w. replays w0 (trace s) w) \<longrightarrow> last args = nnName req"

lemma creation_args_named:
  "hoare (tracked w0 req True b g) (getMachineCreationArgs env)
     (post (\<lambda>args s. tracked w0 req True b g s \<and> names_req w0 req args s) (tracked w0 req True b g))"
proof -
  let ?T = "tracked w0 req True b g"
  let ?Q = "\<lambda>args s. ?T s \<and> names_req w0 req args s"
  have obj: "hoare ?T theObj (post (\<lambda>m s. ?T s \<and> ((\<exists>w. replays w0 (trace s) w) \<longrightarrow> Name (Meta m) = nnName req)) ?T)"
    by (rule hoare_post [OF hoare_theObj]) (auto dest: tracked_key simp: key_of_def)
  have upd: "hoare (\<lambda>s. ?T s \<and> ((\<exists>w. replays w0 (trace s) w) \<longrightarrow> Name (Meta m) = nnName req))
      (andThen (updateMachineStatus env nn) (\<lambda>_. ret (xs @ [Name (Meta m)]))) (post ?Q ?T)" for nn xs m
  proof (rule hoare_andThen)
    show "hoare (\<lambda>s. ?T s \<and> ((\<exists>w. replays w0 (trace s) w) \<longrightarrow> Name (Meta m) = nnName req))
       (updateMachineStatus env nn) (post (\<lambda>_. ?Q (xs @ [Name (Meta m)])) ?T)"
    proof (rule hoare_post [OF keeps_conj [OF keeps_tracked_status keeps_known]])
      show "extends (updateMachineStatus env nn)" by (intro emits_intros) simp
    qed auto
  qed (rule hoare_basic)
  have rest: "hoare ?T (andThen theObj (\<lambda>m'. andThen (updateMachineStatus env (key_of m'))
      (\<lambda>_. ret (xs @ [Name (Meta m')])))) (post ?Q ?T)" for xs
    by (rule hoare_andThen [OF obj upd])
  show ?thesis
    unfolding getMachineCreationArgs_def Let_def append_assoc [symmetric]
    by (intro hoare_andThen [where P = ?T and R = "\<lambda>_. ?T"] rest invariant_intros keeps_intros)
qed

lemma tracked_create:
  assumes s: "tracked w0 req True True g s" and name: "names_req w0 req args s" and "is_create args"
    and t: "trace t = Ev (RunCmd timeout args) r # trace s" "machineObj t = machineObj s"
  shows "tracked w0 req True True False t"
proof (cases "\<exists>w. replays w0 (trace s) w")
  case True
  then have "last args = nnName req" using name by simp
  show ?thesis using s t(1)
  proof (rule tracked_event)
    fix w w' assume "serves w (Ev (RunCmd timeout args) r) w'" "no_orphans w" "True \<Longrightarrow> fin_at w req"
      "True \<Longrightarrow> \<forall>m. machineObj s = Some m \<longrightarrow> key_of m = req"
    moreover from this(1) have "dockers w' \<subseteq> insert (nnName req) (dockers w)" "store w' = store w"
      using \<open>is_create args\<close> \<open>last args = nnName req\<close> by (auto simp: is_create_def elim!: serves_commandE)
    ultimately show "no_orphans w' \<and> (True \<longrightarrow> (\<forall>m. machineObj t = Some m \<longrightarrow> key_of m = req)) \<and>
        (True \<longrightarrow> fin_at w' req) \<and> (False \<longrightarrow> nnName req \<notin> dockers w')"
      using t(2) unfolding no_orphans_def fin_at_def by auto
  qed
next
  case False
  then have "\<not> replays w0 (trace t) w" for w using t(1) by (auto elim: replays_ConsE)
  then show ?thesis using s t(1) by (simp add: tracked_def)
qed

lemma runCreate_tracked:
  assumes "is_create args"
  shows "hoare (\<lambda>s. tracked w0 req True True g s \<and> names_req w0 req args s) (runCreate env args)
     (post (\<lambda>_. tracked w0 req True True False) (tracked w0 req True True False))"
proof -
  let ?P = "\<lambda>s. tracked w0 req True True g s \<and> names_req w0 req args s"
  let ?T = "tracked w0 req True True False"
  have cmd: "hoare ?P (runDockerMachine env timeout args) (post (\<lambda>_. ?T) ?T)" for timeout
    by (rule hoareI) (auto simp: runDockerMachine_def Let_def split: prod.splits
        intro!: tracked_create [OF _ _ assms])
  have mark: "hoare ?P (MarkTrue env c) (post (\<lambda>_. ?P) ?T)" for c
    by (rule hoare_post [OF keeps_conj [OF keeps_tracked_Mark(1) keeps_known]])
      (auto intro: emits_intros elim: tracked_weak)
  show ?thesis unfolding runCreate_def
    by (rule hoare_andThen, rule mark, rule hoare_andThen, rule cmd) (intro invariant_intros keeps_intros, simp_all)
qed

lemma creation_args_create: "returns is_create (getMachineCreationArgs env)"
  unfolding returns_def getMachineCreationArgs_def Let_def
  by (auto simp: run_simps is_create_def elim!: andThen_cases)

lemma hoare_returns:
  assumes "returns R m" and "hoare P m (post Q E)"
  shows "hoare P m (post (\<lambda>a s. Q a s \<and> R a) E)"
  using assms unfolding hoare_def returns_def post_def
  by (auto split: res.splits) (metis prod.collapse)

lemma createMachine_tracked:
  "hoare (tracked w0 req True True False) (createMachine env)
     (post (\<lambda>_. tracked w0 req True True False) (tracked w0 req True True False))"
proof -
  let ?T = "tracked w0 req True True False"
  have run: "hoare ?T (andThen (getMachineCreationArgs env) (\<lambda>args. runCreate env args)) (post (\<lambda>_. ?T) ?T)"
  proof (rule hoare_andThen [OF hoare_returns [OF creation_args_create creation_args_named]])
    fix args
    show "hoare (\<lambda>s. (?T s \<and> names_req w0 req args s) \<and> is_create args) (runCreate env args) (post (\<lambda>_. ?T) ?T)"
      using runCreate_tracked [of args w0 req False env] by (auto simp: hoare_def)
  qed
  show ?thesis unfolding createMachine_def by (intro run invariant_intros keeps_intros)
qed

section \<open>The finalizer is stored before and removed after\<close>

text \<open>The two ways a metadata patch returns without an error.\<close>

lemma CreateOrPatchE_Ok:
  assumes "machineObj s = Some m" and "CreateOrPatchE env f s = (Ok (), t)"
  obtains (patched) cur m1 where "machineObj t = Some m1"
      "trace t = Ev (PatchMachine cur (f cur False)) (Inr (RMachine m1)) #
         Ev (GetMachine (key_of m)) (Inr (RMachine cur)) # trace s"
    | (created) e m1 where "machineObj t = Some m1"
      "trace t = Ev (CreateMachine (SetMeta (f m True) ((Meta (f m True))\<lparr>ResourceVersion := ''''\<rparr>)))
         (Inr (RMachine m1)) # Ev (GetMachine (key_of m)) (Inl e) # trace s"
  using assms(2)
  by (auto simp: CreateOrPatchE_run [OF assms(1)] Let_def call_defs perform_def andThen_def putObj_def
      split: sum.splits if_splits)

lemma key_of_SetMeta_rv [simp]: "key_of (SetMeta m ((Meta m)\<lparr>ResourceVersion := v\<rparr>)) = key_of m"
  by (simp add: key_of_def)

lemma ensureFinalizer_tracked:
  assumes s: "tracked w0 req True (ContainsFinalizer m GetFinalizer) False s" and m: "machineObj s = Some m"
    and ok: "ensureFinalizer env s = (Ok (), t)"
  shows "tracked w0 req True True False t"
proof (cases "ContainsFinalizer m GetFinalizer")
  case True
  then show ?thesis using s m ok by (simp add: ensureFinalizer_def run_simps)
next
  case False
  let ?f = "finalizerTransform VerbCreated GetFinalizer"
  have has: "ContainsFinalizer (?f mc c) GetFinalizer" for mc c
    by (simp add: finalizerTransform_def ContainsFinalizer_def finalizers.has_add)
  have s': "tracked w0 req True False False s" using s by (rule tracked_weak) simp_all
  have "CreateOrPatchE env ?f s = (Ok (), t)"
    using ok m False by (simp add: ensureFinalizer_def run_simps patchFinalizer_def)
  with m show ?thesis
  proof (cases rule: CreateOrPatchE_Ok)
    case (patched cur m1)
    let ?u = "s\<lparr>machineObj := Some cur, trace := Ev (GetMachine (key_of m)) (Inr (RMachine cur)) # trace s\<rparr>"
    have "tracked w0 req True (ContainsFinalizer cur GetFinalizer) False ?u"
      using s' by (rule tracked_event [where e = "Ev (GetMachine (key_of m)) (Inr (RMachine cur))"])
        (auto simp: m fin_at_def elim!: serves_readE)
    then show ?thesis
    proof (rule tracked_event)
      show "trace t = Ev (PatchMachine cur (?f cur False)) (Inr (RMachine m1)) # trace ?u" using patched by simp
    next
      fix w w' assume served: "serves w (Ev (PatchMachine cur (?f cur False)) (Inr (RMachine m1))) w'"
        and w: "no_orphans w" "ContainsFinalizer cur GetFinalizer \<Longrightarrow> fin_at w req"
          "True \<Longrightarrow> \<forall>m. machineObj ?u = Some m \<longrightarrow> key_of m = req"
      then have "no_orphans w'" using has no_orphans_calm by (metis calm.simps(1))
      with served w patched(1) has [of cur False]
      show "no_orphans w' \<and> (True \<longrightarrow> (\<forall>m. machineObj t = Some m \<longrightarrow> key_of m = req)) \<and>
          (True \<longrightarrow> fin_at w' req) \<and> (False \<longrightarrow> nnName req \<notin> dockers w')"
        by (auto simp: acknowledges_def merged_def fin_at_def put_def ContainsFinalizer_def
            elim!: serves_patchE split: if_splits)
    qed
  next
    case (created e m1)
    have "tracked w0 req True False False (s\<lparr>trace := Ev (GetMachine (key_of m)) (Inl e) # trace s\<rparr>)"
      using s' by (rule tracked_calm) simp_all
    then show ?thesis
      by (rule tracked_event) (use created m has [of m True] in
          \<open>auto simp: acknowledges_def ContainsFinalizer_def intro!: no_orphans_put elim!: serves_createE\<close>)
  qed
qed

text \<open>A removal command without an error leaves no docker machine of the name.\<close>

lemma deleteDockerMachine_tracked:
  "hoare (tracked w0 req True b g) (deleteDockerMachine env)
     (post (\<lambda>_. tracked w0 req True b True) (tracked w0 req True b g))"
proof (rule hoareI)
  fix s assume s: "tracked w0 req True b g s"
  show "post (\<lambda>_. tracked w0 req True b True) (tracked w0 req True b g)
      (fst (deleteDockerMachine env s)) (snd (deleteDockerMachine env s))"
  proof (cases "machineObj s")
    case None
    then show ?thesis using s by (simp add: deleteDockerMachine_def theObj_def andThen_def)
  next
    case (Some m)
    let ?t = "\<lambda>r. s\<lparr>trace := Ev (RunCmd None [''rm'', Name (Meta m), ''-y'']) r # trace s\<rparr>"
    have err: "tracked w0 req True b g (?t r)" for r
      using s by (rule tracked_calm) (simp_all add: is_create_def)
    have ok: "tracked w0 req True b True (?t r)" if "\<And>e. r = Inl e \<Longrightarrow> IsNotFound e" for r
    proof (rule tracked_event [OF s])
      fix w w' assume served: "serves w (Ev (RunCmd None [''rm'', Name (Meta m), ''-y'']) r) w'"
        and w: "no_orphans w" "b \<Longrightarrow> fin_at w req" "True \<Longrightarrow> \<forall>m. machineObj s = Some m \<longrightarrow> key_of m = req"
      then have "nnName req = Name (Meta m)" using Some by (auto simp: key_of_def)
      with served that have "nnName req \<notin> dockers w'" "store w' = store w"
        by (auto simp: is_create_def elim!: serves_commandE)
      moreover have "no_orphans w'" using w(1) served by (rule no_orphans_calm) (simp add: is_create_def)
      ultimately show "no_orphans w' \<and> (True \<longrightarrow> (\<forall>m. machineObj (?t r) = Some m \<longrightarrow> key_of m = req)) \<and>
          (b \<longrightarrow> fin_at w' req) \<and> (True \<longrightarrow> nnName req \<notin> dockers w')"
        using w by (auto simp: fin_at_def)
    qed simp
    show ?thesis using err ok
      by (auto simp: deleteDockerMachine_def run_simps Some runDockerMachine_def Let_def andThen_def IgnoreNotFound_def
          split: option.splits prod.splits if_splits)
  qed
qed

lemma cleanup_tracked:
  "hoare (tracked w0 req True b False) (cleanupMachineResources env)
     (post (\<lambda>_. tracked w0 req True b True) (tracked w0 req True b False))"
proof -
  let ?E = "tracked w0 req True b False"
  have files: "hoare ?E (deleteFiles env) (post (\<lambda>_. ?E) ?E)"
    unfolding deleteFiles_def getScriptFilePath_def removeIgnoring_def
    by (intro invariant_intros keeps_intros; simp)
  have "keeps (tracked w0 req True b True) (andThen theObj (\<lambda>m. andThen (deref (Driver (Spec m))) (\<lambda>driver.
     if driver = AWSDriver then cleanupAWSResources env
     else if driver = AzureDriver then deleteAzureResourceGroup env else ret ())))"
    by (intro invariant_intros keeps_intros)
  then have cloud: "hoare (tracked w0 req True b True) (andThen theObj (\<lambda>m. andThen (deref (Driver (Spec m))) (\<lambda>driver.
     if driver = AWSDriver then cleanupAWSResources env
     else if driver = AzureDriver then deleteAzureResourceGroup env else ret ()))) (post (\<lambda>_. tracked w0 req True b True) ?E)"
    by (rule hoare_post) (auto elim: tracked_weak)
  show ?thesis unfolding cleanupMachineResources_def
    by (rule hoare_andThen [OF files], rule hoare_andThen [OF deleteDockerMachine_tracked cloud])
qed

text \<open>Once the docker machine is gone, the object's finalizer may go.\<close>

lemma no_orphans_removal:
  assumes "serves w (Ev (PatchMachine old new) r) w'" and "no_orphans w" and "nnName (key_of new) \<notin> dockers w"
  shows "no_orphans w'"
  using assms(1)
proof (rule serves_patchE)
  fix m' assume "w' = put w (key_of new) m'"
  then show ?thesis using assms(2,3) unfolding no_orphans_def by auto metis
qed (use assms(2) in auto)

lemma removal_tracked:
  assumes s: "tracked w0 req True b True s"
  shows "tracked w0 req False False False (snd (patchFinalizer env VerbDeleted GetFinalizer s))"
proof (cases "machineObj s")
  case None
  then show ?thesis using s
    by (auto simp: patchFinalizer_def CreateOrPatchE_def theObj_def andThen_def elim: tracked_weak)
next
  case (Some m)
  let ?f = "finalizerTransform VerbDeleted GetFinalizer"
  let ?t = "\<lambda>r. s\<lparr>trace := Ev (GetMachine (key_of m)) r # trace s\<rparr>"
  have t: "tracked w0 req False False False (?t r)" for r
    by (rule tracked_calm [OF tracked_weak [OF s]]) simp_all
  have read: "tracked w0 req True b True
      (s\<lparr>machineObj := Some cur, trace := Ev (GetMachine (key_of m)) (Inr (RMachine cur)) # trace s\<rparr>)" for cur
    using s by (rule tracked_calm) (auto simp: Some elim!: serves_readE)
  have created: "tracked w0 req False False False (snd (andThen (call_machine env (CreateMachine new)) putObj (?t r)))"
    for new r
    by (rule tracked_put_reply [where mo = "Some m"]) (use t [of r] Some in \<open>auto intro: tracked_same\<close>)
  have patch: "tracked w0 req False False False v"
    if "trace v = Ev (PatchMachine cur (?f cur False)) r # Ev (GetMachine (key_of m)) (Inr (RMachine cur)) # trace s"
    for cur r v
    by (rule tracked_event [OF read [of cur]]) (use that in \<open>auto dest!: no_orphans_removal\<close>)
  then have patched: "tracked w0 req False False False
      (snd (andThen (call_machine env (PatchMachine cur (?f cur False))) putObj (?t (Inr (RMachine cur)))))" for cur
    by (auto simp: call_defs perform_def andThen_def putObj_def split: sum.splits)
  show ?thesis using t created patched
    by (auto simp: patchFinalizer_def CreateOrPatchE_run [OF Some] Let_def split: sum.splits)
qed

section \<open>Runs leave no orphans\<close>

abbreviation safe_run :: "sys \<Rightarrow> NamespacedName \<Rightarrow> st \<Rightarrow> bool" where
  "safe_run w0 req \<equiv> tracked w0 req False False False"

lemma reconcileDeletion_tracked:
  assumes s: "tracked w0 req True b False s"
  shows "safe_run w0 req (snd (reconcileDeletion env s))"
proof -
  let ?E = "safe_run w0 req"
  have patch: "hoare (tracked w0 req True b True) (patchFinalizer env VerbDeleted GetFinalizer) (post (\<lambda>_. ?E) ?E)"
    unfolding hoare_def post_def using removal_tracked by (auto split: res.splits)
  have upd: "hoare (tracked w0 req True b False) (updateMachineStatus env nn)
      (post (\<lambda>_. tracked w0 req True b False) ?E)" for nn
    by (rule hoare_post [OF keeps_tracked_status]) (auto elim: tracked_weak)
  have clean: "hoare (tracked w0 req True b False) (cleanupMachineResources env)
      (post (\<lambda>_. tracked w0 req True b True) ?E)"
    by (rule hoare_post [OF cleanup_tracked]) (auto elim: tracked_weak)
  have obj: "hoare (tracked w0 req True b False) theObj (post (\<lambda>_. tracked w0 req True b False) ?E)"
    by (rule hoare_post [OF hoare_theObj]) (auto elim: tracked_weak)
  have skip: "hoare (tracked w0 req True b False) (ret ()) (post (\<lambda>_. ?E) ?E)"
    by (auto simp: hoare_def ret_def elim: tracked_weak)
  have remove: "hoare (tracked w0 req True b False) (removeFinalizerAfterCleanup env) (post (\<lambda>_. ?E) ?E)"
    unfolding removeFinalizerAfterCleanup_def
    by (intro hoare_andThen [OF obj] hoare_case skip hoare_andThen [OF upd] hoare_andThen [OF clean] patch)
  have "hoare (tracked w0 req True b False) (reconcileDeletion env) (post (\<lambda>_. ?E) ?E)"
    unfolding reconcileDeletion_def reconciled_def
    by (rule hoare_andThen [where R = "\<lambda>_. ?E"], rule hoare_attempt, rule hoare_post [OF remove])
      (auto intro!: invariant_intros keeps_intros)
  then show ?thesis using s unfolding hoare_def post_def by (fastforce split: res.splits)
qed

lemma reconcileCreation_tracked:
  assumes s: "tracked w0 req True (ContainsFinalizer m GetFinalizer) False s" and m: "machineObj s = Some m"
  shows "safe_run w0 req (snd (reconcileCreation env req s))"
proof -
  obtain r t where rt: "ensureFinalizer env s = (r, t)" by fastforce
  have t: "safe_run w0 req t"
    using keepsD [OF tracked.ensure s, of env] rt by (auto elim: tracked_weak)
  have err: "keeps (safe_run w0 req) (if IsNotFound e then reconciled else requeueWithError env msg e)" for e msg
    unfolding reconciled_def by (intro invariant_intros keeps_intros)
  show ?thesis
  proof (cases r)
    case (Ok u)
    let ?rest = "andThen (attempt (createMachine env)) (\<lambda>r.
         case r of
           Inl err \<Rightarrow> requeueWithError env ''Failed to create Machine'' err
         | Inr _ \<Rightarrow>
             andThen (attempt (isScriptFinished env)) (\<lambda>r.
             case r of
               Inl err \<Rightarrow> requeueWithError env '''' err
             | Inr rekey \<Rightarrow>
                 andThen (attempt (updateMachineStatus env req)) (\<lambda>r.
                 ret (if rekey then \<lparr>RequeueAfter = minute\<rparr> else emptyResult, errorOf r))))"
    have "tracked w0 req True True False t" using ensureFinalizer_tracked [OF s m] rt Ok by simp
    moreover have "keeps (tracked w0 req True True False) ?rest"
      by (intro createMachine_tracked invariant_intros keeps_intros)
    ultimately have "tracked w0 req True True False (snd (?rest t))" by (rule keepsD [rotated])
    then have "safe_run w0 req (snd (?rest t))" by (rule tracked_weak) simp_all
    then show ?thesis using rt Ok by (simp add: reconcileCreation_def run_simps)
  next
    case (Err e)
    then show ?thesis using rt keepsD [OF err t] by (simp add: reconcileCreation_def run_simps)
  qed (use rt t in \<open>auto simp: reconcileCreation_def andThen_def attempt_def\<close>)
qed

lemma Reconcile_tracked:
  assumes "safe_run w0 req s"
  shows "safe_run w0 req (snd (Reconcile env req s))"
proof (cases "env_machine env (trace s) (GetMachine req)")
  case (Inl e)
  have "safe_run w0 req (s\<lparr>trace := Ev (GetMachine req) (Inl e) # trace s\<rparr>)"
    using assms by (rule tracked_calm) simp_all
  then show ?thesis using keepsD [OF tracked.requeue] by (simp add: Reconcile_run Inl Let_def)
next
  case (Inr m)
  let ?t = "s\<lparr>machineObj := Some m, trace := Ev (GetMachine req) (Inr (RMachine m)) # trace s\<rparr>"
  have t: "tracked w0 req True (ContainsFinalizer m GetFinalizer) False ?t"
    using assms by (rule tracked_event) (auto simp: fin_at_def elim!: serves_readE)
  have "keeps (safe_run w0 req) (andThen (attempt (updateMachineStatus env req)) (\<lambda>r. ret (emptyResult, errorOf r)))"
    by (intro invariant_intros keeps_intros)
  moreover have "safe_run w0 req ?t" using t by (rule tracked_weak) simp_all
  ultimately show ?thesis
    using t reconcileDeletion_tracked [OF t] reconcileCreation_tracked [OF t]
    by (auto simp: Reconcile_run Inr afterGet_run intro: keepsD)
qed

text \<open>The invariant of the reachable states.\<close>

lemma run_no_orphans:
  assumes w: "no_orphans w" and s: "trace s = []" and h: "suffix h (trace (snd (Reconcile env req s)))"
    and served: "replays w h w'"
  shows "no_orphans w'"
proof -
  have start: "no_orphans w1" if "replays w [] w1" for w1
    using that w by (auto elim: replays_NilE intro: no_orphans_outside)
  then have "safe_run w req s" using s by (simp add: tracked_def)
  then have "safe (\<lambda>e h. \<forall>w1. replays w (e # h) w1 \<longrightarrow> no_orphans w1) (trace (snd (Reconcile env req s)))"
    using Reconcile_tracked [of w req s env] unfolding tracked_def by blast
  then have h': "safe (\<lambda>e h. \<forall>w1. replays w (e # h) w1 \<longrightarrow> no_orphans w1) h"
    using h safe_suffix by blast
  show ?thesis
  proof (cases h)
    case Nil
    then show ?thesis using served start by simp
  next
    case (Cons e h1)
    then show ?thesis using served h' by simp
  qed
qed

lemma reachable_no_orphans: "reachable w \<Longrightarrow> no_orphans w"
proof (induction rule: reachable.induct)
  case empty
  then show ?case by (simp add: no_orphans_def)
qed (auto intro: no_orphans_outside run_no_orphans)

end
