(* ===== verification/Liveness.thy ===== *)
theory Liveness
  imports Reconcile_Safety
begin

text \<open>
  That deletion gets done. Triples of total correctness (a computation returns a value, and the
  state after it satisfies the assertion) for the parts of the cleanup, under named assumptions
  on the few calls that have to succeed: all other calls of the cleanup may fail, as the code
  goes on after their errors.
\<close>

section \<open>Total correctness\<close>

definition delivers :: "(st \<Rightarrow> bool) \<Rightarrow> 'a comp \<Rightarrow> ('a \<Rightarrow> st \<Rightarrow> bool) \<Rightarrow> bool" where
  "delivers P m Q \<longleftrightarrow> (\<forall>s. P s \<longrightarrow> (\<exists>a t. m s = (Ok a, t) \<and> Q a t))"

named_theorems delivers_intros \<open>computations that return\<close>

lemma delivers_andThen [delivers_intros]:
  assumes "delivers P m R" and "\<And>a. delivers (R a) (f a) Q"
  shows "delivers P (andThen m f) Q"
  using assms unfolding delivers_def by (metis run_andThen(1))

lemma delivers_weak: "delivers P m Q \<Longrightarrow> (\<And>s. P' s \<Longrightarrow> P s) \<Longrightarrow> (\<And>a s. Q a s \<Longrightarrow> Q' a s) \<Longrightarrow> delivers P' m Q'"
  unfolding delivers_def by blast

lemma delivers_if [delivers_intros]:
  "(b \<Longrightarrow> delivers P m Q) \<Longrightarrow> (\<not> b \<Longrightarrow> delivers P n Q) \<Longrightarrow> delivers P (if b then m else n) Q"
  by simp

text \<open>
  Two versions of a machine that differ at most in the status and the resource version; and the
  object at hand is a version of the given machine.
\<close>

definition version_of :: "Machine \<Rightarrow> Machine \<Rightarrow> bool" where
  "version_of m0 m \<longleftrightarrow> Spec m = Spec m0 \<and> Name (Meta m) = Name (Meta m0) \<and> Namespace (Meta m) = Namespace (Meta m0) \<and>
     DeletionTimestamp (Meta m) = DeletionTimestamp (Meta m0) \<and> Finalizers (Meta m) = Finalizers (Meta m0) \<and>
     Annotations (Meta m) = Annotations (Meta m0)"

lemma version_ofD:
  assumes "version_of m0 m"
  shows "Spec m = Spec m0" "Name (Meta m) = Name (Meta m0)" "Annotations (Meta m) = Annotations (Meta m0)"
    "key_of m = key_of m0" "isDeleting m = isDeleting m0" "ContainsFinalizer m f = ContainsFinalizer m0 f"
  using assms by (simp_all add: version_of_def key_of_def isDeleting_def ContainsFinalizer_def)

definition holds :: "Machine \<Rightarrow> st \<Rightarrow> bool" where
  "holds m0 s \<longleftrightarrow> (\<exists>m. machineObj s = Some m \<and> version_of m0 m)"

lemma delivers_theObj:
  assumes "\<And>m. version_of m0 m \<Longrightarrow> delivers (holds m0) (f m) Q"
  shows "delivers (holds m0) (andThen theObj f) Q"
  unfolding delivers_def
proof (intro allI impI)
  fix s assume s: "holds m0 s"
  then obtain m where m: "machineObj s = Some m" "version_of m0 m" by (auto simp: holds_def)
  then show "\<exists>a t. andThen theObj f s = (Ok a, t) \<and> Q a t"
    using assms [OF m(2)] s by (simp add: run_simps delivers_def)
qed

lemma delivers_ret [delivers_intros]: "delivers P (ret a) (\<lambda>x s. x = a \<and> P s)" and
  delivers_unit [delivers_intros]: "delivers P (ret ()) (\<lambda>_. P)"
  by (auto simp: delivers_def ret_def)

lemma delivers_call:
  assumes "\<And>h. \<exists>a. oracle h c = Inr a \<and> R a"
  shows "delivers (holds m0) (perform oracle wrap c) (\<lambda>a s. holds m0 s \<and> R a)"
  unfolding delivers_def
proof (intro allI impI)
  fix s assume "holds m0 s"
  then show "\<exists>a t. perform oracle wrap c s = (Ok a, t) \<and> holds m0 t \<and> R a"
    using assms [of "trace s"] by (auto simp: run_simps holds_def)
qed

lemma delivers_call_unit [delivers_intros]:
  "(\<And>h. env_unit env h c = Inr ()) \<Longrightarrow> delivers (holds m0) (call_unit env c) (\<lambda>_. holds m0)"
  unfolding call_unit_def by (rule delivers_weak [OF delivers_call [where R = "\<lambda>_. True"]]) auto

text \<open>What neither panics nor diverges and leaves the object alone may fail where its error is dropped.\<close>

lemma delivers_attempt:
  assumes "sound R m" and "same_obj m" and "specified m0"
  shows "delivers (holds m0) (attempt m) (\<lambda>_. holds m0)"
  unfolding delivers_def
proof (intro allI impI)
  fix s assume s: "holds m0 s"
  obtain r t where mt: "m s = (r, t)" by fastforce
  have "good_obj s" using s assms(3) by (auto simp: good_obj_def holds_def specified_def version_ofD)
  then have "r \<noteq> Panic" "r \<noteq> Hang" using soundD [OF assms(1) _ mt] by auto
  moreover have "holds m0 t" using s same_objD [OF assms(2) mt] by (simp add: holds_def)
  ultimately show "\<exists>a u. attempt m s = (Ok a, u) \<and> holds m0 u"
    using mt by (cases r) (auto simp: run_simps)
qed

text \<open>A call whose error is inspected.\<close>

lemma delivers_handled:
  assumes "\<And>h e. env_unit env h c = Inl e \<Longrightarrow> handler e = ret ()"
  shows "delivers (holds m0) (andThen (attempt (call_unit env c))
      (\<lambda>r. case r of Inl err \<Rightarrow> handler err | Inr _ \<Rightarrow> ret ())) (\<lambda>_. holds m0)"
  unfolding delivers_def
proof (intro allI impI)
  fix s assume "holds m0 s"
  then show "\<exists>a t. andThen (attempt (call_unit env c))
      (\<lambda>r. case r of Inl err \<Rightarrow> handler err | Inr _ \<Rightarrow> ret ()) s = (Ok a, t) \<and> holds m0 t"
    using assms by (cases "env_unit env (trace s) c") (auto simp: run_simps call_defs holds_def)
qed

section \<open>The calls that have to succeed\<close>

text \<open>
  For every machine: a file that is there can be removed, and the removal command of the docker
  machine returns without an error.
\<close>

definition removal_works :: "env \<Rightarrow> Machine \<Rightarrow> bool" where
  "removal_works env m \<longleftrightarrow>
     (\<forall>h p e. env_unit env h (RemoveFile p) = Inl e \<longrightarrow> \<not> os_IsExist e) \<and>
     (\<forall>h. IgnoreNotFound (fst (env_cmd env h (RunCmd None [''rm'', Name (Meta m), ''-y'']))) = None)"

text \<open>The auth secret is there and has the given keys.\<close>

definition secret_has :: "env \<Rightarrow> Machine \<Rightarrow> string list \<Rightarrow> bool" where
  "secret_has env m keys \<longleftrightarrow> (\<exists>ref. AuthSecret (Spec m) = Some ref \<and>
     (\<forall>h. \<exists>data. env_secret env h (GetSecret (ObjectKey ref)) = Inr data \<and> (\<forall>k \<in> set keys. mget data k \<noteq> '''')))"

text \<open>For AWS: a session opens, the security groups are listed, and the VPC is deleted or gone.\<close>

definition aws_works :: "env \<Rightarrow> Machine \<Rightarrow> bool" where
  "aws_works env m \<longleftrightarrow> sdk_nonnil env \<and> secret_has env m [awsAccessKeyField, awsSecretKeyField] \<and>
     param m awsRegionField \<noteq> '''' \<and>
     (\<forall>h c. env_unit env h (NewSession c) = Inr ()) \<and>
     (\<forall>h c. \<exists>sgs. env_securityGroups env h c = Inr sgs) \<and>
     (\<forall>h c v e. env_unit env h (EC2 c (DeleteVpc v)) = Inl e \<longrightarrow> strings_Contains (errText e) ''does not exist'')"

definition azure_works :: "env \<Rightarrow> Machine \<Rightarrow> bool" where
  "azure_works env m \<longleftrightarrow>
     secret_has env m [azureSubscriptionIDKeyField, azureTenantIDKeyField, azureClientIDKeyField,
       azureClientSecretKeyField] \<and>
     (\<forall>h a b c. env_unit env h (NewClientSecretCredential a b c) = Inr ()) \<and>
     (\<forall>h a. env_unit env h (NewResourceGroupsClient a) = Inr ()) \<and>
     (\<forall>h c g. env_unit env h (BeginDelete c g) = Inr ()) \<and>
     (\<forall>h c g. env_unit env h (PollUntilDone c g) = Inr ())"

definition cleanup_works :: "env \<Rightarrow> Machine \<Rightarrow> bool" where
  "cleanup_works env m \<longleftrightarrow> removal_works env m \<and>
     (Driver (Spec m) = Some AWSDriver \<longrightarrow> aws_works env m) \<and>
     (Driver (Spec m) = Some AzureDriver \<longrightarrow> azure_works env m)"

section \<open>The cleanup returns\<close>

lemma delivers_deleteFiles:
  assumes "removal_works env m0"
  shows "delivers (holds m0) (deleteFiles env) (\<lambda>_. holds m0)"
proof -
  have remove: "delivers (holds m0) (removeIgnoring env p) (\<lambda>_. holds m0)" for p
    unfolding removeIgnoring_def
    by (rule delivers_handled) (use assms in \<open>auto simp: removal_works_def\<close>)
  have path: "delivers (holds m0) getScriptFilePath (\<lambda>_. holds m0)"
    unfolding getScriptFilePath_def by (rule delivers_theObj) (rule delivers_weak [OF delivers_ret], auto)
  show ?thesis unfolding deleteFiles_def by (rule delivers_andThen [OF path delivers_andThen [OF remove remove]])
qed

lemma delivers_deleteDockerMachine:
  assumes "removal_works env m0"
  shows "delivers (holds m0) (deleteDockerMachine env) (\<lambda>_. holds m0)"
  unfolding delivers_def
proof (intro allI impI)
  fix s assume "holds m0 s"
  then obtain m where m: "machineObj s = Some m" "version_of m0 m" by (auto simp: holds_def)
  obtain err out where cmd: "env_cmd env (trace s) (RunCmd None [''rm'', Name (Meta m), ''-y'']) = (err, out)"
    by fastforce
  then have "IgnoreNotFound err = None" using assms version_ofD [OF m(2)] unfolding removal_works_def by (metis fst_conv)
  then show "\<exists>a t. deleteDockerMachine env s = (Ok a, t) \<and> holds m0 t"
    using m cmd by (simp add: deleteDockerMachine_def run_simps runDockerMachine_def andThen_def holds_def)
qed

lemma delivers_secret:
  assumes "secret_has env m0 keys" and "version_of m0 m"
  shows "delivers (holds m0) (getSecret env (AuthSecret (Spec m)))
      (\<lambda>data s. holds m0 s \<and> (\<forall>k \<in> set keys. mget data k \<noteq> ''''))"
proof -
  obtain ref where ref: "AuthSecret (Spec m) = Some ref"
    "\<And>h. \<exists>data. env_secret env h (GetSecret (ObjectKey ref)) = Inr data \<and> (\<forall>k \<in> set keys. mget data k \<noteq> '''')"
    using assms version_ofD(1) [OF assms(2)] unfolding secret_has_def by auto
  have "getSecret env (AuthSecret (Spec m)) = call_secret env (GetSecret (ObjectKey ref))"
    by (rule ext) (simp add: getSecret_def ref(1) run_simps)
  moreover have "delivers (holds m0) (perform (env_secret env) RSecret (GetSecret (ObjectKey ref)))
      (\<lambda>data s. holds m0 s \<and> (\<forall>k \<in> set keys. mget data k \<noteq> ''''))"
    by (rule delivers_call) (rule ref(2))
  ultimately show ?thesis by (simp add: call_secret_def)
qed

lemma delivers_azure:
  assumes "azure_works env m0"
  shows "delivers (holds m0) (deleteAzureResourceGroup env) (\<lambda>_. holds m0)"
proof -
  have cred: "delivers (holds m0) (getAzureCredential env) (\<lambda>_. holds m0)"
    unfolding getAzureCredential_def
  proof (rule delivers_theObj, rule delivers_andThen, rule delivers_secret)
    show "secret_has env m0 [azureSubscriptionIDKeyField, azureTenantIDKeyField, azureClientIDKeyField,
       azureClientSecretKeyField]" using assms by (simp add: azure_works_def)
  qed (auto simp: delivers_def ret_def)
  have name: "delivers (holds m0) getResourceGroupName (\<lambda>_. holds m0)"
    unfolding getResourceGroupName_def by (rule delivers_theObj) (rule delivers_weak [OF delivers_ret], auto)
  show ?thesis unfolding deleteAzureResourceGroup_def
    by (rule delivers_theObj) (rule delivers_andThen cred name delivers_call_unit | use assms in \<open>simp add: azure_works_def\<close>)+
qed

lemma delivers_client:
  assumes "aws_works env m0"
  shows "delivers (holds m0) (awsEC2Client env) (\<lambda>_. holds m0)"
proof -
  have cred: "delivers (holds m0) (getAWSCredentials env) (\<lambda>_. holds m0)"
    unfolding getAWSCredentials_def Let_def
  proof (rule delivers_theObj, rule delivers_andThen, rule delivers_secret)
    show "secret_has env m0 [awsAccessKeyField, awsSecretKeyField]" using assms by (simp add: aws_works_def)
  qed (use assms in \<open>auto simp: aws_works_def delivers_def ret_def version_ofD\<close>)
  have "delivers (holds m0) (call_unit env (NewSession c)) (\<lambda>_. holds m0)" for c
    using assms by (intro delivers_call_unit) (simp add: aws_works_def)
  then show ?thesis unfolding awsEC2Client_def newAWSClientSession_def
    by (intro delivers_andThen [OF delivers_andThen [OF cred delivers_andThen]])
      (auto simp: delivers_def ret_def)
qed

lemma delivers_groups:
  assumes "\<forall>sg \<in> set sgs. GroupId sg \<noteq> None" and "specified m0"
  shows "delivers (holds m0) (deleteGroups env c sgs) (\<lambda>_. holds m0)"
  using assms(1)
proof (induction sgs)
  case (Cons sg sgs)
  then obtain i where "GroupId sg = Some i" by auto
  moreover have "delivers (holds m0) (attempt (call_unit env (EC2 c (DeleteSecurityGroup (Some i))))) (\<lambda>_. holds m0)"
    by (rule delivers_attempt [OF sound_basic(6) _ assms(2)]) (intro same_obj_intros)
  ultimately show ?case using Cons
    by (auto simp: run_simps intro!: delivers_andThen [where R = "\<lambda>_. holds m0"]) (auto simp: delivers_def ret_def)
qed (auto intro: delivers_intros)

lemma delivers_deleteAwsVpc:
  assumes "aws_works env m0" and "specified m0"
  shows "delivers (holds m0) (deleteAwsVpc env c v) (\<lambda>_. holds m0)"
proof -
  have sdk: "sdk_nonnil env" using assms(1) by (simp add: aws_works_def)
  have subnet: "delivers (holds m0) (attempt (deleteAwsSubnet env c sn)) (\<lambda>_. holds m0)" for sn
    by (rule delivers_attempt [OF _ same_obj_teardown(2) assms(2)]) (rule sound_teardown [OF sdk])
  have "delivers (holds m0) (perform (env_securityGroups env) RSecurityGroups x)
      (\<lambda>sgs s. holds m0 s \<and> (\<forall>sg \<in> set sgs. GroupId sg \<noteq> None))" for x
    by (rule delivers_call) (use assms(1) sdk in \<open>simp add: aws_works_def sdk_nonnil_def, metis\<close>)
  then have groups: "delivers (holds m0) (deleteSecurityGroup env c v) (\<lambda>_. holds m0)"
    unfolding deleteSecurityGroup_def
    by (rule delivers_andThen) (use delivers_groups [OF _ assms(2)] in \<open>auto simp: delivers_def\<close>)
  have vpc: "delivers (holds m0) (ignoreMissing (call_unit env (EC2 c (DeleteVpc v)))) (\<lambda>_. holds m0)"
    unfolding ignoreMissing_def by (rule delivers_handled) (use assms(1) in \<open>auto simp: aws_works_def\<close>)
  show ?thesis unfolding deleteAwsVpc_def
    by (rule delivers_theObj)
      (intro delivers_if delivers_unit delivers_andThen [OF _ delivers_andThen [OF groups vpc]] delivers_andThen [OF subnet])
qed

lemma delivers_cleanup:
  assumes "cleanup_works env m0" and "specified m0"
  shows "delivers (holds m0) (cleanupMachineResources env) (\<lambda>_. holds m0)"
proof -
  obtain d where d: "Driver (Spec m0) = Some d" using assms(2) by (auto simp: specified_def)
  have removal: "removal_works env m0" using assms(1) by (simp add: cleanup_works_def)
  have aws: "delivers (holds m0) (cleanupAWSResources env) (\<lambda>_. holds m0)" if "d = AWSDriver"
  proof -
    have works: "aws_works env m0" using assms(1) d that by (simp add: cleanup_works_def)
    show ?thesis unfolding cleanupAWSResources_def
      by (rule delivers_andThen [OF delivers_client [OF works]], rule delivers_theObj,
          rule delivers_deleteAwsVpc [OF works assms(2)])
  qed
  have azure: "delivers (holds m0) (deleteAzureResourceGroup env) (\<lambda>_. holds m0)" if "d = AzureDriver"
    using assms(1) d that by (intro delivers_azure) (simp add: cleanup_works_def)
  have cloud: "delivers (holds m0) (andThen theObj (\<lambda>m. andThen (deref (Driver (Spec m))) (\<lambda>driver.
     if driver = AWSDriver then cleanupAWSResources env
     else if driver = AzureDriver then deleteAzureResourceGroup env else ret ()))) (\<lambda>_. holds m0)"
  proof (rule delivers_theObj)
    fix m assume "version_of m0 m"
    then have "deref (Driver (Spec m)) = ret d" using d by (simp add: version_ofD run_simps)
    then show "delivers (holds m0) (andThen (deref (Driver (Spec m))) (\<lambda>driver.
       if driver = AWSDriver then cleanupAWSResources env
       else if driver = AzureDriver then deleteAzureResourceGroup env else ret ())) (\<lambda>_. holds m0)"
      using aws azure delivers_unit [of "holds m0"] by (auto simp: delivers_def run_simps)
  qed
  show ?thesis unfolding cleanupMachineResources_def
    by (rule delivers_andThen [OF delivers_deleteFiles [OF removal]
          delivers_andThen [OF delivers_deleteDockerMachine [OF removal] cloud]])
qed

section \<open>A deletion run removes the finalizer\<close>

text \<open>
  The server: reads answer with a version of the machine that has a phase, status patches are
  accepted and keep everything but the status, and the metadata patch is accepted.
\<close>

definition server_keeps :: "env \<Rightarrow> NamespacedName \<Rightarrow> Machine \<Rightarrow> bool" where
  "server_keeps env req m0 \<longleftrightarrow>
     (\<forall>h. \<exists>cur. env_machine env h (GetMachine req) = Inr cur \<and> version_of m0 cur \<and> Phase (Status cur) \<noteq> '''') \<and>
     (\<forall>h old new. version_of m0 new \<longrightarrow> (\<exists>m. env_machine env h (PatchStatus old new) = Inr m \<and> version_of m0 m)) \<and>
     (\<forall>h old new. \<exists>m. env_machine env h (PatchMachine old new) = Inr m)"

lemma server_read:
  assumes "server_keeps env req m0"
  obtains cur where "env_machine env h (GetMachine req) = Inr cur" "version_of m0 cur" "Phase (Status cur) \<noteq> ''''"
  using assms unfolding server_keeps_def by blast

lemma delivers_status:
  assumes "server_keeps env req m0"
  shows "delivers (holds m0) (updateMachineStatus env req) (\<lambda>_. holds m0)"
  unfolding delivers_def
proof (intro allI impI)
  fix s assume "holds m0 s"
  then obtain m where m: "machineObj s = Some m" "version_of m0 m" by (auto simp: holds_def)
  obtain cur where cur: "env_machine env (trace s) (GetMachine req) = Inr cur"
    using server_read [OF assms] by metis
  have new: "version_of m0 (summarized now m)" for now using m(2) by (simp add: version_of_def)
  then have "\<exists>m'. env_machine env h (PatchStatus cur (summarized now m)) = Inr m' \<and> version_of m0 m'" for h now
    using assms unfolding server_keeps_def by blast
  then show "\<exists>a t. updateMachineStatus env req s = (Ok a, t) \<and> holds m0 t"
    using new by (auto simp: updateMachineStatus_run [OF m(1) cur] after_status_def Let_def holds_def split: sum.splits)
      (metis sum.distinct(1) sum.inject(2))+
qed

abbreviation unfinalized :: "Machine \<Rightarrow> Machine" where
  "unfinalized m \<equiv> SetMeta m (RemoveFinalizer (Meta m) GetFinalizer)"

definition finalizer_removed :: "Machine \<Rightarrow> st \<Rightarrow> bool" where
  "finalizer_removed m0 s \<longleftrightarrow> (\<exists>cur m h. version_of m0 cur \<and>
     trace s = Ev (PatchMachine cur (unfinalized cur)) (Inr (RMachine m)) # h)"

lemma delivers_removal:
  assumes "server_keeps env (key_of m0) m0"
  shows "delivers (holds m0) (patchFinalizer env VerbDeleted GetFinalizer) (\<lambda>_. finalizer_removed m0)"
  unfolding delivers_def
proof (intro allI impI)
  fix s assume "holds m0 s"
  then obtain m where m: "machineObj s = Some m" "version_of m0 m" by (auto simp: holds_def)
  obtain cur where cur: "env_machine env (trace s) (GetMachine (key_of m0)) = Inr cur" "version_of m0 cur"
    using server_read [OF assms] by metis
  let ?h = "Ev (GetMachine (key_of m0)) (Inr (RMachine cur)) # trace s"
  obtain m' where "env_machine env ?h (PatchMachine cur (unfinalized cur)) = Inr m'"
    using assms unfolding server_keeps_def by blast
  then show "\<exists>a t. patchFinalizer env VerbDeleted GetFinalizer s = (Ok a, t) \<and> finalizer_removed m0 t"
    using cur by (auto simp: patchFinalizer_def CreateOrPatchE_run [OF m(1)] version_ofD [OF m(2)] finalizerTransform_def
        run_simps call_defs finalizer_removed_def)
qed

lemma deletion_delivers:
  assumes "server_keeps env (key_of m0) m0" and "cleanup_works env m0" and "specified m0"
    and "isDeleting m0" and "ContainsFinalizer m0 GetFinalizer"
  shows "\<exists>t. Reconcile env (key_of m0) s = (Ok (emptyResult, None), t) \<and> finalizer_removed m0 t"
proof -
  obtain cur where cur: "env_machine env (trace s) (GetMachine (key_of m0)) = Inr cur" "version_of m0 cur"
    "Phase (Status cur) \<noteq> ''''"
    using server_read [OF assms(1)] by metis
  let ?t = "s\<lparr>machineObj := Some cur, trace := Ev (GetMachine (key_of m0)) (Inr (RMachine cur)) # trace s\<rparr>"
  have "delivers (holds m0) (removeFinalizerAfterCleanup env) (\<lambda>_. finalizer_removed m0)"
    unfolding removeFinalizerAfterCleanup_def
    by (rule delivers_theObj) (simp add: version_ofD assms(5) delivers_andThen [OF delivers_status [OF assms(1)]
        delivers_andThen [OF delivers_cleanup [OF assms(2,3)] delivers_removal [OF assms(1)]]])
  moreover have "holds m0 ?t" using cur(2) by (simp add: holds_def)
  ultimately obtain a t where "removeFinalizerAfterCleanup env ?t = (Ok a, t)" "finalizer_removed m0 t"
    unfolding delivers_def by blast
  then show ?thesis
    using cur assms(4) by (simp add: Reconcile_run afterGet_run version_ofD reconcileDeletion_def reconciled_def run_simps)
qed

section \<open>A subnet that could not be created\<close>

text \<open>
  When no subnet can be created, the rollback deletes the VPC but leaves its id in the annotation.
  Every later attempt looks for that VPC first.
\<close>

definition vpc_unknown :: "env \<Rightarrow> awsAuthCredential \<Rightarrow> string \<Rightarrow> bool" where
  "vpc_unknown env c v \<longleftrightarrow> (\<forall>h vs. env_vpcs env h (EC2 c (DescribeVpcs [Some v])) = Inr vs \<longrightarrow>
     (\<forall>x \<in> set vs. VpcId x \<noteq> None \<and> VpcId x \<noteq> Some v))"

lemma findVpc_unknown:
  "\<forall>x \<in> set vs. VpcId x \<noteq> None \<and> VpcId x \<noteq> Some v \<Longrightarrow>
   findVpc v vs s = (Err (ErrorString (''no vpc found with id '' @ v)), s)"
  by (induction vs) (auto simp: run_simps)

lemma createAwsVpc_unknown:
  assumes "machineObj s = Some m" and "anno m awsVPCIDAnnotation \<noteq> ''''" and "vpc_unknown env c (anno m awsVPCIDAnnotation)"
  shows "\<exists>e r. createAwsVpc env c s =
    (Err e, s\<lparr>trace := Ev (EC2 c (DescribeVpcs [Some (anno m awsVPCIDAnnotation)])) r # trace s\<rparr>)"
  using assms
  by (cases "env_vpcs env (trace s) (EC2 c (DescribeVpcs [Some (anno m awsVPCIDAnnotation)]))")
    (auto simp: createAwsVpc_def obtainVpc_def getVPC_def run_simps findVpc_unknown vpc_unknown_def)

lemma createAwsVpc_no_subnet:
  assumes vpc: "obtainVpc env c s = (Ok vpc, u)" "VpcId vpc = Some (anno m awsVPCIDAnnotation)"
    and m: "machineObj u = Some m" "anno m awsVPCIDAnnotation \<noteq> ''''" "anno m awsSubnetIDAnnotation = ''''"
      "param m regionParameter \<noteq> ''''"
    and refused: "env_id env (trace u)
      (EC2 c (CreateSubnet awsVpcCIDR (anno m awsVPCIDAnnotation) (param m regionParameter @ defaultZone))) = Inl e"
    and works: "aws_works env m" "specified m"
  obtains t r h where "createAwsVpc env c s = (Err e, t)" "machineObj t = Some m"
    "trace t = Ev (EC2 c (DeleteVpc (anno m awsVPCIDAnnotation))) r # h" "gone r"
proof -
  let ?v = "anno m awsVPCIDAnnotation"
  let ?x = "EC2 c (CreateSubnet awsVpcCIDR ?v (param m regionParameter @ defaultZone))"
  let ?w = "u\<lparr>trace := Ev ?x (Inl e) # trace u\<rparr>"
  have subnet: "createAwsSubnet env c ?v u = (Err e, ?w)"
    using m refused by (simp add: createAwsSubnet_def call_id_def run_simps)
  have "holds m ?w" using m(1) by (simp add: holds_def version_of_def)
  then obtain t where t: "deleteAwsVpc env c ?v ?w = (Ok (), t)"
    using delivers_deleteAwsVpc [OF works, of c ?v] by (auto simp: delivers_def)
  moreover obtain r h where "trace t = Ev (EC2 c (DeleteVpc ?v)) r # h" "gone r"
    by (rule deleteAwsVpc_Ok [OF _ m(2) t]) (simp_all add: m(1))
  moreover have "machineObj t = Some m" using same_objD [OF same_obj_teardown(3) t] m(1) by simp
  ultimately show thesis
    using that vpc m subnet by (simp add: createAwsVpc_def run_simps rollback_run)
qed

end
