(* ===== verification/Schema.thy ===== *)
theory Schema
  imports Reconcile_Safety
begin

text \<open>
  What the operator writes fits the schema of its resource. The markers on \<^verbatim>\<open>MachineSpec\<close> and
  \<^verbatim>\<open>MachineStatus\<close> make the API server reject a machine without a driver or an auth secret,
  with two conditions of one type, with more than eight conditions or with a condition that has
  no transition time; the comments on the fields say which statuses, severities and phases there
  are.
\<close>

section \<open>The schema\<close>

definition maxConditions :: nat where "maxConditions = 8"

definition declaredPhases :: "string list" where
  "declaredPhases = [MachinePhasePending, MachinePhaseInProgress, MachinePhaseWaitingForScriptCompletion,
     MachinePhaseClusterOperationFailed, MachinePhaseSuccess, MachinePhaseTerminating, MachinePhaseFailed]"

definition valid_condition :: "condition \<Rightarrow> bool" where
  "valid_condition c \<longleftrightarrow> cLastTransitionTime c \<noteq> 0 \<and>
     cStatus c \<in> {ConditionTrue, ConditionFalse, ConditionUnknown} \<and>
     cSeverity c \<in> {ConditionSeverityError, ConditionSeverityWarning, ConditionSeverityInfo, ConditionSeverityNone} \<and>
     (cSeverity c \<noteq> ConditionSeverityNone \<longrightarrow> cStatus c = ConditionFalse)"

definition valid_machine :: "Machine \<Rightarrow> bool" where
  "valid_machine m \<longleftrightarrow> Driver (Spec m) \<noteq> None \<and> AuthSecret (Spec m) \<noteq> None \<and>
     length (GetConditions m) \<le> maxConditions \<and> distinct (map cType (GetConditions m)) \<and>
     list_all valid_condition (GetConditions m) \<and> Phase (Status m) \<in> set ('''' # declaredPhases)"

text \<open>
  The machines of the operator: only it writes the status, so a machine it reads has conditions
  of its own six types and forms.
\<close>

definition operatorTypes :: "condition_type list" where
  "operatorTypes = ReadyCondition # markedTypes"

definition own_condition :: "condition \<Rightarrow> bool" where
  "own_condition c \<longleftrightarrow> cType c \<in> set operatorTypes \<and> operator_condition c \<and> cLastTransitionTime c \<noteq> 0"

definition own_machine :: "Machine \<Rightarrow> bool" where
  "own_machine m \<longleftrightarrow> specified m \<and> wf_conditions (GetConditions m) \<and> list_all own_condition (GetConditions m) \<and>
     Phase (Status m) \<in> set ('''' # declaredPhases)"

lemma own_valid_condition: "own_condition c \<Longrightarrow> valid_condition c"
  by (auto simp: own_condition_def valid_condition_def operator_condition_def)

lemma own_wf: "own_machine m \<Longrightarrow> wf_machine m"
  by (auto simp: own_machine_def wf_machine_def own_condition_def list_all_iff)

text \<open>Six types, one condition each: never more than eight.\<close>

lemma own_length:
  assumes "own_machine m"
  shows "length (GetConditions m) \<le> 6"
proof -
  let ?ts = "map cType (GetConditions m)"
  have "distinct ?ts" using assms by (simp add: own_machine_def wf_conditions_def)
  then have "length (GetConditions m) = card (set ?ts)" by (metis distinct_card length_map)
  also have "\<dots> \<le> card (set operatorTypes)"
    using assms by (intro card_mono) (auto simp: own_machine_def own_condition_def list_all_iff)
  also have "\<dots> \<le> 6"
    by (rule order_trans [OF card_length]) (simp add: operatorTypes_def markedTypes_def ConditionsOrder_def)
  finally show ?thesis .
qed

lemma own_valid: "own_machine m \<Longrightarrow> valid_machine m"
  using own_length [of m]
  by (auto simp: valid_machine_def own_machine_def specified_def wf_conditions_def list_all_iff maxConditions_def
      own_valid_condition)

section \<open>The operator keeps to it\<close>

lemma set_cond_Set:
  assumes "d \<in> set (cond_Set now g (Some c))"
  shows "d \<in> set (gConditions g) \<or> (hasSameState d c \<and> (cLastTransitionTime c = 0 \<longrightarrow> cLastTransitionTime d = now))"
proof -
  have existing: "setExisting now c' cs = Some ds \<Longrightarrow> d \<in> set ds \<Longrightarrow>
      d \<in> set cs \<or> d = c'\<lparr>cLastTransitionTime := now\<rparr>" for c' cs ds
    by (induction cs arbitrary: ds) (auto split: if_splits)
  show ?thesis using assms
    by (auto simp: cond_Set_def Let_def hasSameState_def dest!: existing split: option.splits if_splits)
qed

lemma Phase_SetConditions [simp]: "Phase (Status (SetConditions m cs)) = Phase (Status m)"
  by (simp add: SetConditions_def)

lemma own_Set:
  assumes "own_machine m" and "cType c \<in> set operatorTypes" "operator_condition c" "cLastTransitionTime c = 0"
    and "now \<noteq> 0"
  shows "own_machine (SetConditions m (cond_Set now (getter_of m) (Some c)))"
proof -
  have "own_condition d" if "d \<in> set (cond_Set now (getter_of m) (Some c))" for d
    using set_cond_Set [OF that] assms
    by (auto simp: own_machine_def list_all_iff own_condition_def hasSameState_def operator_condition_def)
  moreover have "wf_conditions (cond_Set now (getter_of m) (Some c))"
    using assms(1) by (intro cond_Set_wf) (simp add: own_machine_def)
  ultimately show ?thesis
    using assms(1) by (simp add: own_machine_def list_all_iff)
qed

lemma GetPhase_declared: "GetPhase m \<in> set declaredPhases"
  by (simp add: GetPhase_def declaredPhases_def Let_def split: option.splits)

lemma own_summarized:
  assumes own: "own_machine m" and "now \<noteq> 0"
  shows "own_machine (summarized now m)"
proof -
  have phase: "own_machine (SetPhase m' (GetPhase m'))" if "own_machine m'" for m'
    using that GetPhase_declared [of m'] by (simp add: own_machine_def)
  have "own_machine (SetConditions m (cond_Set now (getter_of m) (ready_spec ConditionsOrder (GetConditions m))))"
  proof (cases "ready_spec ConditionsOrder (GetConditions m)")
    case None
    then show ?thesis using own by (simp add: cond_Set_def own_machine_def)
  next
    case (Some c)
    have "operator_condition c" "cLastTransitionTime c = 0" "cType c = ReadyCondition"
      using Some by (auto simp: ready_spec_def TrueCondition_def FalseCondition_def operator_condition_def
          ConditionSeverityNone_def split: if_splits option.splits)
    then show ?thesis unfolding Some using own assms(2) by (intro own_Set) (simp_all add: operatorTypes_def)
  qed
  then show ?thesis
    using phase own_wf [OF own] by (simp add: summarized_def Let_def cond_SetSummary_def summary_of_machine)
qed

interpretation schema: machine_predicate own_machine valid_machine "\<lambda>now. now \<noteq> 0"
proof
  fix m t now reason msg assume *: "t \<in> set markedTypes" "(now :: gotime) \<noteq> 0" "own_machine m"
  show "own_machine (SetConditions m (cond_Set now (getter_of m) (Some (TrueCondition t))))"
    "own_machine (SetConditions m (cond_Set now (getter_of m) (Some (FalseCondition t reason ConditionSeverityError msg))))"
    using * by (auto intro!: own_Set simp: operatorTypes_def TrueCondition_def FalseCondition_def operator_condition_def
        ConditionSeverityNone_def)
qed (simp_all add: own_valid own_summarized, simp add: own_machine_def)

text \<open>Every machine a run sends to the server is valid.\<close>

lemma Reconcile_valid:
  assumes "server_answers own_machine env" and "\<And>n h. env_now env n h \<noteq> 0"
    and "obj_sat own_machine s" and "trace s = []" and "e \<in> set (trace (snd (Reconcile env req s)))"
  shows "sends valid_machine (evCall e)"
proof -
  have "assumed own_machine (\<lambda>now. now \<noteq> 0) env" using assms(1,2) by (simp add: assumed_def)
  moreover have "sat_inv own_machine valid_machine (\<lambda>now. now \<noteq> 0) env s"
    using assms(3,4) by (simp add: sat_inv_def all_sent_def)
  then have "sat_inv own_machine valid_machine (\<lambda>now. now \<noteq> 0) env (snd (Reconcile env req s))"
    by (rule keepsD [OF schema.run.reconcile])
  ultimately show ?thesis using assms(5) by (simp add: sat_inv_def all_sent_def)
qed

end
