(* ===== verification/Bounds.thy ===== *)
theory Bounds
  imports Reconcile_Safety
begin

text \<open>
  How long a run pauses. The only pauses are those of the loop that waits for a new VPC: a run
  enters the loop at most once, and pauses at most thirteen times for five seconds.
\<close>

definition pause_of :: "event \<Rightarrow> int" where
  "pause_of e = (case evCall e of Sleep d \<Rightarrow> d | _ \<Rightarrow> 0)"

definition total_pause :: "history \<Rightarrow> int" where
  "total_pause h = sum_list (map pause_of h)"

lemma total_pause_eq:
  assumes "\<And>e. e \<in> set h \<Longrightarrow> is_pause e \<Longrightarrow> pause_of e = d"
  shows "total_pause h = int (length (filter is_pause h)) * d"
  using assms
proof (induction h)
  case (Cons e h)
  have "pause_of e = 0" if "\<not> is_pause e" using that by (cases e rule: is_pause.cases) (auto simp: pause_of_def)
  then show ?case using Cons by (auto simp: total_pause_def algebra_simps)
qed (simp add: total_pause_def)

abbreviation quiet :: "'a comp \<Rightarrow> bool" where
  "quiet m \<equiv> emits (\<lambda>e. \<not> is_pause e) m"

lemma not_pause:
  "status_event e \<Longrightarrow> \<not> is_pause e" "meta_event f e \<Longrightarrow> \<not> is_pause e" "client_event e \<Longrightarrow> \<not> is_pause e"
  "file_event e \<Longrightarrow> \<not> is_pause e" "script_event e \<Longrightarrow> \<not> is_pause e" "cleanup_event e \<Longrightarrow> \<not> is_pause e"
  by (cases e rule: is_pause.cases; auto simp: cleanup_event_def teardown_event_def)+

lemma quiet_aws:
  "quiet (createAwsSubnet env c v)" "quiet (deleteAwsVpc env c v)" "quiet (getVPC env c vo)"
  "quiet (vpcAvailable env c vo)" "quiet (awsEC2Client env)"
proof -
  have groups: "quiet (deleteGroups env c sgs)" for sgs
    by (rule emits_mono [OF emits_deleteGroups]) (auto simp: teardown_event_def elim!: is_pause.elims)
  show "quiet (createAwsSubnet env c v)" "quiet (deleteAwsVpc env c v)" "quiet (getVPC env c vo)"
    "quiet (vpcAvailable env c vo)" "quiet (awsEC2Client env)"
    unfolding aws_defs by (intro groups emits_intros; auto dest: not_pause)+
qed

text \<open>Five seconds within a minute: thirteen rounds, each with a pause.\<close>

lemma wait_pauses: "counts is_pause 13 (waitForState (5 * second) (1 * minute) (vpcAvailable env c vo))"
proof -
  have "counts is_pause (rounds (5 * second) (1 * minute) 0) (waitForState (5 * second) (1 * minute) (vpcAvailable env c vo))"
    unfolding waitForState_def by (rule waitLoop_pauses) (simp_all add: second_def minute_def quiet_aws)
  moreover have "rounds (5 * second) (1 * minute) 0 = 13" by (simp add: rounds_def second_def minute_def)
  ultimately show ?thesis by simp
qed

lemma createAWSEnvironment_pauses: "counts is_pause 13 (createAWSEnvironment env)"
proof -
  have del: "counts is_pause 0 (rollback err (deleteAwsVpc env c v) :: 'a comp)" for err c v
    unfolding rollback_def by (intro counts_none emits_intros quiet_aws)
  have new: "counts is_pause 13 (andThen (attempt (waitForState (5 * second) (1 * minute) (vpcAvailable env c vo)))
      (\<lambda>r. case r of Inl err \<Rightarrow> rollback err (deleteAwsVpc env c v) | Inr _ \<Rightarrow> ret vpc))" for c vo v vpc
    by (rule counts_andThen [where i = 13 and j = 0])
      (intro counts_attempt wait_pauses counts_splits del counts_none emits_basic | simp)+
  have obt: "counts is_pause 13 (obtainVpc env c)" for c
    unfolding obtainVpc_def
    by (intro counts_obj counts_splits counts_none [OF quiet_aws(3)]
        counts_andThen [where i = 0 and j = 13 and m = "perform _ _ _"] counts_andThen [where i = 0 and j = 13 and m = "deref _"]
        counts_andThen [where i = 0 and j = 13 and m = "patchAnnotation _ _ _"] new
        counts_none [of _ "perform _ _ _"] counts_none [of _ "deref _"] counts_none [of _ "patchAnnotation _ _ _"]
        emits_intros) (auto dest: not_pause)
  have rest: "counts is_pause 0 (andThen theObj (\<lambda>m. andThen (deref (VpcId vpc)) (\<lambda>vid.
     if anno m awsSubnetIDAnnotation = ''''
     then andThen (attempt (createAwsSubnet env c vid)) (\<lambda>r.
       case r of Inl err \<Rightarrow> rollback err (deleteAwsVpc env c vid) | Inr _ \<Rightarrow> ret ())
     else ret ())))" for vpc c
    unfolding rollback_def by (intro counts_none emits_intros quiet_aws)
  show ?thesis unfolding createAWSEnvironment_def createAwsVpc_def
    by (intro counts_obj counts_splits counts_andThen [where i = 0 and j = 13 and m = "awsEC2Client _"]
        counts_andThen [where i = 13 and j = 0 and m = "obtainVpc _ _"] obt rest
        counts_none [of _ "ret _"] counts_none [OF quiet_aws(5)] emits_basic) simp_all
qed

lemma createMachine_pauses: "counts is_pause 13 (createMachine env)"
proof -
  have pre: "counts is_pause 13 (createPrerequisitesForMachine env)"
    unfolding createPrerequisitesForMachine_def
    by (intro counts_obj counts_andThen [where i = 0 and j = 13 and m = "deref _"] counts_splits createAWSEnvironment_pauses
        counts_none [of _ "deref _"] counts_none [of _ "ret _"] emits_basic) simp_all
  have quiet: "counts is_pause 0 (setInitialConditions env)" "counts is_pause 0 (getMachineCreationArgs env)"
    by (intro counts_none emits_intros emits_getMachineCreationArgs; auto dest: not_pause)+
  have run: "counts is_pause 0 (runCreate env args)" for args
    unfolding runCreate_def by (intro counts_none emits_intros) (auto dest: not_pause)
  show ?thesis unfolding createMachine_def
    by (intro counts_obj counts_splits counts_andThen [where i = 0 and j = 13 and m = "setInitialConditions _"]
        counts_andThen [where i = 13 and j = 0 and m = "createPrerequisitesForMachine _"]
        counts_andThen [where i = 0 and j = 0 and m = "getMachineCreationArgs _"] pre quiet run
        counts_none [of _ "ret _"] emits_basic) simp_all
qed

lemma Reconcile_pauses: "counts is_pause 13 (Reconcile env req)"
  by (rule counts_Reconcile_creation [OF _ _ _ _ createMachine_pauses]) (auto dest: not_pause)

text \<open>Every pause is one of five seconds.\<close>

abbreviation short_pauses :: "'a comp \<Rightarrow> bool" where
  "short_pauses m \<equiv> emits (\<lambda>e. is_pause e \<longrightarrow> pause_of e = 5 * second) m"

lemma createAWSEnvironment_short: "short_pauses (createAWSEnvironment env)"
proof -
  have quiet: "short_pauses (createAwsSubnet env c v)" "short_pauses (deleteAwsVpc env c v)" "short_pauses (getVPC env c vo)"
    "short_pauses (vpcAvailable env c vo)" "short_pauses (awsEC2Client env)" for c v vo
    by (rule emits_mono [OF quiet_aws(1)] emits_mono [OF quiet_aws(2)] emits_mono [OF quiet_aws(3)]
        emits_mono [OF quiet_aws(4)] emits_mono [OF quiet_aws(5)], simp)+
  show ?thesis unfolding createAWSEnvironment_def createAwsVpc_def obtainVpc_def rollback_def
    by (intro quiet emits_intros) (auto simp: pause_of_def dest: not_pause)
qed

lemma Reconcile_short: "short_pauses (Reconcile env req)"
proof -
  have create: "short_pauses (createMachine env)"
    unfolding createMachine_def createPrerequisitesForMachine_def runCreate_def
    by (intro createAWSEnvironment_short emits_getMachineCreationArgs emits_intros) (auto dest: not_pause)
  show ?thesis unfolding Reconcile_def reconcileCreation_def
    by (intro create emits_reconcileDeletion emits_intros) (auto dest: not_pause)
qed

lemma Reconcile_total_pause:
  assumes "trace s = []"
  shows "total_pause (trace (snd (Reconcile env req s))) \<le> 65 * second"
proof -
  let ?h = "trace (snd (Reconcile env req s))"
  have "length (filter is_pause ?h) \<le> 13"
    using Reconcile_pauses [of env req] assms unfolding counts_def by (metis append_Nil2)
  moreover have "total_pause ?h = int (length (filter is_pause ?h)) * (5 * second)"
    by (rule total_pause_eq) (use emits_run_from [OF Reconcile_short assms] in blast)
  ultimately show ?thesis by (simp add: second_def)
qed

end
