(* ===== verification/Resources.thy ===== *)
theory Resources
  imports Reconcile_Safety
begin

text \<open>
  The cloud resources of a run: subnets and gateway attachments are put only into a VPC whose id
  the API server holds in the annotation of the machine, so a later cleanup finds the VPC. The
  object at hand being one the server answered with is the invariant behind it. The section at the
  end follows a VPC whose id could not be recorded.
\<close>

section \<open>The object at hand comes from the server\<close>

lemma obj_observed_Cons: "obj_observed s \<Longrightarrow> obj_observed (s\<lparr>trace := e # trace s\<rparr>)"
  by (auto simp: obj_observed_def intro: observed_Cons)

lemma keeps_observed_CreateOrPatchE: "keeps obj_observed (CreateOrPatchE env f)"
proof (rule keepsI)
  fix s :: st assume s: "obj_observed s"
  have put: "obj_observed (snd (andThen (call_machine env c) putObj u))" if "obj_observed u" for c u
    using that
    by (auto simp: call_defs perform_def andThen_def putObj_def obj_observed_def observed_reply observed_Cons
        split: sum.splits)
  show "obj_observed (snd (CreateOrPatchE env f s))"
  proof (cases "machineObj s")
    case None
    then show ?thesis using s by (simp add: CreateOrPatchE_def theObj_def andThen_def)
  next
    case (Some m)
    show ?thesis
      using s by (auto simp: CreateOrPatchE_run [OF Some] Let_def intro!: put obj_observed_Cons split: sum.splits)
  qed
qed

lemma keeps_observed_patches:
  "keeps obj_observed (patchFinalizer env v f)" "keeps obj_observed (patchAnnotation env x y)"
  unfolding patchFinalizer_def patchAnnotation_def by (rule keeps_observed_CreateOrPatchE)+

lemma keeps_observed_setCondition: "keeps obj_observed (setCondition env c)"
proof (rule keepsI)
  fix s :: st assume s: "obj_observed s"
  show "obj_observed (snd (setCondition env c s))"
  proof (cases "machineObj s")
    case None
    then show ?thesis using s by (simp add: setCondition_def theObj_def andThen_def)
  next
    case (Some m)
    then show ?thesis using s by (auto simp: run_simps obj_observed_def intro: observed_cong)
  qed
qed

interpretation observed: run_invariant obj_observed env for env
proof unfold_locales
  show "keeps obj_observed (updateMachineStatus env nn)" for nn
    by (rule keepsI) (rule updateMachineStatus_observed)
qed (auto simp: MarkTrue_def MarkFalse_def keeps_observed_patches keeps_observed_setCondition obj_observed_Cons,
    simp add: obj_observed_def)

section \<open>Resources go into a recorded VPC\<close>

text \<open>The server holds the id of a VPC: it answered with a machine so annotated, or accepted one.\<close>

definition vpc_stored :: "string \<Rightarrow> event \<Rightarrow> bool" where
  "vpc_stored v e =
     (case evReply e of
        Inl _ \<Rightarrow> False
      | Inr r \<Rightarrow>
          (case r of RMachine m \<Rightarrow> anno m awsVPCIDAnnotation = v | _ \<Rightarrow> False) \<or>
          (case evCall e of
             PatchMachine _ m \<Rightarrow> anno m awsVPCIDAnnotation = v
           | CreateMachine m \<Rightarrow> anno m awsVPCIDAnnotation = v
           | _ \<Rightarrow> False))"

definition vpc_recorded :: "string \<Rightarrow> history \<Rightarrow> bool" where
  "vpc_recorded v h \<longleftrightarrow> (\<exists>e \<in> set h. vpc_stored v e)"

fun fills :: "string \<Rightarrow> event \<Rightarrow> bool" where
  "fills v (Ev (EC2 _ (CreateSubnet _ w _)) _) = (w = v)"
| "fills v (Ev (EC2 _ (AttachInternetGateway _ w)) _) = (w = v)"
| "fills v _ = False"

interpretation vpc: guard "fills v" "vpc_recorded v" for v
  by unfold_locales (simp add: vpc_recorded_def)

lemma observed_recorded: "observed m h \<Longrightarrow> vpc_recorded (anno m awsVPCIDAnnotation) h"
  by (auto simp: observed_def vpc_recorded_def vpc_stored_def intro!: bexI)

lemma fills_nothing:
  "status_event e \<Longrightarrow> \<not> fills v e" "client_event e \<Longrightarrow> \<not> fills v e"
  "teardown_event c e \<Longrightarrow> \<not> fills v e" "meta_event f e \<Longrightarrow> \<not> fills v e"
  "evCall e = EC2 c (DescribeVpcs ids) \<Longrightarrow> \<not> fills v e"
  by (cases "(v, e)" rule: fills.cases; auto simp: teardown_event_def)+

lemma plain_fills_nothing: "plain x \<Longrightarrow> \<not> fills v (Ev x r)"
  by (cases "(v, Ev x r)" rule: fills.cases) auto

lemma patchAnnotation_records:
  assumes "patchAnnotation env awsVPCIDAnnotation v s = (Ok (), t)"
  shows "vpc_recorded v (trace t)"
proof (cases "machineObj s")
  case None
  then show ?thesis using assms by (simp add: patchAnnotation_def CreateOrPatchE_def theObj_def andThen_def)
next
  case (Some m)
  then show ?thesis using assms
    by (auto simp: patchAnnotation_def CreateOrPatchE_run [OF Some] Let_def call_defs perform_def andThen_def putObj_def
        vpc_recorded_def vpc_stored_def annotationTransform_def split: sum.splits if_splits)
qed

lemma ret_then: "andThen (ret x) f = f x"
  by (simp add: fun_eq_iff andThen_def ret_def)

lemma findVpc_Ok: "findVpc v vpcs s = (Ok vpc, t) \<Longrightarrow> VpcId vpc = Some v"
  by (induction vpcs arbitrary: s) (auto simp: run_simps deref_def elim!: andThen_cases split: option.splits if_splits)

lemma getVPC_Ok: "getVPC env c (Some v) s = (Ok vpc, t) \<Longrightarrow> VpcId vpc = Some v"
  unfolding getVPC_def by (auto simp: run_simps elim!: andThen_cases dest: findVpc_Ok)

lemma obtainVpc_Ok:
  assumes "obj_observed s" and "obtainVpc env c s = (Ok vpc, t)"
  obtains v where "VpcId vpc = Some v" "vpc_recorded v (trace t)"
proof -
  obtain m where m: "machineObj s = Some m"
    using assms(2) by (cases "machineObj s") (auto simp: obtainVpc_def theObj_def andThen_def)
  have rb: "rollback err undo s' \<noteq> (Ok a, t')" for err undo s' t' and a :: Vpc
    by (auto simp: rollback_run split: prod.splits res.splits)
  have wait: "extends (waitForState r x (vpcAvailable env c (VpcId vpc')))" for r x vpc'
    by (intro emits_intros emits_mono [OF emits_vpcAvailable]) simp_all
  show thesis
  proof (cases "anno m awsVPCIDAnnotation = ''''")
    case True
    then obtain v s' u where u: "VpcId vpc = Some v" "patchAnnotation env awsVPCIDAnnotation v s' = (Ok (), u)"
      "attempt (waitForState (5 * second) (1 * minute) (vpcAvailable env c (VpcId vpc))) u = (Ok (Inr ()), t)"
      using assms(2) m unfolding obtainVpc_def
      by (auto simp: run_simps rb deref_def elim!: andThen_cases split: sum.splits option.splits)
    moreover obtain new where "trace t = new @ trace u"
      using emitsD [OF emits_attempt [OF wait] u(3)] by blast
    ultimately show thesis using that vpc.past_append patchAnnotation_records by metis
  next
    case False
    then have "getVPC env c (Some (anno m awsVPCIDAnnotation)) s = (Ok vpc, t)"
      using assms(2) m by (simp add: obtainVpc_def run_simps)
    moreover have "extends (getVPC env c v)" for v unfolding getVPC_def by (intro emits_intros) simp_all
    moreover have "vpc_recorded (anno m awsVPCIDAnnotation) (trace s)"
      using assms(1) m by (auto simp: obj_observed_def intro: observed_recorded)
    ultimately show thesis using that getVPC_Ok vpc.past_append emitsD by metis
  qed
qed

lemma createAwsSubnet_fills: "emits (\<lambda>e. fills v e \<longrightarrow> v = w) (createAwsSubnet env c w)"
  unfolding createAwsSubnet_def createAwsInternetGateway_def attachInternetGatewayToVPC_def createAwsRoute_def
  by (intro emits_intros emits_mono [OF emits_deleteAwsInternetGateway] emits_mono [OF emits_deleteAwsSubnet])
    (auto dest: fills_nothing)

lemma obtainVpc_fills_nothing: "emits (\<lambda>e. \<not> fills v e) (obtainVpc env c)"
  unfolding obtainVpc_def getVPC_def
  by (intro emits_intros emits_mono [OF emits_vpcAvailable])
    (auto dest: fills_nothing)

text \<open>The invariant of a run: the guard, with the object at hand known to the server.\<close>

definition resources_ok :: "string \<Rightarrow> st \<Rightarrow> bool" where
  "resources_ok v s \<longleftrightarrow> obj_observed s \<and> vpc.guarded v (trace s)"

lemma keeps_resources:
  assumes "keeps obj_observed m" and "emits (\<lambda>e. \<not> fills v e) m"
  shows "keeps (resources_ok v) m"
  by (rule keepsI) (auto simp: resources_ok_def intro: keepsD [OF assms(1)] vpc.free_run [OF assms(2)])

lemma keeps_resources_createAwsVpc: "keeps (resources_ok v) (createAwsVpc env c)"
proof (rule keepsI)
  fix s assume s: "resources_ok v s"
  have obs: "keeps obj_observed (createAwsVpc env c)" "keeps obj_observed (obtainVpc env c)"
    unfolding aws_defs
    by (intro observed.any_perform observed.any_calls observed.wait observed.finders observed.annotates keeps_intros; simp)+
  obtain r t where rt: "obtainVpc env c s = (r, t)" by fastforce
  then have t: "vpc.guarded v (trace t)"
    using vpc.free_run [OF obtainVpc_fills_nothing, of v s env c] s by (simp add: resources_ok_def)
  have "vpc.guarded v (trace (snd (createAwsVpc env c s)))"
  proof (cases r)
    case (Ok vpc)
    obtain w where w: "VpcId vpc = Some w" "vpc_recorded w (trace t)"
      using obtainVpc_Ok [of s env c vpc t] s rt Ok by (auto simp: resources_ok_def)
    let ?rest = "andThen theObj (\<lambda>m. if anno m awsSubnetIDAnnotation = ''''
      then andThen (attempt (createAwsSubnet env c w)) (\<lambda>r.
        case r of Inl err \<Rightarrow> rollback err (deleteAwsVpc env c w) | Inr _ \<Rightarrow> ret ()) else ret ())"
    have rest: "emits (\<lambda>e. fills v e \<longrightarrow> v = w) ?rest"
      by (intro emits_intros createAwsSubnet_fills) (auto dest: fills_nothing)
    have "vpc.guarded v (trace (snd (?rest t)))"
    proof (cases "v = w")
      case True
      then show ?thesis using vpc.past_run [OF rest t] w(2) by blast
    next
      case False
      then show ?thesis using vpc.free_run [OF emits_mono [OF rest] t] by blast
    qed
    then show ?thesis using rt Ok by (simp add: createAwsVpc_def run_simps w(1) ret_then)
  qed (use rt t in \<open>simp_all add: createAwsVpc_def run_simps\<close>)
  then show "resources_ok v (snd (createAwsVpc env c s))"
    using keepsD [OF obs(1)] s by (simp add: resources_ok_def)
qed

interpretation resources: full_invariant "resources_ok v" env for v env
proof unfold_locales
  note free = keeps_resources [where v = v]
  show "keeps (resources_ok v) (updateMachineStatus env nn)" for nn
    by (intro free observed.status emits_intros) (auto dest: fills_nothing)
  have fin: "keeps (resources_ok v) (patchFinalizer env verb f)" for verb f
    by (intro free keeps_observed_patches emits_intros) (auto dest: fills_nothing)
  then show "keeps (resources_ok v) (patchFinalizer env VerbCreated GetFinalizer)"
    "keeps (resources_ok v) (patchFinalizer env VerbDeleted GetFinalizer)" by blast+
  show "keeps (resources_ok v) (MarkTrue env t)"
    "keeps (resources_ok v) (MarkFalse env t reason ConditionSeverityError msg)" for t reason msg
    unfolding MarkTrue_def MarkFalse_def by (intro free keeps_observed_setCondition emits_intros)+
  show "keeps (resources_ok v) (cleanupAWSResources env)"
    by (intro free observed.aws emits_intros) (auto dest: fills_nothing)
  show "keeps (resources_ok v) (createAWSEnvironment env)"
    unfolding createAWSEnvironment_def
    by (intro keeps_andThen [of _ theObj] keeps_andThen [of _ "awsEC2Client env"] keeps_case keeps_basic
        keeps_resources_createAwsVpc free)
      (auto simp: aws_defs intro!: emits_intros observed.any_perform observed.any_calls keeps_intros dest: fills_nothing)
  show "keeps (resources_ok v) (updateMachineReconcile env req)" for req
    by (rule keepsI) (auto simp: updateMachineReconcile_def resources_ok_def call_defs perform_def andThen_def putObj_def
        obj_observed_def intro: observed_reply observed_Cons split: sum.splits)
qed (auto simp: resources_ok_def obj_observed_def intro: observed_Cons dest: plain_fills_nothing)

lemma Reconcile_resources:
  assumes "vpc.guarded v (trace s)"
  shows "vpc.guarded v (trace (snd (Reconcile env req s)))"
proof (cases "env_machine env (trace s) (GetMachine req)")
  case (Inl e)
  have "emits (\<lambda>e. \<not> fills v e) (requeueWithError env msg e)" for msg
    by (intro emits_intros) (auto dest: fills_nothing)
  then show ?thesis using assms by (simp add: Reconcile_run Inl Let_def vpc.free_run)
next
  case (Inr m)
  let ?t = "s\<lparr>machineObj := Some m, trace := Ev (GetMachine req) (Inr (RMachine m)) # trace s\<rparr>"
  have "resources_ok v ?t" using assms by (simp add: resources_ok_def obj_observed_def observed_reply)
  then have "resources_ok v (snd (afterGet env req ?t))" by (rule keepsD [OF resources.after_read])
  then show ?thesis by (simp add: Reconcile_run Inr resources_ok_def)
qed

section \<open>A VPC that could not be recorded\<close>

text \<open>
  When the id of a new VPC cannot be written to the annotation, the creation stops with that error:
  the VPC is neither deleted nor known to the object at hand.
\<close>

lemma patchAnnotation_Err:
  assumes m: "machineObj s = Some m" and "patchAnnotation env k v s = (Err e, t)"
  shows "machineObj t = Some m \<and> (\<exists>new. trace t = new @ trace s \<and> (\<forall>x \<in> set new. \<not> is_ec2 (evCall x)))"
  using assms(2)
  by (auto simp: patchAnnotation_def CreateOrPatchE_run [OF m] Let_def call_defs perform_def andThen_def putObj_def m
      split: sum.splits if_splits)

lemma createAwsVpc_unrecorded:
  assumes m: "machineObj s = Some m" and "anno m awsVPCIDAnnotation = ''''"
    and "env_vpc env (trace s) (EC2 c (CreateVpc awsVpcCIDR)) = Inr (Some vpc)" and "VpcId vpc = Some v"
    and "patchAnnotation env awsVPCIDAnnotation v
      (s\<lparr>trace := Ev (EC2 c (CreateVpc awsVpcCIDR)) (Inr (RVpc (Some vpc))) # trace s\<rparr>) = (Err e, t)"
  shows "createAwsVpc env c s = (Err e, t)"
  using assms by (simp add: createAwsVpc_def obtainVpc_def run_simps)

end
