(* ===== verification/Lifecycle.thy ===== *)
theory Lifecycle
  imports Reconcile
begin

text \<open>
  How the startup script ends a machine's life cycle: a run for a machine that is ready reads the
  result of the script, and the exit code found there decides the phase the status shows. The
  reconciler, the script's result, the conditions, their summary and the status update are all
  on this path.
\<close>

text \<open>
  A machine that waits for its script: it has the finalizer, its docker machine is ready, and none
  of the other conditions the summary is about is False.
\<close>

definition awaits_script :: "string \<Rightarrow> Machine \<Rightarrow> bool" where
  "awaits_script d m \<longleftrightarrow> wf_machine m \<and> \<not> isDeleting m \<and> Phase (Status m) \<noteq> '''' \<and> ContainsFinalizer m GetFinalizer \<and>
     Driver (Spec m) = Some d \<and> IsConditionTrue (GetConditions m) MachineConditionTypeMachineReady \<and>
     \<not> IsConditionTrue (GetConditions m) MachinePhaseSuccess \<and> \<not> IsConditionTrue (GetConditions m) MachinePhaseFailed \<and>
     (\<forall>c \<in> set (GetConditions m). cType c \<in> {MachineConditionTypeAuthDataReady, MachineConditionTypeScriptReady} \<longrightarrow>
       cStatus c \<noteq> ConditionFalse)"

definition scp_call :: "string \<Rightarrow> Machine \<Rightarrow> call" where
  "scp_call d m = RunCmd None [''scp'', defaultUserOf d @ ''@'' @ Name (Meta m) @ '':/tmp/result.txt'', ''/tmp'']"

text \<open>The machine after the result is marked, and the phase that its summary then has.\<close>

definition with_result :: "gotime \<Rightarrow> condition \<Rightarrow> Machine \<Rightarrow> Machine" where
  "with_result now c m = SetConditions m (cond_Set now (getter_of m) (Some c))"

definition result_cond :: "int \<Rightarrow> condition" where
  "result_cond code =
     (if code = 0 then TrueCondition MachineConditionTypeClusterOperationComplete
      else FalseCondition MachineConditionTypeClusterOperationComplete ReasonClusterOperationFailed
        ConditionSeverityError ''failed to create cluster'')"

lemma result_conditions:
  assumes "awaits_script d m" and c: "cType c = MachineConditionTypeClusterOperationComplete" "operator_condition c"
    and e: "e \<in> set (GetConditions (with_result now c m))" "cType e \<in> set ConditionsOrder"
  shows "if cType e = MachineConditionTypeClusterOperationComplete then hasSameState e c else cStatus e \<noteq> ConditionFalse"
proof -
  have wf: "wf_conditions (GetConditions m)" using assms(1) by (simp add: awaits_script_def wf_machine_def)
  then have "wf_conditions (cond_Set now (getter_of m) (Some c))" by (simp add: cond_Set_wf)
  then have get: "cond_Get (cond_Set now (getter_of m) (Some c)) (cType e) = Some e"
    using e(1) by (simp add: wf_conditions_def cond_Get_Some_iff with_result_def)
  show ?thesis
  proof (cases "cType e = cType c")
    case True
    then show ?thesis using get wf stored_hasSameState [of now "getter_of m" c] c(1) by (auto simp: cond_Get_Set)
  next
    case False
    then have "e \<in> set (GetConditions m)" using get wf by (simp add: cond_Get_Set wf_conditions_def cond_Get_Some_iff)
    moreover have "cStatus e = ConditionTrue" if t: "cType e = MachineConditionTypeMachineReady"
    proof -
      obtain r where "r \<in> set (GetConditions m)" "cType r = cType e" "cStatus r = ConditionTrue"
        using assms(1) t unfolding awaits_script_def IsConditionTrue_iff by metis
      then show ?thesis using wf calculation by (metis wf_conditions_def cond_Get_Some_iff option.inject)
    qed
    ultimately show ?thesis
      using assms(1) e(2) c(1) False
      by (auto simp: awaits_script_def ConditionsOrder_def ConditionTrue_def ConditionFalse_def)
  qed
qed

lemma result_phase:
  assumes m: "awaits_script d m" and c: "cType c = MachineConditionTypeClusterOperationComplete" "operator_condition c"
  shows "Phase (Status (summarized now' (with_result now c m))) = (if cStatus c \<noteq> ConditionFalse then MachinePhaseSuccess
    else if cReason c = ReasonWaitingForScriptCompletion then MachinePhaseWaitingForScriptCompletion
    else if cReason c = ReasonClusterOperationFailed then MachinePhaseClusterOperationFailed
    else if cReason c = ReasonMachineCreationFailed then MachinePhaseFailed
    else MachinePhaseInProgress)"
proof -
  let ?cs = "GetConditions (with_result now c m)"
  have mem: "MachineConditionTypeClusterOperationComplete \<in> set ConditionsOrder" by (simp add: ConditionsOrder_def)
  have wfm: "wf_machine (with_result now c m)"
    unfolding with_result_def using m c(2) by (intro wf_machine_Set) (simp_all add: awaits_script_def)
  then have dist: "distinct (map cType ?cs)" by (simp add: wf_machine_def wf_conditions_def)
  obtain e where e: "e \<in> set ?cs" "cType e = MachineConditionTypeClusterOperationComplete" "hasSameState e c"
  proof -
    have "cond_Get ?cs (cType c) = Some (stored now (getter_of m) c)"
      using m by (simp add: with_result_def cond_Get_Set awaits_script_def wf_machine_def)
    then show thesis
      using that [of "stored now (getter_of m) c"] dist c(1) stored_hasSameState by (simp add: cond_Get_Some_iff)
  qed
  have phase: "Phase (Status (summarized now' (with_result now c m))) = phase_spec ConditionsOrder ?cs"
  proof (rule summarized_phase [OF wfm])
    show "\<not> isDeleting (with_result now c m)" using m by (simp add: awaits_script_def isDeleting_def with_result_def)
    show "\<exists>c \<in> set ?cs. cType c \<in> set ConditionsOrder" using e(1,2) mem by metis
  qed
  show ?thesis
  proof (cases "cStatus c = ConditionFalse")
    case False
    then have "first_false ConditionsOrder ?cs = None"
      using result_conditions [OF m c] first_false_None_iff [OF dist] by (fastforce simp: hasSameState_def split: if_splits)
    then show ?thesis using False by (simp add: phase phase_spec_def)
  next
    case True
    then have "cStatus e = ConditionFalse" using e(3) by (simp add: hasSameState_def)
    then obtain f where f: "first_false ConditionsOrder ?cs = Some f"
      using first_false_None_iff [OF dist, of ConditionsOrder] e mem by (metis option.exhaust)
    then have "hasSameState f c"
      using first_false_Some [OF dist f] result_conditions [OF m c] by (metis (full_types))
    then show ?thesis using f True by (simp add: phase phase_spec_def hasSameState_def)
  qed
qed

text \<open>Neither the mark nor the summary touches what a machine that waits is recognised by.\<close>

lemma with_result_keeps [simp]: "Meta (with_result now c m) = Meta m" "Spec (with_result now c m) = Spec m"
  by (simp_all add: with_result_def)

lemma cond_Get_with_result:
  "wf_machine m \<Longrightarrow> ty \<noteq> cType c \<Longrightarrow>
   cond_Get (GetConditions (with_result now c m)) ty = cond_Get (GetConditions m) ty"
  by (simp add: with_result_def cond_Get_Set wf_machine_def)

lemma cond_Get_summarized:
  assumes "wf_machine m" and "ty \<noteq> ReadyCondition"
  shows "cond_Get (GetConditions (summarized now m)) ty = cond_Get (GetConditions m) ty"
proof (cases "ready_spec ConditionsOrder (GetConditions m)")
  case None
  then show ?thesis using assms
    by (simp add: summarized_def Let_def cond_SetSummary_def summary_of_machine cond_Set_def)
next
  case (Some c)
  then show ?thesis using assms ready_spec_cType [OF Some]
    by (simp add: summarized_def Let_def cond_SetSummary_def summary_of_machine cond_Get_Set wf_machine_def)
qed

lemma awaits_script_Get:
  "awaits_script d m \<longleftrightarrow> wf_machine m \<and> \<not> isDeleting m \<and> Phase (Status m) \<noteq> '''' \<and> ContainsFinalizer m GetFinalizer \<and>
     Driver (Spec m) = Some d \<and>
     (\<exists>c. cond_Get (GetConditions m) MachineConditionTypeMachineReady = Some c \<and> cStatus c = ConditionTrue) \<and>
     (\<forall>ty \<in> {MachinePhaseSuccess, MachinePhaseFailed}. \<forall>c. cond_Get (GetConditions m) ty = Some c \<longrightarrow> cStatus c \<noteq> ConditionTrue) \<and>
     (\<forall>ty \<in> {MachineConditionTypeAuthDataReady, MachineConditionTypeScriptReady}. \<forall>c.
       cond_Get (GetConditions m) ty = Some c \<longrightarrow> cStatus c \<noteq> ConditionFalse)"
  unfolding awaits_script_def wf_machine_def
  by (auto simp: IsConditionTrue_iff wf_conditions_def cond_Get_Some_iff)

lemma awaits_again:
  assumes m: "awaits_script d m" and c: "cType c = MachineConditionTypeClusterOperationComplete" "operator_condition c"
  shows "awaits_script d (summarized now' (with_result now c m))"
proof -
  let ?m = "with_result now c m"
  have wf: "wf_machine m" "wf_machine ?m"
    unfolding with_result_def using m c(2) by (auto simp: awaits_script_def intro!: wf_machine_Set)
  have "Phase (Status (summarized now' ?m)) \<noteq> ''''"
    by (simp add: summarized_def Let_def GetPhase_nonempty [simplified])
  then show ?thesis
    using m wf c(1)
    by (simp add: awaits_script_Get wf_machine_summarized cond_Get_summarized cond_Get_with_result type_consts phase_consts
        ReadyCondition_def isDeleting_def ContainsFinalizer_def)
qed

text \<open>The run up to the script, and its end with and without an error.\<close>

lemma Reconcile_awaiting:
  assumes "env_machine env (trace s) (GetMachine req) = Inr m" and "awaits_script d m"
    and "u = s\<lparr>machineObj := Some m, trace := Ev (GetMachine req) (Inr (RMachine m)) # trace s\<rparr>"
  shows "Reconcile env req s =
    (case isScriptFinished env u of
       (Ok rekey, v) \<Rightarrow> andThen (attempt (updateMachineStatus env req)) (\<lambda>r.
         ret (if rekey then \<lparr>RequeueAfter = minute\<rparr> else emptyResult, errorOf r)) v
     | (Err err, v) \<Rightarrow> requeueWithError env '''' err v
     | (Panic, v) \<Rightarrow> (Panic, v)
     | (Hang, v) \<Rightarrow> (Hang, v))"
proof -
  have u: "machineObj u = Some m" by (simp add: assms(3))
  have "Reconcile env req s = reconcileCreation env req u"
    using assms by (simp add: Reconcile_run afterGet_run [OF u [unfolded assms(3)]] awaits_script_def)
  also have "\<dots> = andThen (attempt (isScriptFinished env)) (\<lambda>r.
      case r of Inl err \<Rightarrow> requeueWithError env '''' err
      | Inr rekey \<Rightarrow> andThen (attempt (updateMachineStatus env req)) (\<lambda>r.
          ret (if rekey then \<lparr>RequeueAfter = minute\<rparr> else emptyResult, errorOf r))) u"
    using assms(2) u createMachine_idle [OF u, of env]
    by (simp add: reconcileCreation_def ensureFinalizer_def awaits_script_def run_simps)
  finally show ?thesis by (auto simp: andThen_def attempt_def split: prod.splits res.splits)
qed

lemma last_status:
  assumes "echoes env" and "machineObj v = Some m"
  obtains t now where "machineObj t = Some (summarized now m)"
    "andThen (attempt (updateMachineStatus env req)) (\<lambda>r. ret (res, errorOf r)) v = (Ok (res, None), t)"
proof -
  obtain t now where "updateMachineStatus env req v = (Ok (), t)" "machineObj t = Some (summarized now m)"
    by (rule echoes_status [OF assms])
  then show thesis by (intro that [of t now]) (simp_all add: run_simps errorOf_def)
qed

lemma last_error:
  assumes "echoes env" and "machineObj v = Some m"
  obtains t now where "machineObj t = Some (summarized now m)"
    "requeueWithError env msg err v = (Ok (emptyResult, Some err), t)"
proof -
  obtain t now where "updateMachineStatus env (key_of m) v = (Ok (), t)" "machineObj t = Some (summarized now m)"
    by (rule echoes_status [OF assms])
  then show thesis using assms(2) by (intro that [of t now]) (simp_all add: requeueWithError_def run_simps)
qed

text \<open>The script is pending: the run is to be repeated, and the phase says what is waited for.\<close>

lemma pending_script:
  assumes "echoes env" and read: "env_machine env (trace s) (GetMachine req) = Inr m" and m: "awaits_script d m"
    and copy: "env_cmd env (Ev (GetMachine req) (Inr (RMachine m)) # trace s) (scp_call d m) = (Some e, out)"
  shows "\<exists>t m'. Reconcile env req s = (Ok (\<lparr>RequeueAfter = minute\<rparr>, None), t) \<and> machineObj t = Some m' \<and>
    Phase (Status m') = MachinePhaseWaitingForScriptCompletion \<and> awaits_script d m'"
proof -
  let ?u = "s\<lparr>machineObj := Some m, trace := Ev (GetMachine req) (Inr (RMachine m)) # trace s\<rparr>"
  let ?c = "FalseCondition MachineConditionTypeClusterOperationComplete ReasonWaitingForScriptCompletion
    ConditionSeverityError ''waiting for script completion''"
  obtain v now where v: "isScriptFinished env ?u = (Ok True, v)" "machineObj v = Some (with_result now ?c m)"
    using m copy isScriptFinished_ready [of ?u m d "scp_call d m" env]
    by (simp add: awaits_script_def scp_call_def MarkFalse_def with_result_def run_simps)
  obtain t now' where "machineObj t = Some (summarized now' (with_result now ?c m))"
    "andThen (attempt (updateMachineStatus env req)) (\<lambda>r. ret (\<lparr>RequeueAfter = minute\<rparr>, errorOf r)) v =
       (Ok (\<lparr>RequeueAfter = minute\<rparr>, None), t)"
    by (rule last_status [OF assms(1) v(2)])
  moreover have "Phase (Status (summarized now' (with_result now ?c m))) = MachinePhaseWaitingForScriptCompletion"
    using result_phase [OF m, of ?c now' now] by (simp add: FalseCondition_def operator_condition_def)
  moreover have "awaits_script d (summarized now' (with_result now ?c m))"
    by (rule awaits_again [OF m]) (simp_all add: FalseCondition_def operator_condition_def)
  ultimately show ?thesis using v(1) by (simp add: Reconcile_awaiting [OF read m refl])
qed

text \<open>The script has ended with an exit code.\<close>

lemma result_mark_run:
  assumes "machineObj s = Some m"
  obtains now t where "result_mark env code s = (Ok (), t)" "machineObj t = Some (with_result now (result_cond code) m)"
  using that assms
  by (cases "code = 0") (simp_all add: result_mark_def result_cond_def MarkTrue_def MarkFalse_def with_result_def run_simps)

lemma ended_script:
  assumes "echoes env" and read: "env_machine env (trace s) (GetMachine req) = Inr m" and m: "awaits_script d m"
    and copy: "env_cmd env (Ev (GetMachine req) (Inr (RMachine m)) # trace s) (scp_call d m) = (None, out)"
    and read_file: "\<And>h. env_text env h (OpenFile resultFile) = Inr content" "exit_code (scanLines content) = Some code"
    and removed: "\<And>h. env_unit env h (RemoveFile resultFile) = Inr ()"
  shows "\<exists>t m'. Reconcile env req s =
      (Ok (emptyResult, if code = 0 then None else Some (ErrorString ''failed to create cluster'')), t) \<and>
    machineObj t = Some m' \<and>
    Phase (Status m') = (if code = 0 then MachinePhaseSuccess else MachinePhaseClusterOperationFailed) \<and> awaits_script d m'"
proof -
  let ?u = "s\<lparr>machineObj := Some m, trace := Ev (GetMachine req) (Inr (RMachine m)) # trace s\<rparr>"
  let ?w = "?u\<lparr>trace := Ev (OpenFile resultFile) (Inr (RText content)) # Ev (scp_call d m) (Inr (RText out)) # trace ?u\<rparr>"
  obtain now w where w: "result_mark env code ?w = (Ok (), w)" "machineObj w = Some (with_result now (result_cond code) m)"
    by (rule result_mark_run [of ?w m env code]) simp_all
  define v where "v = w\<lparr>trace := Ev (RemoveFile resultFile) (Inr RUnit) # trace w\<rparr>"
  have v: "machineObj v = Some (with_result now (result_cond code) m)"
    "isScriptFinished env ?u = (if code = 0 then Ok False else Err (ErrorString ''failed to create cluster''), v)"
    using m copy read_file removed w isScriptFinished_ready [of ?u m d "scp_call d m" env]
    by (simp_all add: awaits_script_def scp_call_def resultLoop_run [where m = m] Let_def v_def)
  have phase: "Phase (Status (summarized now' (with_result now (result_cond code) m))) =
      (if code = 0 then MachinePhaseSuccess else MachinePhaseClusterOperationFailed) \<and>
      awaits_script d (summarized now' (with_result now (result_cond code) m))" for now'
    using result_phase [OF m, of "result_cond code" now' now] awaits_again [OF m, of "result_cond code" now' now]
    by (simp add: result_cond_def TrueCondition_def FalseCondition_def operator_condition_def ConditionTrue_def
        ConditionFalse_def ConditionSeverityNone_def ReasonClusterOperationFailed_def ReasonWaitingForScriptCompletion_def)
  show ?thesis
  proof (cases "code = 0")
    case True
    obtain t now' where "machineObj t = Some (summarized now' (with_result now (result_cond code) m))"
      "andThen (attempt (updateMachineStatus env req)) (\<lambda>r. ret (emptyResult, errorOf r)) v = (Ok (emptyResult, None), t)"
      by (rule last_status [OF assms(1) v(1)])
    then show ?thesis using True v(2) phase by (simp add: Reconcile_awaiting [OF read m refl])
  next
    case False
    obtain t now' where "machineObj t = Some (summarized now' (with_result now (result_cond code) m))"
      "requeueWithError env '''' (ErrorString ''failed to create cluster'') v =
         (Ok (emptyResult, Some (ErrorString ''failed to create cluster'')), t)"
      by (rule last_error [OF assms(1) v(1)])
    then show ?thesis using False v(2) phase by (simp add: Reconcile_awaiting [OF read m refl])
  qed
qed

end
