(* ===== verification/Scheme.thy ===== *)
theory Scheme
  imports Api Go_Lib
begin

text \<open>
  The registry of API types: the type tables of \<^verbatim>\<open>runtime.Scheme\<close>, the builder the API package
  registers its types with, and the \<^verbatim>\<open>init\<close> functions that fill the scheme of the operator. A
  scheme maps each group, version and kind to a Go type and each Go type to its kinds; the
  theorem of interest is that the two tables agree and that every type the controllers use is
  resolved to one kind. Registering conversion and default functions does not touch these tables
  and is left out; the registration of the Kubernetes types by client-go is an argument.
\<close>

section \<open>Groups, versions, kinds and types\<close>

record GroupVersion =
  gvGroup :: string
  gvVersion :: string

record GroupVersionKind =
  gvkGroup :: string
  gvkVersion :: string
  gvkKind :: string

definition WithKind :: "GroupVersion \<Rightarrow> string \<Rightarrow> GroupVersionKind" where
  "WithKind gv kind = \<lparr>gvkGroup = gvGroup gv, gvkVersion = gvVersion gv, gvkKind = kind\<rparr>"

definition kindVersion :: "GroupVersionKind \<Rightarrow> GroupVersion" where
  "kindVersion gvk = \<lparr>gvGroup = gvkGroup gvk, gvVersion = gvkVersion gvk\<rparr>"

text \<open>A struct type as reflection sees it: its package and its name.\<close>

record goType =
  PkgPath :: string
  typeName :: string

record Scheme =
  gvkToType :: "GroupVersionKind \<rightharpoonup> goType"
  typeToGVK :: "goType \<rightharpoonup> GroupVersionKind list"
  unversionedTypes :: "goType \<rightharpoonup> GroupVersionKind"
  unversionedKinds :: "string \<rightharpoonup> goType"
  observedVersions :: "GroupVersion list"

definition NewScheme :: Scheme where
  "NewScheme = \<lparr>gvkToType = Map.empty, typeToGVK = Map.empty, unversionedTypes = Map.empty,
     unversionedKinds = Map.empty, observedVersions = []\<rparr>"

definition APIVersionInternal :: string where
  "APIVersionInternal = ''__internal''"

section \<open>Registration\<close>

text \<open>\<^verbatim>\<open>None\<close> is a panic.\<close>

definition addObservedVersion :: "GroupVersion \<Rightarrow> Scheme \<Rightarrow> Scheme" where
  "addObservedVersion version s =
     (if gvVersion version = '''' \<or> gvVersion version = APIVersionInternal then s
      else if version \<in> set (observedVersions s) then s
      else s\<lparr>observedVersions := observedVersions s @ [version]\<rparr>)"

definition kindsOf :: "Scheme \<Rightarrow> goType \<Rightarrow> GroupVersionKind list" where
  "kindsOf s t = (case typeToGVK s t of None \<Rightarrow> [] | Some gvks \<Rightarrow> gvks)"

definition AddKnownTypeWithName :: "GroupVersionKind \<Rightarrow> goType \<Rightarrow> Scheme \<Rightarrow> Scheme option" where
  "AddKnownTypeWithName gvk t s0 =
     (let s = addObservedVersion (kindVersion gvk) s0
      in if gvkVersion gvk = '''' then None
         else if (case gvkToType s gvk of Some oldT \<Rightarrow> oldT \<noteq> t | None \<Rightarrow> False) then None
         else let s' = s\<lparr>gvkToType := (gvkToType s)(gvk \<mapsto> t)\<rparr>
              in if gvk \<in> set (kindsOf s' t) then Some s'
                 else Some (s'\<lparr>typeToGVK := (typeToGVK s')(t \<mapsto> kindsOf s' t @ [gvk])\<rparr>))"

fun addTypes :: "GroupVersion \<Rightarrow> goType list \<Rightarrow> Scheme \<Rightarrow> Scheme option" where
  "addTypes gv [] s = Some s"
| "addTypes gv (t # ts) s =
     (case AddKnownTypeWithName (WithKind gv (typeName t)) t s of None \<Rightarrow> None | Some s' \<Rightarrow> addTypes gv ts s')"

definition AddKnownTypes :: "GroupVersion \<Rightarrow> goType list \<Rightarrow> Scheme \<Rightarrow> Scheme option" where
  "AddKnownTypes gv types s = addTypes gv types (addObservedVersion gv s)"

fun addUnversioned :: "GroupVersion \<Rightarrow> goType list \<Rightarrow> Scheme \<Rightarrow> Scheme option" where
  "addUnversioned version [] s = Some s"
| "addUnversioned version (t # ts) s0 =
     (let gvk = WithKind version (typeName t);
          s = s0\<lparr>unversionedTypes := (unversionedTypes s0)(t \<mapsto> gvk)\<rparr>
      in if (case unversionedKinds s (gvkKind gvk) of Some old \<Rightarrow> t \<noteq> old | None \<Rightarrow> False) then None
         else addUnversioned version ts (s\<lparr>unversionedKinds := (unversionedKinds s)(gvkKind gvk \<mapsto> t)\<rparr>))"

definition AddUnversionedTypes :: "GroupVersion \<Rightarrow> goType list \<Rightarrow> Scheme \<Rightarrow> Scheme option" where
  "AddUnversionedTypes version types s =
     (case AddKnownTypes version types (addObservedVersion version s) of
        None \<Rightarrow> None
      | Some s' \<Rightarrow> addUnversioned version types s')"

definition metav1Type :: "string \<Rightarrow> goType" where
  "metav1Type name = \<lparr>PkgPath = ''k8s.io/apimachinery/pkg/apis/meta/v1'', typeName = name\<rparr>"

definition Unversioned :: GroupVersion where
  "Unversioned = \<lparr>gvGroup = '''', gvVersion = ''v1''\<rparr>"

definition WatchEventKind :: string where
  "WatchEventKind = ''WatchEvent''"

definition optionsTypes :: "goType list" where
  "optionsTypes = map metav1Type [''ListOptions'', ''GetOptions'', ''DeleteOptions'', ''CreateOptions'',
     ''UpdateOptions'', ''PatchOptions'']"

definition unversionedMeta :: "goType list" where
  "unversionedMeta = map metav1Type [''Status'', ''APIVersions'', ''APIGroupList'', ''APIGroup'', ''APIResourceList'']"

definition AddToGroupVersion :: "GroupVersion \<Rightarrow> Scheme \<Rightarrow> Scheme option" where
  "AddToGroupVersion gv s =
     Option.bind (AddKnownTypeWithName (WithKind gv WatchEventKind) (metav1Type ''WatchEvent'') s) (\<lambda>s.
     Option.bind (AddKnownTypeWithName (WithKind \<lparr>gvGroup = gvGroup gv, gvVersion = APIVersionInternal\<rparr> WatchEventKind)
       (metav1Type ''InternalEvent'') s) (\<lambda>s.
     Option.bind (AddKnownTypes gv optionsTypes s) (\<lambda>s.
     AddUnversionedTypes Unversioned unversionedMeta s)))"

section \<open>Builders\<close>

text \<open>A function of a builder returns an error or not and may panic; \<^verbatim>\<open>Must\<close> panics on an error.\<close>

type_synonym registrar = "Scheme \<Rightarrow> (gerr option \<times> Scheme) option"

fun Must :: "(gerr option \<times> Scheme) option \<Rightarrow> Scheme option" where
  "Must None = None"
| "Must (Some (Some err, s)) = None"
| "Must (Some (None, s)) = Some s"

fun AddToScheme :: "registrar list \<Rightarrow> registrar" where
  "AddToScheme [] s = Some (None, s)"
| "AddToScheme (f # fs) s =
     (case f s of
        None \<Rightarrow> None
      | Some (Some err, s') \<Rightarrow> Some (Some err, s')
      | Some (None, s') \<Rightarrow> AddToScheme fs s')"

record Builder =
  builderVersion :: GroupVersion
  builderFuncs :: "registrar list"

definition Register :: "goType list \<Rightarrow> Builder \<Rightarrow> Builder" where
  "Register objects bld = bld\<lparr>builderFuncs := builderFuncs bld @
     [\<lambda>s. case Option.bind (AddKnownTypes (builderVersion bld) objects s) (AddToGroupVersion (builderVersion bld)) of
        None \<Rightarrow> None
      | Some s' \<Rightarrow> Some (None, s')]\<rparr>"

section \<open>The operator's scheme\<close>

definition GroupVersion_v1alpha1 :: GroupVersion where
  "GroupVersion_v1alpha1 = \<lparr>gvGroup = GroupVersionGroup, gvVersion = ''v1alpha1''\<rparr>"

definition apiType :: "string \<Rightarrow> goType" where
  "apiType name = \<lparr>PkgPath = ''go.klusters.dev/docker-machine-operator/api/v1alpha1'', typeName = name\<rparr>"

text \<open>The package variable, and the \<^verbatim>\<open>init\<close> functions of the package in the order of its files.\<close>

definition SchemeBuilder :: Builder where
  "SchemeBuilder = \<lparr>builderVersion = GroupVersion_v1alpha1, builderFuncs = []\<rparr>"

definition driver_types_init :: "Builder \<Rightarrow> Builder" where
  "driver_types_init = Register [apiType ''Driver'', apiType ''DriverList'']"

definition machine_types_init :: "Builder \<Rightarrow> Builder" where
  "machine_types_init = Register [apiType ''Machine'', apiType ''MachineList'']"

definition api_AddToScheme :: registrar where
  "api_AddToScheme = AddToScheme (builderFuncs (machine_types_init (driver_types_init SchemeBuilder)))"

text \<open>\<^verbatim>\<open>init\<close> of the server package and of the command package, each for its own scheme.\<close>

definition server_init :: "registrar \<Rightarrow> Scheme option" where
  "server_init clientgo =
     Option.bind (Must (clientgo NewScheme)) (\<lambda>s.
     Must (api_AddToScheme s))"

definition run_init :: "registrar \<Rightarrow> Scheme option" where
  "run_init clientgo =
     Option.bind (Must (clientgo NewScheme)) (\<lambda>s.
     Must (api_AddToScheme s))"

text \<open>What the client asks of the scheme: the kinds of an object, \<^verbatim>\<open>None\<close> when its type is not registered.\<close>

definition ObjectKinds :: "Scheme \<Rightarrow> goType \<Rightarrow> (GroupVersionKind list \<times> bool) option" where
  "ObjectKinds s t =
     (case typeToGVK s t of
        None \<Rightarrow> None
      | Some gvks \<Rightarrow> Some (gvks, unversionedTypes s t \<noteq> None))"

section \<open>The two tables agree\<close>

definition consistent :: "Scheme \<Rightarrow> bool" where
  "consistent s \<longleftrightarrow> (\<forall>t. distinct (kindsOf s t) \<and> set (kindsOf s t) = {g. gvkToType s g = Some t} \<and> typeToGVK s t \<noteq> Some [])"

text \<open>A table that may be added to another: they give no key two values.\<close>

definition fits :: "('k \<rightharpoonup> 'v) \<Rightarrow> ('k \<rightharpoonup> 'v) \<Rightarrow> bool" where
  "fits T M \<longleftrightarrow> (\<forall>k v. T k = Some v \<longrightarrow> M k = None \<or> M k = Some v)"

lemma fits_simps [simp]: "fits Map.empty M" "fits T Map.empty" "fits T T"
  by (simp_all add: fits_def)

lemma fits_single [simp]: "fits [k \<mapsto> v] M \<longleftrightarrow> M k = None \<or> M k = Some v"
  by (auto simp: fits_def)

lemma fits_add: "fits (T ++ U) M \<Longrightarrow> fits U T \<Longrightarrow> fits T M \<and> fits U (M ++ T)"
  by (auto simp: fits_def map_add_def split: option.splits; metis option.inject option.distinct(1))

text \<open>
  The specification of a registration: given a scheme the table and the unversioned kinds fit, it
  succeeds, adds exactly these, and keeps the tables in agreement.
\<close>

definition installs :: "(GroupVersionKind \<rightharpoonup> goType) \<Rightarrow> (string \<rightharpoonup> goType) \<Rightarrow> (Scheme \<Rightarrow> Scheme option) \<Rightarrow> bool" where
  "installs T K f \<longleftrightarrow>
     (\<forall>s. consistent s \<longrightarrow> fits T (gvkToType s) \<longrightarrow> fits K (unversionedKinds s) \<longrightarrow>
       (\<exists>s'. f s = Some s' \<and> consistent s' \<and> gvkToType s' = gvkToType s ++ T \<and>
         unversionedKinds s' = unversionedKinds s ++ K \<and>
         dom (unversionedTypes s') \<subseteq> dom (unversionedTypes s) \<union> ran K))"

lemma installsD:
  assumes "installs T K f" and "consistent s" and "fits T (gvkToType s)" and "fits K (unversionedKinds s)"
  obtains s' where "f s = Some s'" "consistent s'" "gvkToType s' = gvkToType s ++ T"
    "unversionedKinds s' = unversionedKinds s ++ K" "dom (unversionedTypes s') \<subseteq> dom (unversionedTypes s) \<union> ran K"
  using assms unfolding installs_def by blast

named_theorems installs_intros \<open>what the registrations install\<close>

lemma installs_Some [installs_intros]: "installs Map.empty Map.empty Some"
  by (simp add: installs_def)

lemma installs_bind [installs_intros]:
  assumes f: "installs T K f" and g: "installs U L g" and "fits U T" and "fits L K"
  shows "installs (T ++ U) (K ++ L) (\<lambda>s. Option.bind (f s) g)"
  unfolding installs_def
proof (intro allI impI)
  fix s assume s: "consistent s" "fits (T ++ U) (gvkToType s)" "fits (K ++ L) (unversionedKinds s)"
  note TU = fits_add [OF s(2) assms(3)] and KL = fits_add [OF s(3) assms(4)]
  obtain s1 where s1: "f s = Some s1" "consistent s1" "gvkToType s1 = gvkToType s ++ T"
      "unversionedKinds s1 = unversionedKinds s ++ K" "dom (unversionedTypes s1) \<subseteq> dom (unversionedTypes s) \<union> ran K"
    using installsD [OF f s(1)] TU KL by blast
  obtain s2 where s2: "g s1 = Some s2" "consistent s2" "gvkToType s2 = gvkToType s1 ++ U"
      "unversionedKinds s2 = unversionedKinds s1 ++ L" "dom (unversionedTypes s2) \<subseteq> dom (unversionedTypes s1) \<union> ran L"
    using installsD [OF g s1(2)] TU KL s1(3,4) by metis
  have "(K ++ L) k = Some v" if "K k = Some v \<or> L k = Some v" for k v
    using that assms(4) by (cases "L k") (fastforce simp: fits_def map_add_def)+
  then have "ran K \<union> ran L \<subseteq> ran (K ++ L)" unfolding ran_def by blast
  then have "dom (unversionedTypes s2) \<subseteq> dom (unversionedTypes s) \<union> ran (K ++ L)" using s1(5) s2(5) by blast
  then show "\<exists>s'. Option.bind (f s) g = Some s' \<and> consistent s' \<and> gvkToType s' = gvkToType s ++ (T ++ U) \<and>
      unversionedKinds s' = unversionedKinds s ++ (K ++ L) \<and>
      dom (unversionedTypes s') \<subseteq> dom (unversionedTypes s) \<union> ran (K ++ L)"
    using s1 s2 by (intro exI [of _ s2]) simp
qed

lemma observed_same [simp]:
  "gvkToType (addObservedVersion v s) = gvkToType s" "typeToGVK (addObservedVersion v s) = typeToGVK s"
  "unversionedTypes (addObservedVersion v s) = unversionedTypes s"
  "unversionedKinds (addObservedVersion v s) = unversionedKinds s"
  by (simp_all add: addObservedVersion_def)

lemma consistent_observed [simp]: "consistent (addObservedVersion v s) = consistent s"
  by (simp add: consistent_def kindsOf_def)

lemma installs_observed [installs_intros]:
  "installs T K f \<Longrightarrow> installs T K (\<lambda>s. f (addObservedVersion v s))"
  unfolding installs_def by (metis consistent_observed observed_same)

lemma installs_known [installs_intros]:
  assumes "gvkVersion g \<noteq> ''''"
  shows "installs [g \<mapsto> t] Map.empty (AddKnownTypeWithName g t)"
  unfolding installs_def
proof (intro allI impI)
  fix s assume s: "consistent s" "fits [g \<mapsto> t] (gvkToType s)"
  let ?s' = "if g \<in> set (kindsOf s t)
    then addObservedVersion (kindVersion g) s\<lparr>gvkToType := (gvkToType s)(g \<mapsto> t)\<rparr>
    else addObservedVersion (kindVersion g) s\<lparr>gvkToType := (gvkToType s)(g \<mapsto> t), typeToGVK := (typeToGVK s)(t \<mapsto> kindsOf s t @ [g])\<rparr>"
  have "AddKnownTypeWithName g t s = Some ?s'"
    using s(2) assms by (auto simp: AddKnownTypeWithName_def Let_def kindsOf_def split: option.splits)
  moreover have "consistent ?s'"
    using s by (auto simp: consistent_def kindsOf_def split: option.splits if_splits)
  ultimately show "\<exists>s'. AddKnownTypeWithName g t s = Some s' \<and> consistent s' \<and>
      gvkToType s' = gvkToType s ++ [g \<mapsto> t] \<and> unversionedKinds s' = unversionedKinds s ++ Map.empty \<and>
      dom (unversionedTypes s') \<subseteq> dom (unversionedTypes s) \<union> ran Map.empty"
    by (intro exI [of _ ?s']) simp
qed

text \<open>What a list of types installs.\<close>

fun typeTable :: "GroupVersion \<Rightarrow> goType list \<Rightarrow> GroupVersionKind \<rightharpoonup> goType" where
  "typeTable gv [] = Map.empty"
| "typeTable gv (t # ts) = [WithKind gv (typeName t) \<mapsto> t] ++ typeTable gv ts"

fun kindTable :: "goType list \<Rightarrow> string \<rightharpoonup> goType" where
  "kindTable [] = Map.empty"
| "kindTable (t # ts) = [typeName t \<mapsto> t] ++ kindTable ts"

lemma WithKind_fields [simp]:
  "gvkGroup (WithKind gv k) = gvGroup gv" "gvkVersion (WithKind gv k) = gvVersion gv" "gvkKind (WithKind gv k) = k"
  by (simp_all add: WithKind_def)

lemma WithKind_inject [simp]: "WithKind gv k = WithKind gv k' \<longleftrightarrow> k = k'"
  by (simp add: WithKind_def)

lemma typeTable_Some: "typeTable gv ts g = Some t \<Longrightarrow> t \<in> set ts \<and> g = WithKind gv (typeName t)"
  by (induction ts) (auto simp: map_add_def split: option.splits if_splits)

lemma kindTable_Some: "kindTable ts k = Some t \<Longrightarrow> t \<in> set ts \<and> k = typeName t"
  by (induction ts) (auto simp: map_add_def split: option.splits if_splits)

lemma installs_addTypes [installs_intros]:
  "distinct (map typeName ts) \<Longrightarrow> gvVersion gv \<noteq> '''' \<Longrightarrow> installs (typeTable gv ts) Map.empty (addTypes gv ts)"
proof (induction ts)
  case Nil
  then show ?case using installs_Some by (simp add: fun_eq_iff installs_def)
next
  case (Cons t ts)
  have "fits (typeTable gv ts) [WithKind gv (typeName t) \<mapsto> t]"
    using Cons.prems(1) by (auto simp: fits_def dest: typeTable_Some)
  then have "installs ([WithKind gv (typeName t) \<mapsto> t] ++ typeTable gv ts) (Map.empty ++ Map.empty)
      (\<lambda>s. Option.bind (AddKnownTypeWithName (WithKind gv (typeName t)) t s) (addTypes gv ts))"
    using Cons by (intro installs_bind installs_known) simp_all
  moreover have "addTypes gv (t # ts) =
      (\<lambda>s. Option.bind (AddKnownTypeWithName (WithKind gv (typeName t)) t s) (addTypes gv ts))"
    by (auto simp: fun_eq_iff split: option.splits)
  ultimately show ?case by (simp only: typeTable.simps) simp
qed

lemma installs_AddKnownTypes [installs_intros]:
  "distinct (map typeName ts) \<Longrightarrow> gvVersion gv \<noteq> '''' \<Longrightarrow> installs (typeTable gv ts) Map.empty (AddKnownTypes gv ts)"
  unfolding AddKnownTypes_def by (intro installs_intros)

lemma addUnversioned_run:
  "distinct (map typeName ts) \<Longrightarrow> fits (kindTable ts) (unversionedKinds s) \<Longrightarrow>
   \<exists>s'. addUnversioned v ts s = Some s' \<and> gvkToType s' = gvkToType s \<and> typeToGVK s' = typeToGVK s \<and>
     unversionedKinds s' = unversionedKinds s ++ kindTable ts \<and>
     dom (unversionedTypes s') \<subseteq> dom (unversionedTypes s) \<union> set ts"
proof (induction ts arbitrary: s)
  case (Cons t ts)
  have "fits (kindTable ts) [typeName t \<mapsto> t]"
    using Cons.prems(1) by (auto simp: fits_def dest: kindTable_Some)
  note f = fits_add [OF Cons.prems(2) [unfolded kindTable.simps] this]
  let ?s = "s\<lparr>unversionedTypes := (unversionedTypes s)(t \<mapsto> WithKind v (typeName t)),
    unversionedKinds := (unversionedKinds s)(typeName t \<mapsto> t)\<rparr>"
  have "addUnversioned v (t # ts) s = addUnversioned v ts ?s"
    using f by (auto simp: Let_def split: option.splits)
  moreover have "fits (kindTable ts) (unversionedKinds ?s)" using f by simp
  then obtain s' where "addUnversioned v ts ?s = Some s'" "gvkToType s' = gvkToType ?s" "typeToGVK s' = typeToGVK ?s"
      "unversionedKinds s' = unversionedKinds ?s ++ kindTable ts"
      "dom (unversionedTypes s') \<subseteq> dom (unversionedTypes ?s) \<union> set ts"
    using Cons.IH [of ?s] Cons.prems(1) by (simp del: fun_upd_apply) blast
  ultimately show ?case by (intro exI [of _ s']) auto
qed simp

lemma kindTable_ran: "distinct (map typeName ts) \<Longrightarrow> ran (kindTable ts) = set ts"
proof (induction ts)
  case (Cons t ts)
  then have "kindTable ts (typeName t) = None"
    by (cases "kindTable ts (typeName t)") (auto dest: kindTable_Some)
  then show ?case using Cons by (simp add: ran_map_add domIff)
qed simp

lemma installs_addUnversioned [installs_intros]:
  assumes "distinct (map typeName ts)"
  shows "installs Map.empty (kindTable ts) (addUnversioned v ts)"
  unfolding installs_def
proof (intro allI impI)
  fix s assume "consistent s" "fits (kindTable ts) (unversionedKinds s)"
  then show "\<exists>s'. addUnversioned v ts s = Some s' \<and> consistent s' \<and> gvkToType s' = gvkToType s ++ Map.empty \<and>
      unversionedKinds s' = unversionedKinds s ++ kindTable ts \<and>
      dom (unversionedTypes s') \<subseteq> dom (unversionedTypes s) \<union> ran (kindTable ts)"
    using addUnversioned_run [OF assms, of s v] by (auto simp: consistent_def kindsOf_def kindTable_ran [OF assms])
qed

lemma installs_AddUnversionedTypes [installs_intros]:
  assumes "distinct (map typeName ts)" and "gvVersion v \<noteq> ''''"
  shows "installs (typeTable v ts) (kindTable ts) (AddUnversionedTypes v ts)"
proof -
  have "installs (typeTable v ts ++ Map.empty) (Map.empty ++ kindTable ts)
      (\<lambda>s. Option.bind (AddKnownTypes v ts (addObservedVersion v s)) (addUnversioned v ts))"
    using assms by (intro installs_intros) simp_all
  moreover have "AddUnversionedTypes v ts =
      (\<lambda>s. Option.bind (AddKnownTypes v ts (addObservedVersion v s)) (addUnversioned v ts))"
    by (auto simp: fun_eq_iff AddUnversionedTypes_def split: option.splits)
  ultimately show ?thesis by simp
qed

text \<open>The meta types that come with a group and version of the operator.\<close>

definition metaTable :: "GroupVersion \<Rightarrow> GroupVersionKind \<rightharpoonup> goType" where
  "metaTable gv = [WithKind gv WatchEventKind \<mapsto> metav1Type ''WatchEvent''] ++
     ([WithKind \<lparr>gvGroup = gvGroup gv, gvVersion = APIVersionInternal\<rparr> WatchEventKind \<mapsto> metav1Type ''InternalEvent''] ++
     (typeTable gv optionsTypes ++ typeTable Unversioned unversionedMeta))"

lemma fits_disjoint: "(\<And>k v w. T k = Some v \<Longrightarrow> M k = Some w \<Longrightarrow> False) \<Longrightarrow> fits T M"
  unfolding fits_def by (meson not_None_eq)

lemma map_add_SomeE: "(T ++ U) k = Some v \<Longrightarrow> U k = Some v \<or> T k = Some v"
  by (auto simp: map_add_Some_iff)

lemmas kind_names = WatchEventKind_def optionsTypes_def unversionedMeta_def metav1Type_def Unversioned_def
  APIVersionInternal_def WithKind_def apiType_def

lemma installs_AddToGroupVersion:
  assumes "gvVersion gv \<noteq> ''''" and "gvVersion gv \<noteq> APIVersionInternal" and "gvGroup gv \<noteq> ''''"
  shows "installs (metaTable gv) (kindTable unversionedMeta) (AddToGroupVersion gv)"
proof -
  have "installs (metaTable gv) (Map.empty ++ (Map.empty ++ (Map.empty ++ kindTable unversionedMeta))) (AddToGroupVersion gv)"
    unfolding AddToGroupVersion_def metaTable_def
    using assms
    by (intro installs_bind installs_known installs_AddKnownTypes installs_AddUnversionedTypes fits_disjoint)
      (auto dest!: map_add_SomeE typeTable_Some simp: kind_names split: if_splits)
  then show ?thesis by simp
qed

definition groupTable :: "goType list \<Rightarrow> GroupVersionKind \<rightharpoonup> goType" where
  "groupTable ts = typeTable GroupVersion_v1alpha1 ts ++ metaTable GroupVersion_v1alpha1"

abbreviation driverTypes :: "goType list" where
  "driverTypes \<equiv> [apiType ''Driver'', apiType ''DriverList'']"

abbreviation machineTypes :: "goType list" where
  "machineTypes \<equiv> [apiType ''Machine'', apiType ''MachineList'']"

lemma api_AddToScheme_run:
  "Must (api_AddToScheme s) =
     Option.bind (Option.bind (AddKnownTypes GroupVersion_v1alpha1 driverTypes s) (AddToGroupVersion GroupVersion_v1alpha1))
       (\<lambda>s. Option.bind (AddKnownTypes GroupVersion_v1alpha1 machineTypes s) (AddToGroupVersion GroupVersion_v1alpha1))"
  by (auto simp: api_AddToScheme_def machine_types_init_def driver_types_init_def SchemeBuilder_def Register_def
      simp del: Option.bind_assoc split: option.splits)

text \<open>Everything the API package adds.\<close>

definition apiTable :: "GroupVersionKind \<rightharpoonup> goType" where
  "apiTable = groupTable driverTypes ++ groupTable machineTypes"

lemma GroupVersion_v1alpha1_simps [simp]:
  "gvVersion GroupVersion_v1alpha1 = ''v1alpha1''" "gvGroup GroupVersion_v1alpha1 = ''docker-machine.klusters.dev''"
  by (simp_all add: GroupVersion_v1alpha1_def GroupVersionGroup_def)

lemma metaTable_Some:
  "metaTable gv g = Some t \<Longrightarrow> t \<in> set (map metav1Type [''WatchEvent'', ''InternalEvent'']) \<union> set optionsTypes \<union> set unversionedMeta \<and>
     gvkKind g \<in> insert WatchEventKind (typeName ` (set optionsTypes \<union> set unversionedMeta))"
  unfolding metaTable_def by (auto dest!: map_add_SomeE typeTable_Some split: if_splits)

lemma groupTable_Some:
  "groupTable ts g = Some t \<Longrightarrow> metaTable GroupVersion_v1alpha1 g = Some t \<or>
     t \<in> set ts \<and> g = WithKind GroupVersion_v1alpha1 (typeName t)"
  unfolding groupTable_def by (auto dest!: map_add_SomeE dest: typeTable_Some)

lemma installs_group:
  assumes "distinct (map typeName ts)"
    and "set (map typeName ts) \<inter> insert WatchEventKind (typeName ` (set optionsTypes \<union> set unversionedMeta)) = {}"
  shows "installs (groupTable ts) (kindTable unversionedMeta)
    (\<lambda>s. Option.bind (AddKnownTypes GroupVersion_v1alpha1 ts s) (AddToGroupVersion GroupVersion_v1alpha1))"
proof -
  have "fits (metaTable GroupVersion_v1alpha1) (typeTable GroupVersion_v1alpha1 ts)"
  proof (rule fits_disjoint)
    fix k v w
    assume "metaTable GroupVersion_v1alpha1 k = Some v" "typeTable GroupVersion_v1alpha1 ts k = Some w"
    then have "gvkKind k \<in> insert WatchEventKind (typeName ` (set optionsTypes \<union> set unversionedMeta))"
      "gvkKind k \<in> set (map typeName ts)"
      using metaTable_Some typeTable_Some by (blast, force)
    then show False using assms(2) by blast
  qed
  then have "installs (typeTable GroupVersion_v1alpha1 ts ++ metaTable GroupVersion_v1alpha1)
      (Map.empty ++ kindTable unversionedMeta)
      (\<lambda>s. Option.bind (AddKnownTypes GroupVersion_v1alpha1 ts s) (AddToGroupVersion GroupVersion_v1alpha1))"
    by (intro installs_bind installs_AddKnownTypes installs_AddToGroupVersion assms) (simp_all add: APIVersionInternal_def)
  then show ?thesis by (simp add: groupTable_def)
qed

lemma installs_api: "installs apiTable (kindTable unversionedMeta) (\<lambda>s. Must (api_AddToScheme s))"
proof -
  have "fits (groupTable machineTypes) (groupTable driverTypes)"
    unfolding groupTable_def fits_def map_add_def
    by (auto simp: apiType_def split: option.splits dest!: typeTable_Some)
  then have "installs apiTable (kindTable unversionedMeta ++ kindTable unversionedMeta) (\<lambda>s. Must (api_AddToScheme s))"
    unfolding api_AddToScheme_run apiTable_def
    by (intro installs_bind installs_group) (auto simp: kind_names)
  moreover have "K ++ K = K" for K :: "string \<rightharpoonup> goType"
    by (auto simp: fun_eq_iff map_add_def split: option.splits)
  ultimately show ?thesis by simp
qed

section \<open>What the operator's scheme resolves\<close>

definition apiPackage :: string where
  "apiPackage = ''go.klusters.dev/docker-machine-operator/api/v1alpha1''"

text \<open>
  What is relied on of client-go: its registration leaves a scheme whose tables agree, without
  types or kinds of the operator, and with the unversioned meta types, if at all, under their own
  names.
\<close>

definition foreign :: "Scheme \<Rightarrow> bool" where
  "foreign s \<longleftrightarrow> consistent s \<and>
     (\<forall>g t. gvkToType s g = Some t \<longrightarrow> gvkGroup g \<noteq> GroupVersionGroup \<and> PkgPath t \<noteq> apiPackage) \<and>
     (\<forall>t g. unversionedTypes s t = Some g \<longrightarrow> PkgPath t \<noteq> apiPackage) \<and>
     fits (typeTable Unversioned unversionedMeta) (gvkToType s) \<and>
     fits (kindTable unversionedMeta) (unversionedKinds s)"

lemma apiTable_Some:
  "apiTable g = Some t \<Longrightarrow>
   metaTable GroupVersion_v1alpha1 g = Some t \<or>
   t \<in> set (driverTypes @ machineTypes) \<and> g = WithKind GroupVersion_v1alpha1 (typeName t)"
  unfolding apiTable_def by (auto dest!: map_add_SomeE groupTable_Some)

lemma metaTable_pkg: "metaTable gv g = Some t \<Longrightarrow> PkgPath t \<noteq> apiPackage"
  by (auto dest!: metaTable_Some simp: optionsTypes_def unversionedMeta_def metav1Type_def apiPackage_def)

lemma typeTable_member:
  "distinct (map typeName ts) \<Longrightarrow> t \<in> set ts \<Longrightarrow> typeTable gv ts (WithKind gv (typeName t)) = Some t"
  by (induction ts) (auto simp: map_add_def dest: typeTable_Some split: option.splits)

lemma typeTable_None: "typeName t \<notin> typeName ` set ts \<Longrightarrow> typeTable gv ts (WithKind gv (typeName t)) = None"
  by (induction ts) (auto simp: map_add_def)

lemma apiType_names [simp]: "typeName (apiType n) = n"
  by (simp add: apiType_def)

lemma apiTable_types:
  assumes "t \<in> set (driverTypes @ machineTypes)"
  shows "apiTable (WithKind GroupVersion_v1alpha1 (typeName t)) = Some t"
proof -
  have "typeName t \<notin> insert WatchEventKind (typeName ` (set optionsTypes \<union> set unversionedMeta))"
    using assms by (auto simp: optionsTypes_def unversionedMeta_def metav1Type_def WatchEventKind_def)
  then have meta: "metaTable GroupVersion_v1alpha1 (WithKind GroupVersion_v1alpha1 (typeName t)) = None"
    using metaTable_Some [of GroupVersion_v1alpha1 "WithKind GroupVersion_v1alpha1 (typeName t)"]
    by (metis WithKind_fields(3) not_None_eq)
  then have group: "groupTable ts (WithKind GroupVersion_v1alpha1 (typeName t)) =
      typeTable GroupVersion_v1alpha1 ts (WithKind GroupVersion_v1alpha1 (typeName t))" for ts
    by (simp add: groupTable_def map_add_def)
  consider "t \<in> set machineTypes" | "t \<in> set driverTypes" "typeName t \<notin> typeName ` set machineTypes"
    using assms by auto
  then show ?thesis
  proof cases
    case 1
    then have "typeTable GroupVersion_v1alpha1 machineTypes (WithKind GroupVersion_v1alpha1 (typeName t)) = Some t"
      by (intro typeTable_member) simp_all
    then show ?thesis by (simp only: apiTable_def map_add_def group option.case)
  next
    case 2
    then have "typeTable GroupVersion_v1alpha1 driverTypes (WithKind GroupVersion_v1alpha1 (typeName t)) = Some t"
      by (intro typeTable_member) simp_all
    moreover have "typeTable GroupVersion_v1alpha1 machineTypes (WithKind GroupVersion_v1alpha1 (typeName t)) = None"
      using 2(2) by (rule typeTable_None)
    ultimately show ?thesis by (simp only: apiTable_def map_add_def group option.case)
  qed
qed

lemma fits_api:
  assumes "foreign s"
  shows "fits apiTable (gvkToType s)"
  unfolding fits_def
proof (intro allI impI)
  fix g t assume "apiTable g = Some t"
  then have "gvkGroup g = GroupVersionGroup \<or> typeTable Unversioned unversionedMeta g = Some t"
    by (auto dest!: apiTable_Some map_add_SomeE typeTable_Some simp: metaTable_def GroupVersion_v1alpha1_def split: if_splits)
  then show "gvkToType s g = None \<or> gvkToType s g = Some t"
    using assms unfolding foreign_def fits_def by (metis not_None_eq)
qed

text \<open>Both packages fill their scheme in the same way.\<close>

lemma run_init_eq: "run_init clientgo = server_init clientgo"
  by (simp add: run_init_def server_init_def)

lemma distinct_singleton: "set xs = {x} \<Longrightarrow> distinct xs \<Longrightarrow> xs = [x]"
  by (cases xs) (auto simp: subset_singleton_iff)

lemma server_init_resolves:
  assumes "clientgo NewScheme = Some (None, s1)" and s1: "foreign s1"
  obtains s where "server_init clientgo = Some s" "consistent s" "gvkToType s = gvkToType s1 ++ apiTable"
    "\<And>t. t \<in> set (driverTypes @ machineTypes) \<Longrightarrow>
      ObjectKinds s t = Some ([WithKind GroupVersion_v1alpha1 (typeName t)], False)"
proof -
  obtain s where s: "Must (api_AddToScheme s1) = Some s" "consistent s" "gvkToType s = gvkToType s1 ++ apiTable"
      "dom (unversionedTypes s) \<subseteq> dom (unversionedTypes s1) \<union> ran (kindTable unversionedMeta)"
    using installsD [OF installs_api, of s1] fits_api [OF s1] s1 unfolding foreign_def by metis
  have "ObjectKinds s t = Some ([WithKind GroupVersion_v1alpha1 (typeName t)], False)"
    if t: "t \<in> set (driverTypes @ machineTypes)" for t
  proof -
    have pkg: "PkgPath t = apiPackage" using t by (auto simp: apiType_def apiPackage_def)
    have "{g. gvkToType s g = Some t} = {WithKind GroupVersion_v1alpha1 (typeName t)}"
      using s1 pkg apiTable_types [OF t] apiTable_Some [of _ t] metaTable_pkg [of _ _ t]
      by (auto simp: s(3) foreign_def map_add_Some_iff)
    then have "set (kindsOf s t) = {WithKind GroupVersion_v1alpha1 (typeName t)}" "distinct (kindsOf s t)"
      using s(2) by (simp_all add: consistent_def)
    then have "kindsOf s t = [WithKind GroupVersion_v1alpha1 (typeName t)]"
      by (rule distinct_singleton)
    moreover have "unversionedTypes s t = None"
      using s(4) s1 pkg by (auto simp: foreign_def kindTable_ran unversionedMeta_def metav1Type_def apiPackage_def)
    ultimately show ?thesis by (auto simp: ObjectKinds_def kindsOf_def split: option.splits)
  qed
  then show thesis using that s assms(1) by (simp add: server_init_def)
qed

end
