(* ===== verification/Samples.thy ===== *)
theory Samples
  imports Reconcile_Safety Reconcile_Repeat Patch_Mem Server System Liveness Schema Bounds Resources Lifecycle Scheme
begin

text \<open>
  Concrete machines and environments the properties are applied to: a machine of each driver, a
  server that stores what it is sent, and services that answer with the ids they are given.
\<close>

definition sample_meta :: "gotime option \<Rightarrow> string list \<Rightarrow> smap \<Rightarrow> ObjectMeta" where
  "sample_meta deleted fins annos =
     \<lparr>Name = ''m1'', Namespace = ''ns'', Generation = 1, ResourceVersion = ''7'',
      DeletionTimestamp = deleted, Finalizers = fins, Annotations = annos\<rparr>"

definition sample_machine :: "string \<Rightarrow> ObjectMeta \<Rightarrow> condition list \<Rightarrow> string \<Rightarrow> Machine" where
  "sample_machine driver meta conds phase =
     \<lparr>Kind = ''Machine'', Meta = meta,
      Spec = \<lparr>Driver = Some driver, ScriptRef = None,
        AuthSecret = Some \<lparr>refNamespace = ''ns'', refName = ''auth''\<rparr>,
        Parameters = [(''amazonec2-region'', ''us-east-1'')]\<rparr>,
      Status = \<lparr>Conditions = conds, Phase = phase\<rparr>\<rparr>"

definition sample_secret :: secret where
  "sample_secret =
     [(''amazonec2-access-key'', ''AK''), (''amazonec2-secret-key'', ''SK''),
      (''azure-subscription-id'', ''S''), (''azure-tenant-id'', ''T''),
      (''azure-client-id'', ''C''), (''azure-client-secret'', ''X'')]"

text \<open>A server that holds one machine, answers every read with it and every write with what is sent.\<close>

definition stored_machine :: "Machine \<Rightarrow> history \<Rightarrow> call \<Rightarrow> gerr + Machine" where
  "stored_machine m h c =
     (case c of PatchStatus old new \<Rightarrow> Inr new | PatchMachine old new \<Rightarrow> Inr new
      | CreateMachine new \<Rightarrow> Inr new | _ \<Rightarrow> Inr m)"

text \<open>Commands succeed, but for the copy of the script's result.\<close>

definition sample_cmd :: "history \<Rightarrow> call \<Rightarrow> gerr option \<times> string" where
  "sample_cmd h c =
     (case c of
        RunCmd _ args \<Rightarrow>
          if args \<noteq> [] \<and> hd args = ''scp'' then (Some (ErrorString ''exit status 1''), []) else (None, [])
      | _ \<Rightarrow> (None, []))"

definition sample_env :: "Machine \<Rightarrow> env" where
  "sample_env m =
     \<lparr>env_now = (\<lambda>n h. 100), env_machine = stored_machine m,
      env_secret = (\<lambda>h c. Inr sample_secret), env_unit = (\<lambda>h c. Inr ()),
      env_text = (\<lambda>h c. Inr (''0'' @ [lf])), env_cmd = sample_cmd,
      env_id = (\<lambda>h c. Inr (Some (Some ''id-1''))),
      env_routeTables = (\<lambda>h c. Inr [\<lparr>rtVpcId = Some ''vpc-1'', rtRouteTableId = Some ''rt-1''\<rparr>]),
      env_vpcs = (\<lambda>h c. Inr [\<lparr>VpcId = Some ''vpc-1'', VpcState = Some ''available''\<rparr>]),
      env_vpc = (\<lambda>h c. Inr (Some \<lparr>VpcId = Some ''vpc-1'', VpcState = None\<rparr>)),
      env_securityGroups = (\<lambda>h c. Inr [\<lparr>GroupId = Some ''sg-1''\<rparr>])\<rparr>"

definition sample_req :: NamespacedName where
  "sample_req = \<lparr>nnNamespace = ''ns'', nnName = ''m1''\<rparr>"

definition start :: st where
  "start = \<lparr>machineObj = None, trace = [], ticks = 0\<rparr>"

definition pending_vmware :: Machine where
  "pending_vmware = sample_machine ''vmware'' (sample_meta None [] []) [] ''InProgress''"

definition pending_aws :: Machine where
  "pending_aws = sample_machine ''amazonec2'' (sample_meta None [] []) [] ''InProgress''"

definition deleted_aws :: Machine where
  "deleted_aws = sample_machine ''amazonec2''
     (sample_meta (Some 50) [''docker-machine.klusters.dev'']
       [(''docker-machine-operator/aws-vpc'', ''vpc-1''), (''docker-machine-operator/aws-subnet'', ''sn-1''),
        (''docker-machine-operator/aws-gateway'', ''gw-1'')]) [] ''Terminating''"

section \<open>Facts about the samples\<close>

lemma sample_env_simps [simp]:
  "env_machine (sample_env m) = stored_machine m" "env_secret (sample_env m) h c = Inr sample_secret"
  "env_unit (sample_env m) h c = Inr ()" "env_cmd (sample_env m) = sample_cmd"
  "env_id (sample_env m) h c = Inr (Some (Some ''id-1''))"
  by (simp_all add: sample_env_def)

lemma stored_machine_simps [simp]:
  "stored_machine m h (PatchStatus old new) = Inr new" "stored_machine m h (PatchMachine old new) = Inr new"
  "stored_machine m h (CreateMachine new) = Inr new" "stored_machine m h (GetMachine nn) = Inr m"
  by (simp_all add: stored_machine_def)

lemma sample_answers: "W m \<Longrightarrow> server_answers W (sample_env m)"
  by (auto simp: server_answers_def stored_machine_def split: call.splits)

lemma sample_server_wf: "wf_machine m \<Longrightarrow> server_wf (sample_env m)"
  unfolding server_wf_def by (rule sample_answers)

lemma sample_echoes: "echoes (sample_env m)"
  by (simp add: echoes_def)

lemma sample_sdk: "sdk_nonnil (sample_env m)"
  by (simp add: sdk_nonnil_def sample_env_def)

lemma sample_wf: "wf_machine (sample_machine d om [] p)"
  by (simp add: wf_machine_def sample_machine_def GetConditions_def wf_conditions_def)

lemmas sample_defs = pending_vmware_def pending_aws_def deleted_aws_def

lemma start_simps [simp]: "machineObj start = None" "trace start = []" "ticks start = 0"
  by (simp_all add: start_def)

lemma vmware_creates:
  "\<exists>e \<in> set (trace (snd (Reconcile (sample_env pending_vmware) sample_req start))). creates_external e"
  by code_simp

lemma aws_deletion_removes:
  "\<exists>e \<in> set (trace (snd (Reconcile (sample_env deleted_aws) sample_req start))). removes_finalizer e"
  by code_simp

text \<open>A server that rejects a machine without its required fields.\<close>

definition strict_machine :: "Machine \<Rightarrow> history \<Rightarrow> call \<Rightarrow> gerr + Machine" where
  "strict_machine m h c =
     (case stored_machine m h c of
        Inr x \<Rightarrow> if specified x then Inr x else Inl (StatusError ''Invalid'' 422 ''required field'')
      | Inl e \<Rightarrow> Inl e)"

definition strict_env :: "Machine \<Rightarrow> env" where
  "strict_env m = (sample_env m)\<lparr>env_machine := strict_machine m\<rparr>"

lemma strict_server: "server_specified (strict_env m)" and strict_sdk: "sdk_nonnil (strict_env m)"
  using sample_sdk [of m]
  by (auto simp: server_specified_def strict_env_def strict_machine_def sdk_nonnil_def split: sum.splits if_splits)

text \<open>A machine whose creation failed.\<close>

definition failing_machine :: Machine where
  "failing_machine = sample_machine ''vmware'' (sample_meta None [] [])
     [TrueCondition ''MachineCreating'',
      FalseCondition ''MachineReady'' ''MachineCreationFailed'' ''Error'' ''no'']
     ''InProgress''"

lemma failing_machine_simps [simp]:
  "GetConditions failing_machine =
     [TrueCondition ''MachineCreating'',
      FalseCondition ''MachineReady'' ''MachineCreationFailed'' ''Error'' ''no'']"
  "isDeleting failing_machine = False"
  by (simp_all add: failing_machine_def sample_machine_def GetConditions_def isDeleting_def sample_meta_def)

lemma failing_machine_wf: "wf_machine failing_machine"
  by (simp add: wf_machine_def wf_conditions_def, simp add: TrueCondition_def FalseCondition_def
      cond_key_def ConditionsOrder_def operator_condition_def cond_consts type_consts)

lemma failing_machine_in_scope: "\<exists>c \<in> set (GetConditions failing_machine). cType c \<in> set ConditionsOrder"
  by (simp add: ConditionsOrder_def type_consts) (simp add: FalseCondition_def)

lemma vmware_patches_status:
  "\<exists>old new r. Ev (PatchStatus old new) r \<in> set (trace (snd (Reconcile (sample_env pending_vmware) sample_req start)))"
proof -
  have "\<exists>e \<in> set (trace (snd (Reconcile (sample_env pending_vmware) sample_req start))).
      case evCall e of PatchStatus _ _ \<Rightarrow> True | _ \<Rightarrow> False"
    by code_simp
  then obtain e where e: "e \<in> set (trace (snd (Reconcile (sample_env pending_vmware) sample_req start)))"
    "case evCall e of PatchStatus _ _ \<Rightarrow> True | _ \<Rightarrow> False" by blast
  obtain c r where "e = Ev c r" by (cases e)
  with e show ?thesis by (cases c) auto
qed

definition new_machine :: Machine where
  "new_machine = sample_machine ''vmware'' (sample_meta None [] []) [] ''''"

definition ready_machine :: Machine where
  "ready_machine = sample_machine ''vmware'' (sample_meta None [''docker-machine.klusters.dev''] [])
     [TrueCondition ''MachineReady''] ''InProgress''"

lemma ready_awaits: "awaits_script ''vmware'' ready_machine"
  by (simp add: awaits_script_def ready_machine_def sample_machine_def sample_meta_def wf_machine_def wf_conditions_def
      GetConditions_def isDeleting_def ContainsFinalizer_def TrueCondition_def operator_condition_def type_consts phase_consts
      ConditionsOrder_def ConditionTrue_def ConditionFalse_def ConditionSeverityNone_def GetFinalizer_def GroupVersionGroup_def)

text \<open>The script of the ready machine has ended: its result file can be copied and holds a number.\<close>

definition finished_env :: "int \<Rightarrow> env" where
  "finished_env i = (sample_env ready_machine)
     \<lparr>env_text := (\<lambda>h c. Inr (strconv_Itoa i @ [lf])), env_cmd := (\<lambda>h c. (None, []))\<rparr>"

lemma finished_env_simps:
  "echoes (finished_env i)" "env_machine (finished_env i) h (GetMachine nn) = Inr ready_machine"
  "env_text (finished_env i) h c = Inr (strconv_Itoa i @ [lf])" "env_unit (finished_env i) h c = Inr ()"
  "env_cmd (finished_env i) h c = (None, [])"
  by (simp_all add: finished_env_def echoes_def)

definition absent_env :: "gerr \<Rightarrow> env" where
  "absent_env e = (sample_env new_machine)\<lparr>env_machine := (\<lambda>h c. Inl e)\<rparr>"

definition the_ok :: "('a \<times> 'b) res \<times> st \<Rightarrow> 'a \<times> 'b" where
  "the_ok r = (case fst r of Ok x \<Rightarrow> x | _ \<Rightarrow> undefined)"

lemma ready_machine_run:
  "Reconcile (sample_env ready_machine) sample_req start =
     (Ok (fst (the_ok (Reconcile (sample_env ready_machine) sample_req start)),
          snd (the_ok (Reconcile (sample_env ready_machine) sample_req start))),
      snd (Reconcile (sample_env ready_machine) sample_req start))"
proof -
  have "(case fst (Reconcile (sample_env ready_machine) sample_req start) of Ok _ \<Rightarrow> True | _ \<Rightarrow> False)"
    by code_simp
  then show ?thesis
    by (cases "Reconcile (sample_env ready_machine) sample_req start";
        cases "fst (Reconcile (sample_env ready_machine) sample_req start)") (auto simp: the_ok_def)
qed

lemma vmware_patches_metadata:
  "\<exists>cur modified r. Ev (PatchMachine cur modified) r \<in>
     set (trace (snd (Reconcile (sample_env pending_vmware) sample_req start)))"
proof -
  have "\<exists>e \<in> set (trace (snd (Reconcile (sample_env pending_vmware) sample_req start))).
      case evCall e of PatchMachine _ _ \<Rightarrow> True | _ \<Rightarrow> False"
    by code_simp
  then obtain e where e: "e \<in> set (trace (snd (Reconcile (sample_env pending_vmware) sample_req start)))"
    "case evCall e of PatchMachine _ _ \<Rightarrow> True | _ \<Rightarrow> False" by blast
  obtain c r where "e = Ev c r" by (cases e)
  with e show ?thesis by (cases c) auto
qed

lemma aws_uses_ec2:
  "\<exists>c x r. Ev (EC2 c x) r \<in> set (trace (snd (Reconcile (sample_env pending_aws) sample_req start)))"
proof -
  have "\<exists>e \<in> set (trace (snd (Reconcile (sample_env pending_aws) sample_req start))).
      case evCall e of EC2 _ _ \<Rightarrow> True | _ \<Rightarrow> False"
    by code_simp
  then obtain e where e: "e \<in> set (trace (snd (Reconcile (sample_env pending_aws) sample_req start)))"
    "case evCall e of EC2 _ _ \<Rightarrow> True | _ \<Rightarrow> False" by blast
  obtain c r where "e = Ev c r" by (cases e)
  with e show ?thesis by (cases c) auto
qed

text \<open>AWS services that refuse a step.\<close>

definition sample_creds :: awsAuthCredential where
  "sample_creds = \<lparr>accessKey = ''AK'', secretKey = ''SK'', region = ''us-east-1''\<rparr>"

definition no_attach_env :: env where
  "no_attach_env = (sample_env pending_aws)\<lparr>env_unit := (\<lambda>h c.
     case c of EC2 _ x \<Rightarrow> (case x of AttachInternetGateway _ _ \<Rightarrow> Inl (ServiceError ''denied'') | _ \<Rightarrow> Inr ())
     | _ \<Rightarrow> Inr ())\<rparr>"

definition no_vpc_env :: env where
  "no_vpc_env = (sample_env pending_aws)\<lparr>env_vpcs := (\<lambda>h c. Inl (ServiceError ''InvalidVpcID.NotFound''))\<rparr>"

text \<open>A new VPC is recorded in the annotation, and then no subnet can be created in it.\<close>

definition no_subnet_env :: env where
  "no_subnet_env = (sample_env pending_aws)\<lparr>env_id := (\<lambda>h c.
     case c of EC2 _ x \<Rightarrow> (case x of CreateSubnet _ _ _ \<Rightarrow> Inl (ServiceError ''quota'') | _ \<Rightarrow> Inr (Some (Some ''id-1'')))
     | _ \<Rightarrow> Inr (Some (Some ''id-1'')))\<rparr>"

definition annotated_aws :: Machine where
  "annotated_aws = sample_machine ''amazonec2'' (sample_meta None [] [(''docker-machine-operator/aws-vpc'', ''vpc-1'')])
     [] ''InProgress''"

lemma no_subnet_refuses: "env_id no_subnet_env h (EC2 c (CreateSubnet cidr v z)) = Inl (ServiceError ''quota'')"
  by (simp add: no_subnet_env_def)

lemma annotated_vpc_run:
  "obtainVpc no_subnet_env sample_creds (start\<lparr>machineObj := Some pending_aws\<rparr>) =
     (Ok \<lparr>VpcId = Some ''vpc-1'', VpcState = None\<rparr>,
      snd (obtainVpc no_subnet_env sample_creds (start\<lparr>machineObj := Some pending_aws\<rparr>)))"
proof -
  have "(case fst (obtainVpc no_subnet_env sample_creds (start\<lparr>machineObj := Some pending_aws\<rparr>)) of
      Ok v \<Rightarrow> v = \<lparr>VpcId = Some ''vpc-1'', VpcState = None\<rparr> | _ \<Rightarrow> False)" by code_simp
  then show ?thesis
    by (cases "obtainVpc no_subnet_env sample_creds (start\<lparr>machineObj := Some pending_aws\<rparr>)") (auto split: res.splits)
qed

lemma annotated_anno: "anno annotated_aws awsVPCIDAnnotation = ''vpc-1''" "anno annotated_aws awsSubnetIDAnnotation = ''''"
  "param annotated_aws regionParameter = ''us-east-1''"
  by (simp_all add: annotated_aws_def sample_machine_def sample_meta_def awsVPCIDAnnotation_def awsSubnetIDAnnotation_def
      regionParameter_def mget_def)

lemma annotated_specified: "specified annotated_aws"
  by (simp add: specified_def annotated_aws_def sample_machine_def)

lemma no_subnet_works: "aws_works no_subnet_env annotated_aws"
proof -
  have "secret_has no_subnet_env annotated_aws [awsAccessKeyField, awsSecretKeyField]"
    by (simp add: secret_has_def no_subnet_env_def) (simp add: annotated_aws_def sample_machine_def sample_secret_def
        awsAccessKeyField_def awsSecretKeyField_def mget_def)
  moreover have "sdk_nonnil no_subnet_env"
    by (auto simp: sdk_nonnil_def no_subnet_env_def sample_env_def split: call.splits ec2call.splits)
  ultimately show ?thesis
    by (simp add: aws_works_def) (simp add: no_subnet_env_def sample_env_def annotated_aws_def sample_machine_def
        awsRegionField_def mget_def)
qed

definition google_machine :: Machine where
  "google_machine = sample_machine ''google'' (sample_meta None [] []) [] ''InProgress''"

definition no_create_env :: env where
  "no_create_env = (sample_env pending_vmware)\<lparr>env_cmd := (\<lambda>h c. (Some (ErrorString ''exit status 1''), ''quota''))\<rparr>"

text \<open>A server whose reads of all machines but one fail.\<close>

definition flaky_env :: env where
  "flaky_env = (sample_env pending_vmware)\<lparr>env_machine := (\<lambda>h c.
     if c = GetMachine sample_req then Inr pending_vmware else Inl (StatusError ''InternalError'' 500 ''etcd''))\<rparr>"

section \<open>A machine in memory and a start-up that works\<close>

definition heap_machine :: Machine where
  "heap_machine = sample_machine ''vmware'' (sample_meta None [''other'', GetFinalizer] [(''k'', ''v'')]) [] ''InProgress''"

text \<open>The machine at address 0, with a third, unused place in the array of its finalizers.\<close>

definition sample_heap :: heap where
  "sample_heap =
     \<lparr>hcells = (\<lambda>a. if a < 6 then Some ([
        CMachine \<lparr>moKind = ''Machine'',
          moMeta = \<lparr>mmName = ''m1'', mmNamespace = ''ns'', mmGeneration = 1, mmResourceVersion = ''7'',
            mmDeletionTimestamp = None, mmFinalizers = Some \<lparr>slArray = 1, slLen = 2\<rparr>, mmAnnotations = Some 2\<rparr>,
          moSpec = \<lparr>msDriver = Some 3, msScriptRef = None, msAuthSecret = Some 4, msParameters = Some 5\<rparr>,
          moStatus = \<lparr>mtConditions = None, mtPhase = ''InProgress''\<rparr>\<rparr>,
        CStrings [''other'', GetFinalizer, ''old''], CMap [(''k'', ''v'')], CName ''vmware'',
        CRef \<lparr>refNamespace = ''ns'', refName = ''auth''\<rparr>, CMap [(''amazonec2-region'', ''us-east-1'')]] ! a) else None),
      hlimit = 6\<rparr>"

lemma sample_heap_ok: "heap_ok sample_heap"
  by (simp add: heap_ok_def sample_heap_def)

lemma sample_heap_repr: "pointer_repr selMachine machine_repr sample_heap (Some 0) (Some heap_machine)"
  by (simp add: sample_heap_def heap_machine_def sample_machine_def sample_meta_def pointer_repr_def machine_repr_def
      meta_repr_def spec_repr_def status_repr_def load_def ptr_val_def map_val_def slice_val_def)

text \<open>Versions and constraints as plain strings, a constraint being met by the version it spells.\<close>

definition sample_semver :: "(string, string) semver" where
  "sample_semver = \<lparr>sv_NewConstraint = Inr, sv_NewVersion = Inr, sv_Check = (=), sv_quoteVersion = id, sv_quoteConstraint = id\<rparr>"

definition sample_version :: version where
  "sample_version = \<lparr>Version = ''v1'', VersionStrategy = ''tag'', CommitHash = ''c'', GitBranch = ''b'', GitTag = ''v1'',
     CommitTimestamp = ''t'', GoVersion = '''', Compiler = '''', Platform = ''''\<rparr>"

definition sample_senv :: senv where
  "sample_senv = \<lparr>se_call = (\<lambda>step. if step = AddReadyzCheck ''readyz'' then Some (ErrorString ''taken'') else None),
     se_float32 = (\<lambda>x. x)\<rparr>"

section \<open>A system with one docker machine\<close>

definition owned_vmware :: Machine where
  "owned_vmware = sample_machine ''vmware'' (sample_meta None [''docker-machine.klusters.dev''] []) [] ''InProgress''"

definition sample_sys :: "string set \<Rightarrow> sys" where
  "sample_sys D = \<lparr>store = (\<lambda>nn. if nn = sample_req then Some owned_vmware else None), dockers = D\<rparr>"

text \<open>
  Events the system serves while users put the object back to what it was, and the run up to
  its create command.
\<close>

fun served_event :: "event \<Rightarrow> bool" where
  "served_event (Ev (GetMachine nn) (Inr (RMachine m))) = (nn = sample_req \<and> m = owned_vmware)"
| "served_event (Ev (PatchStatus old new) (Inr (RMachine m))) =
     (m = new \<and> key_of new = sample_req \<and> Finalizers (Meta new) = Finalizers (Meta owned_vmware))"
| "served_event (Ev c r) = plain_call c"

definition creating_run :: history where
  "creating_run = dropWhile (\<lambda>e. \<not> creates_external e)
     (trace (snd (Reconcile (sample_env owned_vmware) sample_req start)))"

lemma creating_run_suffix: "suffix creating_run (trace (snd (Reconcile (sample_env owned_vmware) sample_req start)))"
  unfolding creating_run_def by (rule suffix_dropWhile)

lemma creating_run_served:
  "(case creating_run of
      [] \<Rightarrow> False
    | e # h \<Rightarrow> (case evCall e of RunCmd t args \<Rightarrow> is_create args \<and> last args = ''m1'' | _ \<Rightarrow> False) \<and> list_all served_event h)"
  by code_simp

lemma owned_facts: "key_of owned_vmware = sample_req" "ContainsFinalizer owned_vmware GetFinalizer"
  by code_simp+

lemma outside_sample:
  "outside w (sample_sys D)" if "dockers w = D" "\<And>nn. fin_at w nn \<Longrightarrow> nn = sample_req"
  using that owned_facts by (auto simp: outside_def fin_at_def sample_sys_def)

lemma dockers_sample: "dockers (sample_sys D) = D"
  and store_sample: "store (sample_sys D) nn = (if nn = sample_req then Some owned_vmware else None)"
  by (simp_all add: sample_sys_def)

lemma fin_at_sample: "fin_at (sample_sys D) nn \<longleftrightarrow> nn = sample_req"
  using owned_facts by (simp add: fin_at_def sample_sys_def)

lemma served_event_cases:
  assumes "served_event e"
  obtains (plain) c r where "e = Ev c r" "plain_call c"
    | (read) "e = Ev (GetMachine sample_req) (Inr (RMachine owned_vmware))"
    | (status) old new where "e = Ev (PatchStatus old new) (Inr (RMachine new))" "key_of new = sample_req"
        "Finalizers (Meta new) = Finalizers (Meta owned_vmware)"
  using assms by (cases e rule: served_event.cases) auto

lemma served_event_serves:
  assumes "served_event e"
  shows "\<exists>w. serves (sample_sys D) e w \<and> outside w (sample_sys D)"
  using assms
proof (cases rule: served_event_cases)
  case (status old new)
  have "serves (sample_sys D) e (put (sample_sys D) (key_of new) new)" unfolding status(1)
    by (rule serves.status_patched [where m = owned_vmware])
      (use status in \<open>simp_all add: store_sample acknowledges_def\<close>)
  moreover have "outside (put (sample_sys D) (key_of new) new) (sample_sys D)"
    by (rule outside_sample) (use status in \<open>auto simp: dockers_sample fin_at_sample split: if_splits\<close>)
  ultimately show ?thesis by blast
qed (use owned_facts(1) outside_refl in \<open>force intro: serves.intros simp: store_sample\<close>)+

lemma replays_served: "list_all served_event h \<Longrightarrow> replays (sample_sys D) h (sample_sys D)"
proof (induction h)
  case Nil
  show ?case by (rule replays.start [OF outside_refl])
next
  case (Cons e h)
  then show ?case using served_event_serves [of e D] by (auto intro: replays.step)
qed

lemma replays_creating: "replays (sample_sys {}) creating_run (sample_sys {''m1''})"
proof -
  obtain t args r h where run: "creating_run = Ev (RunCmd t args) r # h" "is_create args" "last args = ''m1''"
    "list_all served_event h"
    using creating_run_served by (auto split: list.splits call.splits) (metis event.collapse)
  have "serves (sample_sys {}) (Ev (RunCmd t args) r) (sample_sys {''m1''})"
    using serves.command_create [OF run(2), of "sample_sys {}" "{''m1''}" t r] run(3) by (simp add: sample_sys_def)
  then show ?thesis unfolding run(1) by (rule replays.step [OF replays_served [OF run(4)] _ outside_refl])
qed

lemma sample_reachable: "reachable (sample_sys {''m1''})"
proof -
  have "reachable (sample_sys {})"
    by (rule reachable.users [OF reachable.empty]) (rule outside_sample, simp_all add: fin_at_def)
  then show ?thesis by (rule reachable.run [OF _ _ creating_run_suffix replays_creating]) simp
qed

lemma deleted_aws_server: "server_keeps (sample_env deleted_aws) nn deleted_aws"
  unfolding server_keeps_def by (simp add: version_of_def) (simp add: deleted_aws_def sample_machine_def)

lemma deleted_aws_cleanup: "cleanup_works (sample_env deleted_aws) deleted_aws"
proof -
  have "secret_has (sample_env deleted_aws) deleted_aws [awsAccessKeyField, awsSecretKeyField]"
    by (simp add: secret_has_def) (simp add: deleted_aws_def sample_machine_def sample_secret_def
        awsAccessKeyField_def awsSecretKeyField_def mget_def)
  then show ?thesis
    by (simp add: cleanup_works_def removal_works_def aws_works_def sample_sdk sample_cmd_def IgnoreNotFound_def)
      (simp add: sample_env_def deleted_aws_def sample_machine_def awsRegionField_def mget_def AzureDriver_def)
qed

section \<open>More samples\<close>

lemma sample_own: "p \<in> set declaredPhases \<Longrightarrow> own_machine (sample_machine d om [] p)"
  by (simp add: own_machine_def specified_def sample_machine_def GetConditions_def wf_conditions_def)

lemma sample_phase: "''InProgress'' \<in> set declaredPhases"
  by (simp add: declaredPhases_def MachinePhaseInProgress_def)

lemma aws_fills_vpc:
  "\<exists>e \<in> set (trace (snd (Reconcile (sample_env pending_aws) sample_req start))). fills ''vpc-1'' e"
  by code_simp

text \<open>A server that refuses every patch.\<close>

definition no_patch_env :: env where
  "no_patch_env = (sample_env pending_aws)\<lparr>env_machine := (\<lambda>h c.
     case c of PatchMachine _ _ \<Rightarrow> Inl (StatusError ''Conflict'' 409 ''m1'') | _ \<Rightarrow> Inr pending_aws)\<rparr>"

text \<open>A client library that registers the secrets of the core group.\<close>

definition core_clientgo :: registrar where
  "core_clientgo s = map_option (Pair None)
     (AddKnownTypes Unversioned [\<lparr>PkgPath = ''k8s.io/api/core/v1'', typeName = ''Secret''\<rparr>] s)"

lemma consistent_NewScheme: "consistent NewScheme"
  by (simp add: consistent_def NewScheme_def kindsOf_def)

lemma core_clientgo_foreign:
  obtains s1 where "core_clientgo NewScheme = Some (None, s1)" "foreign s1"
proof -
  let ?ts = "[\<lparr>PkgPath = ''k8s.io/api/core/v1'', typeName = ''Secret''\<rparr>]"
  have i: "installs (typeTable Unversioned ?ts) Map.empty (AddKnownTypes Unversioned ?ts)"
    by (rule installs_AddKnownTypes) (simp_all add: Unversioned_def)
  obtain s1 where s1: "AddKnownTypes Unversioned ?ts NewScheme = Some s1" "consistent s1"
      "gvkToType s1 = gvkToType NewScheme ++ typeTable Unversioned ?ts"
      "unversionedKinds s1 = unversionedKinds NewScheme ++ Map.empty"
      "dom (unversionedTypes s1) \<subseteq> dom (unversionedTypes NewScheme) \<union> ran Map.empty"
    using installsD [OF i consistent_NewScheme] by (auto simp: NewScheme_def)
  have "fits (typeTable Unversioned unversionedMeta) (gvkToType s1)"
    by (rule fits_disjoint) (auto simp: s1(3) NewScheme_def unversionedMeta_def metav1Type_def dest!: typeTable_Some split: if_splits)
  then have "foreign s1"
    using s1 by (auto simp: foreign_def NewScheme_def apiPackage_def GroupVersionGroup_def Unversioned_def WithKind_def split: if_splits)
  then show thesis using that s1(1) by (simp add: core_clientgo_def)
qed

text \<open>
  The same cells, with a list of one machine at address 6: its only element shares the references
  of the machine at address 0.
\<close>

definition heap_struct :: memMachine where
  "heap_struct = \<lparr>moKind = ''Machine'',
     moMeta = \<lparr>mmName = ''m1'', mmNamespace = ''ns'', mmGeneration = 1, mmResourceVersion = ''7'',
       mmDeletionTimestamp = None, mmFinalizers = Some \<lparr>slArray = 1, slLen = 2\<rparr>, mmAnnotations = Some 2\<rparr>,
     moSpec = \<lparr>msDriver = Some 3, msScriptRef = None, msAuthSecret = Some 4, msParameters = Some 5\<rparr>,
     moStatus = \<lparr>mtConditions = None, mtPhase = ''InProgress''\<rparr>\<rparr>"

definition heap_list :: MachineList where
  "heap_list = \<lparr>MachineListKind = ''MachineList'',
     MachineListMeta = \<lparr>ListResourceVersion = ''8'', Continue = '''', RemainingItemCount = None\<rparr>,
     MachineItems = [heap_machine]\<rparr>"

definition list_heap :: heap where
  "list_heap = sample_heap\<lparr>hcells := (hcells sample_heap)(
       6 \<mapsto> CList \<lparr>mlKind = ''MachineList'',
         mlMeta = \<lparr>mlResourceVersion = ''8'', mlContinue = '''', mlRemainingItemCount = None\<rparr>,
         mlItems = Some \<lparr>slArray = 7, slLen = 1\<rparr>\<rparr>,
       7 \<mapsto> CMachines [heap_struct]), hlimit := 8\<rparr>"

lemma list_heap_ok: "heap_ok list_heap"
  by (simp add: heap_ok_def list_heap_def sample_heap_def)

lemma list_heap_struct: "machine_repr list_heap heap_struct heap_machine"
  by (simp add: list_heap_def sample_heap_def heap_struct_def heap_machine_def sample_machine_def sample_meta_def machine_repr_def
      meta_repr_def spec_repr_def status_repr_def load_def ptr_val_def map_val_def slice_val_def)

lemma list_heap_machine: "pointer_repr selMachine machine_repr list_heap (Some 0) (Some heap_machine)"
proof -
  have "load selMachine list_heap 0 = Some heap_struct"
    by (simp add: list_heap_def sample_heap_def load_def heap_struct_def)
  then show ?thesis using list_heap_struct by (simp add: pointer_repr_def)
qed

lemma list_heap_list: "pointer_repr selList machineList_repr list_heap (Some 6) (Some heap_list)"
proof -
  have "slice_val selMachines list_heap (Some \<lparr>slArray = 7, slLen = 1\<rparr>) = Some [heap_struct]"
    by (simp add: slice_val_def load_def list_heap_def)
  then show ?thesis using list_heap_struct
    by (simp add: pointer_repr_def load_def list_heap_def [unfolded sample_heap_def] heap_list_def machineList_repr_def
        listMeta_repr_def structs_repr_def ptr_val_def)
qed

end
