(* ===== verification/Spec2Isabelle.thy ===== *)
theory Spec2Isabelle
  imports Samples
begin

text \<open>
  \<^bold>\<open>docker-machine-operator: a verification development.\<close>

  The program is a Kubernetes operator that turns \<^verbatim>\<open>Machine\<close> objects into virtual machines by
  running the \<^verbatim>\<open>docker-machine\<close> binary, prepares and tears down the cloud resources they need,
  and reports the outcome of a startup script. Its own code is \<^verbatim>\<open>src/api/v1alpha1\<close> (the
  resources, their conditions and phases), \<^verbatim>\<open>src/pkg/controller\<close> (the reconcilers) and
  \<^verbatim>\<open>src/pkg/cmds\<close>, \<^verbatim>\<open>src/cmd\<close> (start-up).

  \<^bold>\<open>How the parts interact.\<close> The controller runtime calls \<^verbatim>\<open>Reconcile\<close> with the key of a
  machine. A run reads the machine into the field \<^verbatim>\<open>machineObj\<close>; a machine without a phase only
  gets its first status; a machine marked for deletion is cleaned up (files, docker machine, AWS
  or Azure resources) and then loses the finalizer; any other machine gets the finalizer, then is
  created once (prerequisites, arguments, command), and then the result file of its script is
  copied and read. Conditions on the object at hand record the progress; the vendored condition
  library merges them into the \<^verbatim>\<open>Ready\<close> condition from which the phase is computed, and the
  status is patched when it changed.

  \<^bold>\<open>Theories.\<close>
    \<^item> \<^verbatim>\<open>Prelude\<close>: collections of rules, maps as association lists, list lemmas.
    \<^item> \<^verbatim>\<open>Go_Lib\<close>: what the source uses of Go's library: errors, \<^verbatim>\<open>sort\<close>, \<^verbatim>\<open>strconv\<close>,
      \<^verbatim>\<open>bufio.Scanner\<close> on lines, base64, \<^verbatim>\<open>os.IsExist\<close> and its kin.
    \<^item> \<^verbatim>\<open>Conditions\<close>: the vendored \<^verbatim>\<open>conditions\<close> package (\<^verbatim>\<open>Get\<close>, \<^verbatim>\<open>Set\<close>, \<^verbatim>\<open>summary\<close>,
      \<^verbatim>\<open>merge\<close>); the locale \<^verbatim>\<open>condition_store\<close> and its interpretation.
    \<^item> \<^verbatim>\<open>Api\<close>: \<^verbatim>\<open>Machine\<close>, \<^verbatim>\<open>Driver\<close>, names, \<^verbatim>\<open>GetPhase\<close>, finalizer lists and not-found
      errors; the locale \<^verbatim>\<open>finalizer_list\<close>.
    \<^item> \<^verbatim>\<open>World\<close>: calls, replies, the environment, computations and the logic of traces; the
      locale \<^verbatim>\<open>guard\<close> of events that must be preceded by something.
    \<^item> \<^verbatim>\<open>Kube\<close>: secrets, conditions on the object at hand, status updates, finalizer and
      annotation patches (\<^verbatim>\<open>util.go\<close>, vendored \<^verbatim>\<open>CreateOrPatch\<close> and \<^verbatim>\<open>committer\<close>).
    \<^item> \<^verbatim>\<open>Poll\<close>: \<^verbatim>\<open>waitForState\<close>; the locale \<^verbatim>\<open>prober\<close>.
    \<^item> \<^verbatim>\<open>Aws\<close>, \<^verbatim>\<open>Azure\<close>: \<^verbatim>\<open>aws.go\<close>, \<^verbatim>\<open>aws_region.go\<close>, \<^verbatim>\<open>azure.go\<close>.
    \<^item> \<^verbatim>\<open>Machine_Ops\<close>: \<^verbatim>\<open>machine.go\<close>. \<^verbatim>\<open>Cluster\<close>: \<^verbatim>\<open>cluster.go\<close>. \<^verbatim>\<open>Cleanup\<close>: the deletion
      part of \<^verbatim>\<open>util.go\<close>.
    \<^item> \<^verbatim>\<open>Reconcile\<close>: \<^verbatim>\<open>machine_controller.go\<close>, \<^verbatim>\<open>driver_controller.go\<close>.
    \<^item> \<^verbatim>\<open>Invariants\<close>: what keeps an invariant of the state through a run, as locales:
      \<^verbatim>\<open>core_invariant\<close> and \<^verbatim>\<open>full_invariant\<close> reduce a whole run to the few operations that touch
      the object at hand, the API server or AWS, \<^verbatim>\<open>run_invariant\<close> adds the AWS operations, and
      \<^verbatim>\<open>machine_predicate\<close> gives the laws for predicates on machines.
    \<^item> \<^verbatim>\<open>Reconcile_Safety\<close> and \<^verbatim>\<open>Reconcile_Repeat\<close>: what holds of whole runs; \<^verbatim>\<open>Schema\<close>: the
      validation markers of \<^verbatim>\<open>machine_types.go\<close> and that a run keeps to them; \<^verbatim>\<open>Bounds\<close>: how
      long a run sleeps; \<^verbatim>\<open>Resources\<close>: which VPC the cloud resources of a run are put into. The
      invariants of these theories are interpretations of the locales of \<^verbatim>\<open>Invariants\<close>.
    \<^item> \<^verbatim>\<open>Liveness\<close>: total correctness of the cleanup, and of the rollback after a failed subnet.
    \<^item> \<^verbatim>\<open>Lifecycle\<close>: the end of a machine's way through the phases, from the copy of the script's
      result to the phase the status shows.
    \<^item> \<^verbatim>\<open>System\<close>: the store of the API server, the docker machines, users and crashes around the
      runs; reachability and its invariant.
    \<^item> \<^verbatim>\<open>Go_Mem\<close>, \<^verbatim>\<open>Deep_Copy\<close>, \<^verbatim>\<open>Patch_Mem\<close>: an explicit heap, the generated
      copies (\<^verbatim>\<open>zz_generated.deepcopy.go\<close>) and the patch closures that change objects in place;
      the locale \<^verbatim>\<open>copier\<close> and its interpretations on every type and list.
    \<^item> \<^verbatim>\<open>Scheme\<close>: the type tables of the vendored \<^verbatim>\<open>runtime.Scheme\<close>, scheme builders, and the
      \<^verbatim>\<open>init\<close> functions that register the API types (\<^verbatim>\<open>groupversion_info.go\<close>, \<^verbatim>\<open>*_types.go\<close>,
      \<^verbatim>\<open>server.go\<close>, \<^verbatim>\<open>run.go\<close>).
    \<^item> \<^verbatim>\<open>Server\<close>: options, flags, the start-up and the version (\<^verbatim>\<open>server.go\<close>, \<^verbatim>\<open>run.go\<close>,
      \<^verbatim>\<open>root.go\<close>, \<^verbatim>\<open>main.go\<close>, \<^verbatim>\<open>version.go\<close>).
    \<^item> \<^verbatim>\<open>Samples\<close>: concrete environments and machines for the witnesses.

  \<^bold>\<open>The model.\<close> A Go method of the reconciler is a computation: a function from the state \<^typ>\<open>st\<close>
  (the object at hand, the trace of calls, a count of clock readings) to an outcome and a state.
  The outcomes are a value, an error, a panic (a nil pointer was dereferenced) and not returning.
  What lies outside the process (API server, commands, files, AWS, Azure, clock) is an argument
  \<^typ>\<open>env\<close>: total functions of the whole history and the call, so nothing is assumed of them
  but what a theorem names: \<^verbatim>\<open>server_wf\<close> and \<^verbatim>\<open>server_specified\<close> (the server answers with
  machines that have the fields the schema requires and well-formed conditions when it was sent
  such), \<^verbatim>\<open>sdk_nonnil\<close> (the AWS SDK sets the ids of what it returns), \<^verbatim>\<open>echoes\<close> (the
  server stores what it is sent) and \<^verbatim>\<open>server_answers own_machine\<close> (the status is written by the
  operator alone). The registration of client-go's types is an argument too, with the hypothesis
  \<^verbatim>\<open>foreign\<close> (it registers no types of the operator); the command-line and version libraries are
  arguments without a hypothesis. Pointers are options, maps are association lists in some
  iteration order (theorems hold for every list, so for every order), strings are lists of bytes,
  times are seconds and durations are nanoseconds wrapped at 64 bits. Logging is left out, except
  that it dereferences what the source dereferences.

  \<^bold>\<open>Fuel.\<close> The only loop that could run forever is the one of \<^verbatim>\<open>waitForState\<close>, whose 64-bit counter
  may wrap. It runs with limit/pause + 2 rounds of fuel, and running out is the outcome
  \<^verbatim>\<open>Hang\<close>; \<^verbatim>\<open>waiting_ends\<close> shows that it does not happen when the counter does not wrap, and
  \<^verbatim>\<open>reconcile_panics_iff\<close> that it does not happen in a run.

  \<^bold>\<open>What is shown.\<close> The first section is about the system of all runs: no docker machine is ever
  without an object that has the finalizer, whatever crashes and users do, and a deletion run
  removes the finalizer when the few calls it depends on succeed. The sections on runs of
  \<^verbatim>\<open>Reconcile\<close> show the order of finalizer, creation and cleanup, what a run may patch, when it
  panics, which phases it writes, that what it writes fits the schema of the resource and when it
  asks to be repeated. The condition library is shown
  to compute its direct specifications. Then follow the cloud resources (the order
  of their teardown, that they go only into a recorded VPC, how long a run waits), creation and its
  arguments, the script's result and the phase it leads to, status and metadata operations with the error paths that do
  something other than they seem to, the independence of deep copies and in-place patches, the
  types the scheme resolves, and the start-up with the exit status of the process.

  \<^bold>\<open>The system.\<close> The theory \<^verbatim>\<open>System\<close> takes reads to be of the current store (the manager's
  cache is up to date), the error of a command never to be a not-found error of the API, and one
  run at a time (the controllers are built with the default of one worker). Writes that were
  answered with an error may have taken effect.

  \<^bold>\<open>Not modelled.\<close> The controller runtime, the API server, the cloud SDKs and the
  \<^verbatim>\<open>docker-machine\<close> binary (the environment); logging; the cancellation of contexts (a command
  that is killed by its timeout is a command that returns an error); calls that block forever;
  the test suite, \<^verbatim>\<open>hack/import_hacks.go\<close>, and the conversion and default functions of a scheme. The
  reading and comparing of versions by the semver library is an argument of the version command. Of the vendored condition library the mirror and aggregate operations are left out, as the operator
  does not use them.
\<close>

section \<open>The system\<close>

text \<open>C1. No docker machine is ever orphaned: in every state the system can reach, from nothing, by
  runs of the reconciler that may be cut off after any call, with users changing and deleting
  machines between any two calls, every docker machine that may exist has a machine object of
  its name in the API server that carries the operator's finalizer. So a machine object cannot
  disappear before its docker machine. A write of the server that failed may have taken effect,
  and a create command may leave a machine behind whatever it returned.\<close>

theorem docker_machines_have_owners:
  assumes "reachable w" and "n \<in> dockers w"
  shows "\<exists>nn m. nnName nn = n \<and> store w nn = Some m \<and> ContainsFinalizer m GetFinalizer"
  using reachable_no_orphans [OF assms(1)] assms(2) by (auto simp: no_orphans_def fin_at_def)

theorem docker_machines_have_owners_witness:
  "reachable (sample_sys {''m1''}) \<and>
   (\<exists>nn m. nnName nn = ''m1'' \<and> store (sample_sys {''m1''}) nn = Some m \<and> ContainsFinalizer m GetFinalizer)"
  using docker_machines_have_owners [OF sample_reachable, of "''m1''"] sample_reachable
  by (simp add: dockers_sample)

text \<open>C2. Deletion gets done: for a machine that is marked for deletion and has the finalizer, a run
  returns without an error and its last call is the accepted patch that takes the finalizer
  away, whatever the driver. Of the outside it takes a server that accepts the patches, a
  \<^verbatim>\<open>docker-machine rm\<close> without an error, and for AWS that a session opens, the security
  groups can be listed and the VPC is deleted or gone, for Azure that the resource group is
  deleted; every other call (routes, gateway, subnet, groups, missing files) may fail.\<close>

theorem deletion_completes:
  assumes "server_keeps env (key_of m) m" and "cleanup_works env m" and "specified m"
    and "isDeleting m" and "ContainsFinalizer m GetFinalizer"
  shows "\<exists>t cur m' h. Reconcile env (key_of m) s = (Ok (emptyResult, None), t) \<and> version_of m cur \<and>
    trace t = Ev (PatchMachine cur (SetMeta cur (RemoveFinalizer (Meta cur) GetFinalizer))) (Inr (RMachine m')) # h"
  using deletion_delivers [OF assms] by (auto simp: finalizer_removed_def)

theorem deletion_completes_witness:
  "\<exists>t cur m' h. Reconcile (sample_env deleted_aws) (key_of deleted_aws) start = (Ok (emptyResult, None), t) \<and>
    version_of deleted_aws cur \<and>
    trace t = Ev (PatchMachine cur (SetMeta cur (RemoveFinalizer (Meta cur) GetFinalizer))) (Inr (RMachine m')) # h"
  by (rule deletion_completes)
    (simp_all add: deleted_aws_server deleted_aws_cleanup, simp_all add: deleted_aws_def sample_machine_def specified_def
      isDeleting_def sample_meta_def ContainsFinalizer_def GetFinalizer_def GroupVersionGroup_def)

section \<open>The run of the reconciler\<close>

text \<open>C3. Nothing is created outside the API server (no docker machine, no AWS VPC, subnet or
  gateway) before the server holds the operator's finalizer on the machine: before every such
  event of a run the server has answered with an object that has the finalizer, or has accepted
  one that has it.\<close>

theorem finalizer_before_creation:
  assumes "trace s = []"
    and "trace (snd (Reconcile env req s)) = later @ e # earlier" and "creates_external e"
  shows "\<exists>e' \<in> set earlier. finalizer_stored e'"
proof -
  have "creation.guarded (trace (snd (Reconcile env req s)))"
    by (rule Reconcile_creation_guarded) (simp add: assms(1))
  then have "finalizer_seen earlier"
    using assms(2,3) by (intro creation.guardedD) auto
  then show ?thesis by (simp add: finalizer_seen_def)
qed

theorem finalizer_before_creation_witness:
  "\<exists>later e earlier. trace (snd (Reconcile (sample_env pending_vmware) sample_req start)) = later @ e # earlier \<and>
     creates_external e \<and> (\<exists>e' \<in> set earlier. finalizer_stored e')"
proof -
  obtain e where e: "e \<in> set (trace (snd (Reconcile (sample_env pending_vmware) sample_req start)))" "creates_external e"
    using vmware_creates by blast
  then obtain later earlier where
    "trace (snd (Reconcile (sample_env pending_vmware) sample_req start)) = later @ e # earlier"
    by (meson split_list)
  then show ?thesis
    using e(2) finalizer_before_creation [of start "sample_env pending_vmware" sample_req later e earlier] by auto
qed

text \<open>C4. The operator removes its finalizer from a machine only after a complete cleanup: before
  every patch that takes the finalizer away, for a machine the server answered with,
  \<^verbatim>\<open>docker-machine rm\<close> has succeeded (or reported an API not-found error), the VPC named in
  the annotation of an AWS machine has been deleted or reported missing, and the resource group
  of an Azure machine has been deleted to the end.\<close>

theorem cleanup_before_finalizer_removal:
  assumes "trace s = []"
    and "trace (snd (Reconcile env req s)) = later @ e # earlier" and "removes_finalizer e"
  shows "\<exists>m. observed m earlier \<and> cleaned_up m earlier"
proof -
  have "removal.guarded (trace (snd (Reconcile env req s)))"
    by (rule Reconcile_removal_guarded) (simp add: assms(1))
  then have "cleanup_done earlier"
    using assms(2,3) by (intro removal.guardedD) auto
  then show ?thesis by (simp add: cleanup_done_def)
qed

theorem cleanup_before_finalizer_removal_witness:
  "\<exists>later e earlier. trace (snd (Reconcile (sample_env deleted_aws) sample_req start)) = later @ e # earlier \<and>
     removes_finalizer e \<and> (\<exists>m. observed m earlier \<and> cleaned_up m earlier)"
proof -
  obtain e where e: "e \<in> set (trace (snd (Reconcile (sample_env deleted_aws) sample_req start)))" "removes_finalizer e"
    using aws_deletion_removes by blast
  then obtain later earlier where
    "trace (snd (Reconcile (sample_env deleted_aws) sample_req start)) = later @ e # earlier"
    by (meson split_list)
  then show ?thesis
    using e(2) cleanup_before_finalizer_removal [of start "sample_env deleted_aws" sample_req later e earlier] by auto
qed



text \<open>C6. When a run panics. Given that the server answers with machines that have the fields its
  schema requires and that the AWS SDK sets the ids of what it returns, a run never diverges, and
  it panics exactly when the reconciler holds no object yet and the read of the machine fails
  with an error other than not-found (the error path then dereferences the nil object).\<close>

theorem reconcile_panics_iff:
  assumes "server_specified env" and "sdk_nonnil env"
    and "\<forall>m. machineObj s = Some m \<longrightarrow> specified m"
  shows "fst (Reconcile env req s) \<noteq> Hang \<and>
    (fst (Reconcile env req s) = Panic \<longleftrightarrow>
      machineObj s = None \<and> (\<exists>e. env_machine env (trace s) (GetMachine req) = Inl e \<and> \<not> IsNotFound e))"
  using assms by (rule Reconcile_outcome)

theorem reconcile_panics_iff_witness:
  "fst (Reconcile (strict_env pending_aws) sample_req start) \<noteq> Hang \<and>
   fst (Reconcile (strict_env pending_aws) sample_req start) \<noteq> Panic"
  using reconcile_panics_iff [of "strict_env pending_aws" start sample_req] strict_server strict_sdk
  by (simp add: strict_env_def strict_machine_def specified_def sample_defs sample_machine_def)

text \<open>C7. A run keeps the conditions of the object at hand well formed (one condition per type, in
  the order of the library, and the conditions the summary is made of as the operator writes
  them), given that the server answers with well-formed machines as long as it is sent such.\<close>

theorem reconcile_keeps_wf:
  assumes "server_wf env" and "obj_wf s"
  shows "obj_wf (snd (Reconcile env req s))"
  using keeps_Reconcile [OF assms(1)] assms(2) by (rule keepsD)

theorem reconcile_keeps_wf_witness:
  "server_wf (sample_env pending_aws) \<and> obj_wf (snd (Reconcile (sample_env pending_aws) sample_req start))"
proof -
  have "server_wf (sample_env pending_aws)" unfolding sample_defs by (intro sample_server_wf sample_wf)
  moreover have "obj_wf start" by (simp add: obj_wf_def)
  ultimately show ?thesis using reconcile_keeps_wf [of "sample_env pending_aws" start sample_req] by blast
qed

text \<open>C8. Every machine a run sends to the API server (patches, status patches and creations) fits the
  schema of its resource: a driver and an auth secret, at most eight conditions, one per type,
  each with a transition time and a declared status and severity, and a declared phase. It is
  assumed that the status is written by the operator alone (the server answers with machines whose
  conditions are of its types and forms as long as it is sent such) and that the clock is set.\<close>

theorem writes_fit_schema:
  assumes "server_answers own_machine env" and "\<forall>n h. env_now env n h \<noteq> 0"
    and "obj_sat own_machine s" and "trace s = []" and "e \<in> set (trace (snd (Reconcile env req s)))"
  shows "case evCall e of PatchMachine _ m \<Rightarrow> valid_machine m | PatchStatus _ m \<Rightarrow> valid_machine m
    | CreateMachine m \<Rightarrow> valid_machine m | _ \<Rightarrow> True"
  using Reconcile_valid [OF assms(1) _ assms(3-5)] assms(2) by (auto split: call.splits)

theorem writes_fit_schema_witness:
  "\<exists>old new r. Ev (PatchStatus old new) r \<in> set (trace (snd (Reconcile (sample_env pending_vmware) sample_req start))) \<and>
     valid_machine new"
proof -
  obtain old new r where "Ev (PatchStatus old new) r \<in> set (trace (snd (Reconcile (sample_env pending_vmware) sample_req start)))"
    using vmware_patches_status by blast
  moreover have "server_answers own_machine (sample_env pending_vmware)" "obj_sat own_machine start"
    by (auto intro!: sample_answers sample_own sample_phase simp: pending_vmware_def obj_sat_def)
  moreover have "\<forall>n h. env_now (sample_env pending_vmware) n h \<noteq> 0" by (simp add: sample_env_def)
  ultimately have "valid_machine new"
    using writes_fit_schema [of "sample_env pending_vmware" start "Ev (PatchStatus old new) r" sample_req] by simp
  then show ?thesis
    using \<open>Ev (PatchStatus old new) r \<in> set (trace (snd (Reconcile (sample_env pending_vmware) sample_req start)))\<close> by blast
qed

text \<open>C9. Every status patch of a run changes the status, and the phase it writes is the phase of
  the conditions it writes.\<close>

theorem status_patches_consistent:
  assumes "trace s = []" and "Ev (PatchStatus old new) r \<in> set (trace (snd (Reconcile env req s)))"
  shows "Status old \<noteq> Status new \<and> Phase (Status new) = GetPhase new"
  using emits_run_from [OF Reconcile_status_patches assms] by (simp add: status_patch_ok_def)

theorem status_patches_consistent_witness:
  "\<exists>old new r. Ev (PatchStatus old new) r \<in> set (trace (snd (Reconcile (sample_env pending_vmware) sample_req start))) \<and>
     Status old \<noteq> Status new \<and> Phase (Status new) = GetPhase new"
proof -
  obtain old new r where "Ev (PatchStatus old new) r \<in> set (trace (snd (Reconcile (sample_env pending_vmware) sample_req start)))"
    using vmware_patches_status by blast
  then show ?thesis
    using status_patches_consistent [of start old new r "sample_env pending_vmware" sample_req] by auto
qed

text \<open>C10. The phase a status update leaves on a machine that is not being deleted and has a
  condition the summary is about: it is determined by the first condition, in the operator's
  order, that is False (waiting, cluster operation failed, creation failed, otherwise in
  progress), and is Success when there is none.\<close>

theorem status_update_phase:
  assumes "echoes env" and "machineObj s = Some m" and "wf_machine m" and "\<not> isDeleting m"
    and "\<exists>c \<in> set (GetConditions m). cType c \<in> set ConditionsOrder"
  shows "\<exists>m'. machineObj (snd (updateMachineStatus env nn s)) = Some m' \<and>
    Phase (Status m') = phase_spec ConditionsOrder (GetConditions m)"
proof -
  obtain t now where "updateMachineStatus env nn s = (Ok (), t)" "machineObj t = Some (summarized now m)"
    by (rule echoes_status [OF assms(1,2)])
  then show ?thesis using summarized_phase [OF assms(3-5)] by simp
qed

theorem status_update_phase_witness:
  "\<exists>m'. machineObj (snd (updateMachineStatus (sample_env pending_aws) sample_req (start\<lparr>machineObj := Some failing_machine\<rparr>))) = Some m' \<and>
     Phase (Status m') = phase_spec ConditionsOrder (GetConditions failing_machine)"
  by (rule status_update_phase [OF sample_echoes])
    (simp_all only: failing_machine_wf failing_machine_in_scope, simp_all)

section \<open>The condition library\<close>

text \<open>C11. The summary condition computed by grouping, sorting and merging all conditions equals its
  direct specification for the conditions the operator writes: none without a condition in scope,
  True when all in scope are True, and otherwise the reason and message of the first False one in
  the given order.\<close>

theorem summary_refines_spec:
  assumes "wf_conditions (gConditions g)"
    and "\<forall>c \<in> set (gConditions g). cType c \<in> set order \<longrightarrow> operator_condition c"
    and "order \<noteq> []" and "ReadyCondition \<notin> set order"
  shows "cond_summary g [WithConditions order] = ready_spec order (gConditions g)"
  using assms by (rule cond_summary_eq_ready_spec)

theorem summary_refines_spec_witness:
  "cond_summary (getter_of failing_machine) [WithConditions ConditionsOrder] =
     ready_spec ConditionsOrder (GetConditions failing_machine)"
  using summary_refines_spec [of "getter_of failing_machine" ConditionsOrder] failing_machine_wf
  by (simp add: wf_machine_def ConditionsOrder_facts)

text \<open>C12. Reading after setting: the type that was set holds the condition with the given state (the
  old one, transition time included, when the state did not change, otherwise the new one with
  the current time and generation), every other type holds what it held.\<close>

theorem get_after_set:
  assumes "wf_conditions (gConditions obj)"
  shows "cond_Get (cond_Set now obj (Some c)) t =
    (if t = cType c then Some (stored now obj c) else cond_Get (gConditions obj) t)"
  using assms by (rule cond_Get_Set)

theorem get_after_set_witness:
  "cond_Get (cond_Set 9 (getter_of failing_machine) (Some (TrueCondition ''MachineReady''))) ''MachineReady'' =
     Some (stored 9 (getter_of failing_machine) (TrueCondition ''MachineReady''))"
  using get_after_set [of "getter_of failing_machine" 9 "TrueCondition ''MachineReady''" "''MachineReady''"] failing_machine_wf
  by (simp add: wf_machine_def TrueCondition_def)

text \<open>C13. Any sequence of condition writes keeps one condition per type in sorted order, and the
  last write of a type is the one that is read.\<close>

theorem condition_writes:
  assumes "wf_conditions (gConditions g)" and "cType c \<notin> (cType \<circ> snd) ` set later"
  shows "wf_conditions (gConditions (fold (\<lambda>(now, c). put_condition now c) (earlier @ (now, c) # later) g)) \<and>
    (\<exists>d. cond_Get (gConditions (fold (\<lambda>(now, c). put_condition now c) (earlier @ (now, c) # later) g)) (cType c) = Some d \<and>
      hasSameState d c)"
  using cstore.inv_puts [OF assms(1)] cstore.get_puts_last [OF assms] by blast

theorem condition_writes_witness:
  "\<exists>d. cond_Get (gConditions (fold (\<lambda>(now, c). put_condition now c)
      ([(1, TrueCondition ''A'')] @ (2, TrueCondition ''B'') # [(3, TrueCondition ''C'')])
      (getter_of failing_machine))) ''B'' = Some d \<and> hasSameState d (TrueCondition ''B'')"
proof -
  have "wf_conditions (gConditions (getter_of failing_machine))" using failing_machine_wf by (simp add: wf_machine_def)
  moreover have "cType (TrueCondition ''B'') \<notin> (cType \<circ> snd) ` set [(3 :: gotime, TrueCondition ''C'')]"
    by (simp add: TrueCondition_def)
  ultimately have "\<exists>d. cond_Get (gConditions (fold (\<lambda>(now, c). put_condition now c)
      ([(1, TrueCondition ''A'')] @ (2, TrueCondition ''B'') # [(3, TrueCondition ''C'')])
      (getter_of failing_machine))) (cType (TrueCondition ''B'')) = Some d \<and> hasSameState d (TrueCondition ''B'')"
    by (intro condition_writes [THEN conjunct2])
  moreover have "cType (TrueCondition ''B'') = ''B''" by (simp add: TrueCondition_def)
  ultimately show ?thesis by simp
qed

section \<open>What a run may touch\<close>

text \<open>C14. A metadata patch of a run leaves the machine's spec, status, name and deletion mark alone,
  and of its finalizers and annotations changes only the operator's finalizer and the three AWS
  annotations.\<close>

theorem metadata_patches_in_frame:
  assumes "trace s = []" and "Ev (PatchMachine cur modified) r \<in> set (trace (snd (Reconcile env req s)))"
  shows "frame_ok cur modified"
  using emits_run_from [OF Reconcile_in_frame assms] by (simp add: patches_in_frame_def)

theorem metadata_patches_in_frame_witness:
  "\<exists>cur modified r. Ev (PatchMachine cur modified) r \<in> set (trace (snd (Reconcile (sample_env pending_vmware) sample_req start))) \<and>
     frame_ok cur modified"
proof -
  obtain cur modified r where "Ev (PatchMachine cur modified) r \<in>
      set (trace (snd (Reconcile (sample_env pending_vmware) sample_req start)))"
    using vmware_patches_metadata by blast
  then show ?thesis
    using metadata_patches_in_frame [of start cur modified r "sample_env pending_vmware" sample_req] by auto
qed

text \<open>C15. Every EC2 call of a run goes through a session opened earlier in the run with the same
  access key, secret key and region, none of which is empty.\<close>

theorem ec2_calls_have_session:
  assumes "trace s = []"
    and "trace (snd (Reconcile env req s)) = later @ Ev (EC2 c x) r # earlier"
  shows "complete_creds c \<and> Ev (NewSession c) (Inr RUnit) \<in> set earlier"
proof -
  have "session.guarded c (trace (snd (Reconcile env req s)))"
    by (rule keepsD [OF Reconcile_sessions]) (simp add: assms(1))
  then have "session_open c earlier"
    using assms(2) by (intro session.guardedD) (auto simp: uses_ec2_def)
  then show ?thesis by (simp add: session_open_def)
qed

theorem ec2_calls_have_session_witness:
  "\<exists>later c x r earlier. trace (snd (Reconcile (sample_env pending_aws) sample_req start)) = later @ Ev (EC2 c x) r # earlier \<and>
     complete_creds c \<and> Ev (NewSession c) (Inr RUnit) \<in> set earlier"
proof -
  obtain c x r where "Ev (EC2 c x) r \<in> set (trace (snd (Reconcile (sample_env pending_aws) sample_req start)))"
    using aws_uses_ec2 by blast
  then obtain later earlier where
    "trace (snd (Reconcile (sample_env pending_aws) sample_req start)) = later @ Ev (EC2 c x) r # earlier"
    by (meson split_list)
  then show ?thesis
    using ec2_calls_have_session [OF start_simps(2), of "sample_env pending_aws" sample_req later c x r earlier] by blast
qed

text \<open>C16. A run for a machine that is marked for deletion (and has a phase) creates nothing outside
  the API server.\<close>

theorem deletion_never_creates:
  assumes "trace s = []" and "env_machine env [] (GetMachine req) = Inr m"
    and "isDeleting m" and "Phase (Status m) \<noteq> ''''"
    and "e \<in> set (trace (snd (Reconcile env req s)))"
  shows "\<not> creates_external e"
proof -
  let ?t = "s\<lparr>machineObj := Some m, trace := Ev (GetMachine req) (Inr (RMachine m)) # trace s\<rparr>"
  have "Reconcile env req s = reconcileDeletion env ?t"
    using assms(1-4) by (simp add: Reconcile_run afterGet_run [where m = m])
  then obtain new where "trace (snd (Reconcile env req s)) = new @ trace ?t" "\<forall>e \<in> set new. \<not> creates_external e"
    using deletion_creates_nothing [of env] unfolding emits_def by metis
  then show ?thesis using assms(1,5) by auto
qed

theorem deletion_never_creates_witness:
  "\<exists>e \<in> set (trace (snd (Reconcile (sample_env deleted_aws) sample_req start))). removes_finalizer e \<and> \<not> creates_external e"
proof -
  obtain e where e: "e \<in> set (trace (snd (Reconcile (sample_env deleted_aws) sample_req start)))" "removes_finalizer e"
    using aws_deletion_removes by blast
  have "isDeleting deleted_aws \<and> Phase (Status deleted_aws) \<noteq> ''''"
    by (simp add: sample_defs sample_machine_def sample_meta_def isDeleting_def)
  then have "\<not> creates_external e"
    using deletion_never_creates [of start "sample_env deleted_aws" sample_req deleted_aws e] e(1) by simp
  then show ?thesis using e by blast
qed



section \<open>Cloud resources\<close>

text \<open>C18. The teardown of a VPC makes only deleting (and describing) EC2 calls of the given client, in
  the order the resources depend on each other: the route, the gateway's attachment, the gateway,
  the subnet, the security groups, the VPC.\<close>

theorem vpc_teardown_order:
  "\<exists>new. trace (snd (deleteAwsVpc env c v s)) = new @ trace s \<and>
     list_all (teardown_event c) new \<and> sorted (map teardown_rank (rev new))"
proof -
  obtain new where new: "trace (snd (deleteAwsVpc env c v s)) = new @ trace s" "sorted (map teardown_rank (rev new))"
    using ranked_deleteAwsVpc [of env c v] unfolding ranked_def by blast
  obtain new' where "trace (snd (deleteAwsVpc env c v s)) = new' @ trace s" "\<forall>e \<in> set new'. teardown_event c e"
    using deleteAwsVpc_teardown [of c env v] unfolding emits_def by blast
  with new show ?thesis by (simp add: list_all_iff)
qed



text \<open>C20. Waiting for a state ends when the probe's calls end: with a positive pause and a limit that
  leaves room for one more step in 64 bits, the loop returns after at most limit/pause + 1
  pauses.\<close>

theorem waiting_ends:
  assumes "0 < retry" and "0 \<le> timeout" and "timeout + retry < 2 ^ 63"
    and "\<forall>s. fst (probe s) \<noteq> Hang" and "emits (\<lambda>e. \<not> is_pause e) probe"
  shows "fst (waitForState retry timeout probe s) \<noteq> Hang \<and>
    (\<exists>new. trace (snd (waitForState retry timeout probe s)) = new @ trace s \<and>
      length (filter is_pause new) \<le> nat (timeout div retry) + 1)"
proof
  have "rounds retry timeout 0 < wait_fuel retry timeout"
    using rounds_start [OF assms(1,2)] by linarith
  then show "fst (waitForState retry timeout probe s) \<noteq> Hang"
    unfolding waitForState_def using assms(1,3,4) by (intro waitLoop_no_hang) auto
  have "counts is_pause (rounds retry timeout 0) (waitForState retry timeout probe)"
    unfolding waitForState_def using assms(1,3,5) by (intro waitLoop_pauses) auto
  then show "\<exists>new. trace (snd (waitForState retry timeout probe s)) = new @ trace s \<and>
      length (filter is_pause new) \<le> nat (timeout div retry) + 1"
    using rounds_zero [OF assms(2), of retry] unfolding counts_def by metis
qed

theorem waiting_ends_witness:
  "\<exists>new. trace (snd (waitForState (5 * second) (1 * minute) (ret False) start)) = new @ trace start \<and>
     length (filter is_pause new) \<le> nat (1 * minute div (5 * second)) + 1"
  by (rule waiting_ends [THEN conjunct2]) (auto simp: second_def minute_def run_simps intro: emits_intros)

text \<open>C21. The pauses of a run are bounded: whatever the calls answer, a run sleeps for at most 65 seconds
  in all, in pauses of five seconds.\<close>

theorem run_pauses_bounded:
  assumes "trace s = []"
  shows "total_pause (trace (snd (Reconcile env req s))) \<le> 65 * second"
  using assms by (rule Reconcile_total_pause)

theorem run_pauses_bounded_witness:
  "total_pause (trace (snd (Reconcile no_vpc_env sample_req start))) \<le> 65 * second"
  using run_pauses_bounded [of start no_vpc_env sample_req] by simp

text \<open>C22. Subnets and gateway attachments are put only into a VPC whose id the API server already holds in
  the machine's annotation (it answered with a machine so annotated, or accepted one), so that a
  later cleanup finds the VPC.\<close>

theorem resources_in_recorded_vpc:
  assumes "trace s = []" and "trace (snd (Reconcile env req s)) = later @ e # earlier" and "fills v e"
  shows "\<exists>e' \<in> set earlier. vpc_stored v e'"
proof -
  have "vpc.guarded v (trace (snd (Reconcile env req s)))"
    by (rule Reconcile_resources) (simp add: assms(1))
  then show ?thesis using vpc.guardedD assms(2,3) by (metis vpc_recorded_def)
qed

theorem resources_in_recorded_vpc_witness:
  "\<exists>later e earlier. trace (snd (Reconcile (sample_env pending_aws) sample_req start)) = later @ e # earlier \<and>
     fills ''vpc-1'' e \<and> (\<exists>e' \<in> set earlier. vpc_stored ''vpc-1'' e')"
proof -
  obtain e where e: "e \<in> set (trace (snd (Reconcile (sample_env pending_aws) sample_req start)))" "fills ''vpc-1'' e"
    using aws_fills_vpc by blast
  then obtain later earlier where "trace (snd (Reconcile (sample_env pending_aws) sample_req start)) = later @ e # earlier"
    by (meson split_list)
  then show ?thesis
    using e(2) resources_in_recorded_vpc [OF start_simps(2), of "sample_env pending_aws" sample_req later e earlier "''vpc-1''"]
    by blast
qed

text \<open>C23. A VPC whose id cannot be recorded is left behind: when writing the annotation fails, the error is
  returned, no further EC2 call is made, so that the VPC is not deleted, and the object at hand still
  has no VPC annotation, so that the next attempt creates another VPC.\<close>

theorem unrecorded_vpc_is_left:
  assumes "machineObj s = Some m" and "anno m awsVPCIDAnnotation = ''''"
    and "env_vpc env (trace s) (EC2 c (CreateVpc awsVpcCIDR)) = Inr (Some vpc)" and "VpcId vpc = Some v"
    and "patchAnnotation env awsVPCIDAnnotation v
      (s\<lparr>trace := Ev (EC2 c (CreateVpc awsVpcCIDR)) (Inr (RVpc (Some vpc))) # trace s\<rparr>) = (Err e, t)"
  shows "createAwsVpc env c s = (Err e, t) \<and> machineObj t = Some m \<and>
    (\<exists>new. trace t = new @ Ev (EC2 c (CreateVpc awsVpcCIDR)) (Inr (RVpc (Some vpc))) # trace s \<and>
      (\<forall>x \<in> set new. \<not> is_ec2 (evCall x)))"
  using createAwsVpc_unrecorded [OF assms] patchAnnotation_Err [OF _ assms(5), of m] assms(1) by simp

theorem unrecorded_vpc_is_left_witness:
  "fst (createAwsVpc no_patch_env sample_creds (start\<lparr>machineObj := Some pending_aws\<rparr>)) = Err (StatusError ''Conflict'' 409 ''m1'')"
proof -
  let ?s = "start\<lparr>machineObj := Some pending_aws\<rparr>" and ?vpc = "\<lparr>VpcId = Some ''vpc-1'', VpcState = None\<rparr>"
  let ?u = "?s\<lparr>trace := Ev (EC2 sample_creds (CreateVpc awsVpcCIDR)) (Inr (RVpc (Some ?vpc))) # trace ?s\<rparr>"
  have "fst (patchAnnotation no_patch_env awsVPCIDAnnotation ''vpc-1'' ?u) = Err (StatusError ''Conflict'' 409 ''m1'')"
    by code_simp
  then have patch: "patchAnnotation no_patch_env awsVPCIDAnnotation ''vpc-1'' ?u =
      (Err (StatusError ''Conflict'' 409 ''m1''), snd (patchAnnotation no_patch_env awsVPCIDAnnotation ''vpc-1'' ?u))"
    by (metis prod.collapse)
  have m: "machineObj ?s = Some pending_aws" "anno pending_aws awsVPCIDAnnotation = ''''"
    by (simp_all add: pending_aws_def sample_machine_def sample_meta_def mget_def)
  have "env_vpc no_patch_env (trace ?s) (EC2 sample_creds (CreateVpc awsVpcCIDR)) = Inr (Some ?vpc)"
    by (simp add: no_patch_env_def sample_env_def)
  from unrecorded_vpc_is_left [OF m this _ patch] show ?thesis by simp
qed

text \<open>C24. A subnet that cannot be created strands an AWS machine: whether the VPC is new or was found,
  when the creation of its subnet is refused the rollback gets the VPC deleted, the error is
  returned, and the object at hand still has the id of the deleted VPC in its annotation. For this
  object every later attempt, when the VPC is not known any more, is over after one call with an
  error: no other VPC is created.\<close>

theorem failed_subnet_strands_machine:
  assumes "obtainVpc env c s = (Ok vpc, u)" and "VpcId vpc = Some (anno m awsVPCIDAnnotation)"
    and "machineObj u = Some m" and "anno m awsVPCIDAnnotation \<noteq> ''''" and "anno m awsSubnetIDAnnotation = ''''"
    and "param m regionParameter \<noteq> ''''"
    and "env_id env (trace u)
      (EC2 c (CreateSubnet awsVpcCIDR (anno m awsVPCIDAnnotation) (param m regionParameter @ defaultZone))) = Inl e"
    and "aws_works env m" and "specified m"
  shows "(\<exists>t r h. createAwsVpc env c s = (Err e, t) \<and> machineObj t = Some m \<and>
      trace t = Ev (EC2 c (DeleteVpc (anno m awsVPCIDAnnotation))) r # h \<and> gone r) \<and>
    (\<forall>env' c' s'. machineObj s' = Some m \<and> vpc_unknown env' c' (anno m awsVPCIDAnnotation) \<longrightarrow>
      (\<exists>e' r. createAwsVpc env' c' s' =
        (Err e', s'\<lparr>trace := Ev (EC2 c' (DescribeVpcs [Some (anno m awsVPCIDAnnotation)])) r # trace s'\<rparr>)))"
  using createAwsVpc_no_subnet [OF assms] createAwsVpc_unknown [OF _ assms(4)] by metis

theorem failed_subnet_strands_machine_witness:
  "(\<exists>t r h. createAwsVpc no_subnet_env sample_creds (start\<lparr>machineObj := Some pending_aws\<rparr>) = (Err (ServiceError ''quota''), t) \<and>
      machineObj t = Some annotated_aws \<and> trace t = Ev (EC2 sample_creds (DeleteVpc ''vpc-1'')) r # h \<and> gone r) \<and>
   (\<exists>e r. createAwsVpc no_vpc_env sample_creds (start\<lparr>machineObj := Some annotated_aws\<rparr>) =
      (Err e, start\<lparr>machineObj := Some annotated_aws, trace := [Ev (EC2 sample_creds (DescribeVpcs [Some ''vpc-1''])) r]\<rparr>))"
proof -
  let ?s = "start\<lparr>machineObj := Some pending_aws\<rparr>"
  have "machineObj (snd (obtainVpc no_subnet_env sample_creds ?s)) = Some annotated_aws" by code_simp
  note strands = failed_subnet_strands_machine [OF annotated_vpc_run _ this _ _ _ no_subnet_refuses no_subnet_works
      annotated_specified, unfolded annotated_anno, simplified]
  have "vpc_unknown no_vpc_env sample_creds ''vpc-1''" by (simp add: vpc_unknown_def no_vpc_env_def)
  then have "\<exists>e r. createAwsVpc no_vpc_env sample_creds (start\<lparr>machineObj := Some annotated_aws\<rparr>) =
      (Err e, start\<lparr>machineObj := Some annotated_aws, trace := Ev (EC2 sample_creds (DescribeVpcs [Some ''vpc-1''])) r # trace start\<rparr>)"
    using strands [THEN conjunct2, rule_format, of "start\<lparr>machineObj := Some annotated_aws\<rparr>" no_vpc_env sample_creds] by simp
  then show ?thesis using strands [THEN conjunct1] by (simp add: start_def)
qed



section \<open>Creating a machine\<close>

text \<open>C26. Creation succeeds: for a new machine without a startup script, of a driver other than AWS,
  with a filled auth secret, against a server that stores what it is sent and a
  \<^verbatim>\<open>docker-machine\<close> that works or says that the name already exists (whoever's machine that
  is), creation returns without an error, has run the create command with exactly the driver, the
  parameters, the secret's entries, the region's image and the name, and leaves the machine
  marked ready.\<close>

theorem creation_succeeds:
  assumes "echoes env" and "machineObj s = Some m" and "wf_machine m"
    and "\<not> IsConditionTrue (GetConditions m) MachineConditionTypeMachineCreating"
    and "\<not> IsConditionTrue (GetConditions m) MachineConditionTypeMachineReady"
    and "Driver (Spec m) = Some d" and "d \<noteq> AWSDriver" and "ScriptRef (Spec m) = None"
    and "AuthSecret (Spec m) = Some ref"
    and "\<And>h. env_secret env h (GetSecret (ObjectKey ref)) = Inr data" and "filled data"
    and "\<And>h. fst (env_cmd env h (RunCmd (Some machineCreationTimeout) (creationArgs m d data))) = None \<or>
      strings_Contains (snd (env_cmd env h (RunCmd (Some machineCreationTimeout) (creationArgs m d data)))) ''already exists''"
  shows "\<exists>t m'. createMachine env s = (Ok (), t) \<and> machineObj t = Some m' \<and>
    IsConditionTrue (GetConditions m') MachineConditionTypeMachineReady \<and>
    (\<exists>r. Ev (RunCmd (Some machineCreationTimeout) (creationArgs m d data)) r \<in> set (trace t))"
  using createMachine_succeeds [OF assms] by metis

theorem creation_succeeds_witness:
  "\<exists>t m'. createMachine (sample_env pending_vmware) (start\<lparr>machineObj := Some pending_vmware\<rparr>) = (Ok (), t) \<and>
     machineObj t = Some m' \<and> IsConditionTrue (GetConditions m') MachineConditionTypeMachineReady \<and>
     (\<exists>r. Ev (RunCmd (Some machineCreationTimeout) (creationArgs pending_vmware ''vmware'' sample_secret)) r \<in> set (trace t))"
  by (rule creation_succeeds [OF sample_echoes])
    (simp_all add: sample_defs sample_wf, simp_all add: sample_machine_def GetConditions_def AWSDriver_def
      sample_secret_def filled_def sample_cmd_def creationArgs_def)

text \<open>C27. A failed creation is final: the error of the command is returned and the object at hand is
  marked as being created and not ready, and for an object so marked creation does nothing.\<close>

theorem failed_creation_is_final:
  assumes "machineObj s = Some m" and "wf_machine m"
    and "env_cmd env (trace s) (RunCmd (Some machineCreationTimeout) args) = (Some e, out)"
    and "\<not> strings_Contains out ''already exists''"
  shows "\<exists>t m'. runCreate env args s = (Err e, t) \<and> machineObj t = Some m' \<and>
    \<not> IsConditionTrue (GetConditions m') MachineConditionTypeMachineReady \<and>
    (\<forall>env' u. machineObj u = Some m' \<longrightarrow> createMachine env' u = (Ok (), u))"
  using runCreate_fails [OF assms] createMachine_idle by metis

theorem failed_creation_is_final_witness:
  "\<exists>t m'. runCreate no_create_env [''create''] (start\<lparr>machineObj := Some pending_vmware\<rparr>) = (Err (ErrorString ''exit status 1''), t) \<and>
     machineObj t = Some m' \<and> \<not> IsConditionTrue (GetConditions m') MachineConditionTypeMachineReady \<and>
     (\<forall>env' u. machineObj u = Some m' \<longrightarrow> createMachine env' u = (Ok (), u))"
  by (rule failed_creation_is_final [where m = pending_vmware and out = "''quota''"])
    (simp_all add: sample_defs sample_wf no_create_env_def)

text \<open>C28. What a Google machine is given decodes to the secret: the values among the arguments are the
  base64 encodings of the secret's values, in its order.\<close>

theorem google_auth_roundtrip:
  assumes "machineObj s = Some m" and "Driver (Spec m) = Some GoogleDriver" and "AuthSecret (Spec m) = Some ref"
    and "env_secret env (trace s) (GetSecret (ObjectKey ref)) = Inr data" and "filled data"
  shows "\<exists>args. fst (getAuthSecretArgs env s) = Ok args \<and> length args = 2 * length data \<and>
    map base64_decode (map (\<lambda>i. args ! (2 * i + 1)) [0..<length data]) = map snd data"
proof -
  have "map base64_decode (map (\<lambda>i. authArgsOf GoogleDriver data ! (2 * i + 1)) [0..<length data]) = map snd data"
    by (rule nth_equalityI) (simp_all add: authArgsOf_nth [simplified] base64_decode_encode)
  then show ?thesis using auth_run [OF assms] by (simp add: length_authArgsOf)
qed

theorem google_auth_roundtrip_witness:
  "\<exists>args. fst (getAuthSecretArgs (sample_env pending_vmware) (start\<lparr>machineObj := Some google_machine\<rparr>)) = Ok args \<and>
     length args = 2 * length sample_secret \<and>
     map base64_decode (map (\<lambda>i. args ! (2 * i + 1)) [0..<length sample_secret]) = map snd sample_secret"
  by (rule google_auth_roundtrip [where m = google_machine and ref = "\<lparr>refNamespace = ''ns'', refName = ''auth''\<rparr>"])
    (simp_all add: google_machine_def sample_machine_def GoogleDriver_def filled_def sample_secret_def)

text \<open>C29. When two machines share a script file: exactly when namespace and name joined by a dash agree,
  so never for namespaces without a dash, but for others it happens, and a script that is already
  there is used.\<close>

theorem script_paths_collide:
  "(scriptPath ns n = scriptPath ns' n' \<longleftrightarrow> ns @ ''-'' @ n = ns' @ ''-'' @ n') \<and>
   (CHR ''-'' \<notin> set ns \<and> CHR ''-'' \<notin> set ns' \<longrightarrow> scriptPath ns n = scriptPath ns' n' \<longrightarrow> ns = ns' \<and> n = n') \<and>
   scriptPath ''a-b'' ''c'' = scriptPath ''a'' ''b-c''"
  using scriptPath_eq_iff [of ns n ns' n'] scriptPath_eq_iff [of "''a-b''" "''c''" "''a''" "''b-c''"]
    dash_split [of ns ns' n n'] by simp

theorem script_paths_collide_witness:
  "scriptPath ''prod'' ''x'' \<noteq> scriptPath ''test'' ''x'' \<and> scriptPath ''a-b'' ''c'' = scriptPath ''a'' ''b-c''"
  using script_paths_collide [of "''prod''" "''x''" "''test''" "''x''"] by simp

section \<open>The startup script's result\<close>



text \<open>C31. An exit code written on a line is the code that decides: for every 64-bit number, the lines
  of a file that holds its decimal form lead to the mark of that code, the removal of the file,
  and an error exactly for a code other than zero.\<close>

theorem exit_code_roundtrip:
  assumes "machineObj s = Some m" and "- (2 ^ 63) \<le> i" and "i < 2 ^ 63"
  shows "resultLoop env (scanLines (strconv_Itoa i @ [lf])) s =
    (let t = snd (result_mark env i s)
     in case env_unit env (trace t) (RemoveFile resultFile) of
          Inl e \<Rightarrow> (Err e, t\<lparr>trace := Ev (RemoveFile resultFile) (Inl e) # trace t\<rparr>)
        | Inr _ \<Rightarrow> (if i = 0 then Ok False else Err (ErrorString ''failed to create cluster''),
            t\<lparr>trace := Ev (RemoveFile resultFile) (Inr RUnit) # trace t\<rparr>))"
  unfolding scanLines_Itoa [OF assms(2,3)] resultLoop_run [OF assms(1)]
  by (simp add: exit_code_simps strconv_Atoi_Itoa [OF assms(2,3)])

theorem exit_code_roundtrip_witness:
  "fst (resultLoop (sample_env ready_machine) (scanLines (strconv_Itoa 3 @ [lf])) (start\<lparr>machineObj := Some ready_machine\<rparr>)) =
     Err (ErrorString ''failed to create cluster'')"
  using exit_code_roundtrip [of "start\<lparr>machineObj := Some ready_machine\<rparr>" ready_machine 3 "sample_env ready_machine"]
  by (simp add: Let_def)

text \<open>C32. The script decides the phase, from end to end: a run for a machine that is ready and whose
  prerequisites hold asks to be repeated in a minute, in the phase that waits for the script, as long
  as the copy of the result file fails. Once the copy succeeds, the 64-bit number the script
  printed decides: zero ends the run without an error in the phase Success, any other number ends it
  with an error in the phase ClusterOperationFailed. In every case the machine is left as one that
  waits for its script, so the next run copies the file again, also for a machine whose
  script has ended.\<close>

theorem script_decides_phase:
  assumes "echoes env" and "env_machine env (trace s) (GetMachine req) = Inr m" and "awaits_script d m"
    and "\<And>h. env_text env h (OpenFile resultFile) = Inr (strconv_Itoa i @ [lf])" and "- (2 ^ 63) \<le> i" and "i < 2 ^ 63"
    and "\<And>h. env_unit env h (RemoveFile resultFile) = Inr ()"
    and "env_cmd env (Ev (GetMachine req) (Inr (RMachine m)) # trace s) (scp_call d m) = (err, out)"
  shows "\<exists>t m' res e. Reconcile env req s = (Ok (res, e), t) \<and> machineObj t = Some m' \<and> awaits_script d m' \<and>
    (case err of
       Some _ \<Rightarrow> res = \<lparr>RequeueAfter = minute\<rparr> \<and> e = None \<and> Phase (Status m') = MachinePhaseWaitingForScriptCompletion
     | None \<Rightarrow> res = emptyResult \<and>
         (if i = 0 then e = None \<and> Phase (Status m') = MachinePhaseSuccess
          else e = Some (ErrorString ''failed to create cluster'') \<and> Phase (Status m') = MachinePhaseClusterOperationFailed))"
proof (cases err)
  case None
  have "exit_code (scanLines (strconv_Itoa i @ [lf])) = Some i"
    unfolding scanLines_Itoa [OF assms(5,6)] by (simp add: exit_code_simps strconv_Atoi_Itoa [OF assms(5,6)])
  then obtain t m' where "Reconcile env req s =
      (Ok (emptyResult, if i = 0 then None else Some (ErrorString ''failed to create cluster'')), t)" "machineObj t = Some m'"
    "Phase (Status m') = (if i = 0 then MachinePhaseSuccess else MachinePhaseClusterOperationFailed)" "awaits_script d m'"
    using ended_script [OF assms(1-3) assms(8) [unfolded None] assms(4) _ assms(7)] by blast
  then show ?thesis using None by simp
next
  case (Some e)
  then show ?thesis using pending_script [OF assms(1-3) assms(8) [unfolded Some]] by auto
qed

theorem script_decides_phase_witness:
  "(\<exists>t m' res e. Reconcile (finished_env (- 1)) sample_req start = (Ok (res, e), t) \<and> machineObj t = Some m' \<and>
      e = Some (ErrorString ''failed to create cluster'') \<and> Phase (Status m') = MachinePhaseClusterOperationFailed) \<and>
   (\<exists>t m' res e. Reconcile (finished_env 0) sample_req start = (Ok (res, e), t) \<and> machineObj t = Some m' \<and>
      e = None \<and> Phase (Status m') = MachinePhaseSuccess)"
proof -
  have run: "\<exists>t m' res e. Reconcile (finished_env i) sample_req start = (Ok (res, e), t) \<and> machineObj t = Some m' \<and>
      (if i = 0 then e = None \<and> Phase (Status m') = MachinePhaseSuccess
       else e = Some (ErrorString ''failed to create cluster'') \<and> Phase (Status m') = MachinePhaseClusterOperationFailed)"
    if "- (2 ^ 63) \<le> i" "i < 2 ^ 63" for i
    using script_decides_phase [OF finished_env_simps(1,2) ready_awaits finished_env_simps(3) that finished_env_simps(4,5),
        of sample_req start] by (cases "i = 0") auto
  show ?thesis using run [of "- 1"] run [of 0] by auto
qed

section \<open>Status and metadata operations\<close>

text \<open>C33. Adding the finalizer recreates a machine that disappeared in the meantime: when the machine is
  gone at the read, the object at hand is sent to be created, with the finalizer and without a
  resource version. (The caller's handling of a not-found error is never reached from that
  read.)\<close>

theorem ensure_finalizer_recreates:
  assumes "machineObj s = Some m" and "\<not> ContainsFinalizer m GetFinalizer"
    and "env_machine env (trace s) (GetMachine (key_of m)) = Inl e" and "IsNotFound e"
  shows "\<exists>m' r h. trace (snd (ensureFinalizer env s)) = Ev (CreateMachine m') r # h \<and> key_of m' = key_of m \<and>
    ContainsFinalizer m' GetFinalizer \<and> ResourceVersion (Meta m') = '''' \<and> Spec m' = Spec m"
proof -
  define m' where "m' = SetMeta m ((AddFinalizer (Meta m) GetFinalizer)\<lparr>ResourceVersion := ''''\<rparr>)"
  have "SetMeta (SetMeta m om) om' = SetMeta m om'" for om om' by (simp add: SetMeta_def)
  then have run: "ensureFinalizer env s = andThen (call_machine env (CreateMachine m')) putObj
      (s\<lparr>trace := Ev (GetMachine (key_of m)) (Inl e) # trace s\<rparr>)"
    using assms
    by (simp add: ensureFinalizer_def patchFinalizer_def run_simps CreateOrPatchE_run finalizerTransform_def m'_def)
  have "\<exists>r h. trace (snd (ensureFinalizer env s)) = Ev (CreateMachine m') r # h"
    by (auto simp: run call_defs perform_def andThen_def putObj_def split: sum.splits)
  moreover have "key_of m' = key_of m \<and> ContainsFinalizer m' GetFinalizer \<and> ResourceVersion (Meta m') = '''' \<and> Spec m' = Spec m"
    by (simp add: m'_def key_of_def ContainsFinalizer_def AddFinalizer_def)
  ultimately show ?thesis by blast
qed

theorem ensure_finalizer_recreates_witness:
  "\<exists>m' r h. trace (snd (ensureFinalizer (absent_env (StatusError ''NotFound'' 404 ''gone'')) (start\<lparr>machineObj := Some pending_vmware\<rparr>))) =
       Ev (CreateMachine m') r # h \<and> key_of m' = key_of pending_vmware \<and> ContainsFinalizer m' GetFinalizer \<and>
       ResourceVersion (Meta m') = '''' \<and> Spec m' = Spec pending_vmware"
  by (rule ensure_finalizer_recreates [where e = "StatusError ''NotFound'' 404 ''gone''"])
    (simp_all add: absent_env_def IsNotFound_def sample_defs sample_machine_def sample_meta_def ContainsFinalizer_def)



text \<open>C35. The file cleanup never touches the result file: it removes the machine's startup script and a
  file of another name, and goes on after every error but that a name exists.\<close>

theorem result_file_is_left:
  assumes "machineObj s = Some m"
    and "\<forall>h p e. env_unit env h (RemoveFile p) = Inl e \<longrightarrow> \<not> os_IsExist e"
  shows "fst (deleteFiles env s) = Ok () \<and>
    (\<exists>r r'. trace (snd (deleteFiles env s)) =
      [Ev (RemoveFile ''tmpresult.txt'') r,
       Ev (RemoveFile (scriptPath (Namespace (Meta m)) (Name (Meta m)))) r'] @ trace s) \<and>
    resultFile \<notin> {''tmpresult.txt'', scriptPath (Namespace (Meta m)) (Name (Meta m))}"
proof -
  have step: "\<exists>r. removeIgnoring env p u = (Ok (), u\<lparr>trace := Ev (RemoveFile p) r # trace u\<rparr>)" for p u
    using assms(2) by (cases "env_unit env (trace u) (RemoveFile p)")
      (auto simp: removeIgnoring_def run_simps call_defs)
  obtain r' where 1: "removeIgnoring env (scriptPath (Namespace (Meta m)) (Name (Meta m))) s =
      (Ok (), s\<lparr>trace := Ev (RemoveFile (scriptPath (Namespace (Meta m)) (Name (Meta m)))) r' # trace s\<rparr>)"
    using step by blast
  obtain r where 2: "removeIgnoring env ''tmpresult.txt'' (s\<lparr>trace := Ev (RemoveFile (scriptPath (Namespace (Meta m)) (Name (Meta m)))) r' # trace s\<rparr>) =
      (Ok (), s\<lparr>trace := Ev (RemoveFile ''tmpresult.txt'') r # Ev (RemoveFile (scriptPath (Namespace (Meta m)) (Name (Meta m)))) r' # trace s\<rparr>)"
    using step [of "''tmpresult.txt''" "s\<lparr>trace := Ev (RemoveFile (scriptPath (Namespace (Meta m)) (Name (Meta m)))) r' # trace s\<rparr>"] by auto
  have "last resultFile \<noteq> last (scriptPath (Namespace (Meta m)) (Name (Meta m)))"
    by (simp add: resultFile_def scriptPath_def)
  then have "resultFile \<noteq> scriptPath (Namespace (Meta m)) (Name (Meta m))" by metis
  moreover have "resultFile \<noteq> ''tmpresult.txt''" by (simp add: resultFile_def)
  moreover have "deleteFiles env s = (Ok (), s\<lparr>trace := [Ev (RemoveFile ''tmpresult.txt'') r,
      Ev (RemoveFile (scriptPath (Namespace (Meta m)) (Name (Meta m)))) r'] @ trace s\<rparr>)"
    using assms(1) 1 2 by (simp add: deleteFiles_def getScriptFilePath_def run_simps tempDirectory_def)
  ultimately show ?thesis by simp
qed

theorem result_file_is_left_witness:
  "fst (deleteFiles (sample_env pending_vmware) (start\<lparr>machineObj := Some pending_vmware\<rparr>)) = Ok ()"
  using result_file_is_left [of "start\<lparr>machineObj := Some pending_vmware\<rparr>" pending_vmware "sample_env pending_vmware"] by simp

section \<open>Memory\<close>

text \<open>C36. Deep copies are independent: a copy of a machine, of a list of machines, of a driver or of a list of
  drivers (as the API machinery asks for it) stands for the same value, the original survives
  every change of the cells the copy reaches, and the copy every change of the cells the original
  reaches.\<close>

theorem deep_copy_is_independent:
  assumes "heap_ok h"
  shows "(pointer_repr selMachine machine_repr h p m \<longrightarrow>
      copied_apart (pointer_repr selMachine machine_repr) (pointer_reach selMachine machine_reach)
        Machine_DeepCopyObject h p m) \<and>
    (pointer_repr selList machineList_repr h p ms \<longrightarrow>
      copied_apart (pointer_repr selList machineList_repr) (pointer_reach selList machineList_reach)
        MachineList_DeepCopyObject h p ms) \<and>
    (pointer_repr selDriver driver_repr h p d \<longrightarrow>
      copied_apart (pointer_repr selDriver driver_repr) (pointer_reach selDriver driver_reach)
        Driver_DeepCopyObject h p d) \<and>
    (pointer_repr selList driverList_repr h p ds \<longrightarrow>
      copied_apart (pointer_repr selList driverList_repr) (pointer_reach selList driverList_reach)
        DriverList_DeepCopyObject h p ds)"
  unfolding copyObjects
  using assms machine_copy.apart machineList_copy.apart driver_copy.apart driverList_copy.apart by simp

theorem deep_copy_is_independent_witness:
  "copied_apart (pointer_repr selMachine machine_repr) (pointer_reach selMachine machine_reach)
     Machine_DeepCopyObject list_heap (Some 0) (Some heap_machine) \<and>
   copied_apart (pointer_repr selList machineList_repr) (pointer_reach selList machineList_reach)
     MachineList_DeepCopyObject list_heap (Some 6) (Some heap_list)"
  using deep_copy_is_independent [OF list_heap_ok, of "Some 0"] deep_copy_is_independent [OF list_heap_ok, of "Some 6"]
    list_heap_machine list_heap_list by blast

text \<open>C37. What \<^verbatim>\<open>CreateOrPatch\<close> relies on: changing the finalizers (filtered in place, or appended) or an
  annotation (written into the map) of a deep copy yields the object the value model computes, and
  leaves the object it was copied from, which the patch is computed against, as it was.\<close>

theorem transform_keeps_original:
  assumes "heap_ok h" and "pointer_repr selMachine machine_repr h p (Some m)"
  shows "(\<exists>q h'. transformCopy (memFinalizerTransform verb f) p h = Some (q, h') \<and>
      pointer_repr selMachine machine_repr h' q (Some (finalizerTransform verb f m False)) \<and>
      pointer_repr selMachine machine_repr h' p (Some m)) \<and>
    (\<exists>q h'. transformCopy (memAnnotationTransform k v) p h = Some (q, h') \<and>
      pointer_repr selMachine machine_repr h' q (Some (annotationTransform k v m False)) \<and>
      pointer_repr selMachine machine_repr h' p (Some m))"
  using finalizerTransform_on_copy [OF assms] annotationTransform_on_copy [OF assms] by blast

theorem transform_keeps_original_witness:
  "\<exists>q h'. transformCopy (memFinalizerTransform VerbDeleted GetFinalizer) (Some 0) sample_heap = Some (q, h') \<and>
     pointer_repr selMachine machine_repr h' q (Some (finalizerTransform VerbDeleted GetFinalizer heap_machine False)) \<and>
     pointer_repr selMachine machine_repr h' (Some 0) (Some heap_machine)"
  using transform_keeps_original [OF sample_heap_ok sample_heap_repr, of VerbDeleted GetFinalizer] by blast

section \<open>Start-up\<close>

text \<open>C38. The scheme the manager is given knows the types the controllers work on: given that client-go
  registers its own types, the initialisation of neither package panics, the two tables of the scheme agree, every
  kind client-go knows is still known as before, and the machine and driver types and their lists
  are each resolved to exactly one kind, of the operator's group and version.\<close>

theorem types_are_resolved:
  assumes "clientgo NewScheme = Some (None, s1)" and "foreign s1"
  shows "\<exists>s. server_init clientgo = Some s \<and> run_init clientgo = Some s \<and> consistent s \<and>
    (\<forall>g t. gvkToType s1 g = Some t \<longrightarrow> gvkToType s g = Some t) \<and>
    (\<forall>kind \<in> {''Driver'', ''DriverList'', ''Machine'', ''MachineList''}.
      ObjectKinds s (apiType kind) =
        Some ([\<lparr>gvkGroup = ''docker-machine.klusters.dev'', gvkVersion = ''v1alpha1'', gvkKind = kind\<rparr>], False))"
proof -
  obtain s where s: "server_init clientgo = Some s" "consistent s" "gvkToType s = gvkToType s1 ++ apiTable"
    "\<And>t. t \<in> set (driverTypes @ machineTypes) \<Longrightarrow>
      ObjectKinds s t = Some ([WithKind GroupVersion_v1alpha1 (typeName t)], False)"
    using server_init_resolves [of clientgo s1] assms by metis
  have "gvkToType s g = Some t" if "gvkToType s1 g = Some t" for g t
    using that fits_api [OF assms(2)] by (cases "apiTable g") (fastforce simp: s(3) fits_def map_add_def)+
  then show ?thesis
    using s(1,2) run_init_eq [of clientgo] s(4) [of "apiType ''Driver''"] s(4) [of "apiType ''DriverList''"] s(4) [of "apiType ''Machine''"]
      s(4) [of "apiType ''MachineList''"]
    by (intro exI [of _ s]) (simp add: apiType_def WithKind_def)
qed

theorem types_are_resolved_witness:
  "\<exists>s. server_init core_clientgo = Some s \<and>
     ObjectKinds s (apiType ''Machine'') =
       Some ([\<lparr>gvkGroup = ''docker-machine.klusters.dev'', gvkVersion = ''v1alpha1'', gvkKind = ''Machine''\<rparr>], False)"
proof -
  obtain s1 where "core_clientgo NewScheme = Some (None, s1)" "foreign s1" by (rule core_clientgo_foreign)
  then show ?thesis using types_are_resolved [of core_clientgo s1] by blast
qed

text \<open>C39. Starting the operator: for a run command with accepted flags, the steps are taken in a fixed
  order (configuration, manager, the two controllers, the two checks, start). When all succeed the
  process ends with status 0; otherwise it exits at the first step that fails, with status 255 for
  the configuration and 1 for any other. In no case does \<^verbatim>\<open>Run\<close> return an error to its caller.\<close>

theorem startup_outcome:
  assumes "cobra args = Inr (CmdRun, given)" and "setFlags (AddFlags NewOperatorOptions) given NewOperatorOptions = Some s"
  shows "if \<forall>x \<in> set (map fst (startup_steps env s)). se_call env x = None
    then Run env s = (Returned None, map fst (startup_steps env s)) \<and>
      main cobra sv version env args = (0, map fst (startup_steps env s))
    else \<exists>before step rest status. startup_steps env s = before @ (step, status) # rest \<and>
      (\<forall>x \<in> set (map fst before). se_call env x = None) \<and> se_call env step \<noteq> None \<and>
      status = (if before = [] then 255 else 1) \<and> Run env s = (Exited status, map fst before @ [step]) \<and>
      main cobra sv version env args = (status, map fst before @ [step])"
proof -
  note run = startup_cases [of env s, folded Run_steps]
  have main: "main cobra sv version env args = exit_status (Run env s)"
    using assms by (simp add: main_exit_status execute_def NewCmdRun_def Let_def)
  show ?thesis
  proof (cases "\<forall>x \<in> set (map fst (startup_steps env s)). se_call env x = None")
    case True
    then have "Run env s = (Returned None, map fst (startup_steps env s))" using run by (simp only: if_P)
    then show ?thesis using True main by (simp only: if_P exit_status.simps simp_thms)
  next
    case False
    obtain before step rest status where w: "startup_steps env s = before @ (step, status) # rest"
      "\<forall>x \<in> set (map fst before). se_call env x = None" "se_call env step \<noteq> None"
      "status = (if before = [] then 255 else 1)" "Run env s = (Exited status, map fst before @ [step])"
      using run unfolding if_not_P [OF False] by blast
    then have "main cobra sv version env args = (status, map fst before @ [step])"
      using main by (simp only: exit_status.simps)
    then show ?thesis unfolding if_not_P [OF False] using w by blast
  qed
qed

theorem startup_outcome_witness:
  "\<exists>before step rest status. startup_steps sample_senv NewOperatorOptions = before @ (step, status) # rest \<and>
     status = (if before = [] then 255 else 1) \<and>
     main (\<lambda>_. Inr (CmdRun, [])) sample_semver sample_version sample_senv [''run''] = (status, map fst before @ [step])"
proof -
  have "\<not> (\<forall>x \<in> set (map fst (startup_steps sample_senv NewOperatorOptions)). se_call sample_senv x = None)"
    by (simp add: startup_steps_def sample_senv_def)
  then show ?thesis
    using startup_outcome [of "\<lambda>_. Inr (CmdRun, [])" "[''run'']" "[]" NewOperatorOptions sample_senv sample_semver sample_version]
    by (simp only: if_False setFlags.simps simp_thms) metis
qed

text \<open>C40. The flags for the metrics address, the resync period and the license file are accepted and have
  no effect: after any accepted command line they change nothing of what the operator does.\<close>

theorem flags_without_effect:
  assumes "setFlags (AddFlags NewOperatorOptions) given NewOperatorOptions \<noteq> None"
  shows "NewCmdRun env (given @ [(''metrics-bind-address'', FString a), (''resync-period'', FDuration r),
    (''license-file'', FString l)]) = NewCmdRun env given"
proof -
  obtain s where "setFlags (AddFlags NewOperatorOptions) given NewOperatorOptions = Some s" using assms by blast
  then show ?thesis
    by (simp add: NewCmdRun_def setFlags_append unused_flags Let_def Run_steps startup_ignores_each del: setFlags.simps)
qed

theorem flags_without_effect_witness:
  "NewCmdRun sample_senv ([(''leader-elect'', FBool True)] @ [(''metrics-bind-address'', FString '':9090''),
     (''resync-period'', FDuration minute), (''license-file'', FString ''/l'')]) = NewCmdRun sample_senv [(''leader-elect'', FBool True)]"
  by (rule flags_without_effect) (simp add: AddFlags_def AddGoFlags_def StringVar_def Float64Var_def IntVar_def
    DurationVar_def BoolVar_def)

end
